theory Spec2Isabelle
  imports Main "HOL-Library.Word"
begin

section \<open>The dxgkrnl host-communication layer\<close>

text \<open>
  A shallow embedding of the parts of \<^verbatim>\<open>drivers/hv/dxgkrnl\<close> that the specification
  talks about: the status translation and the send and receive paths of
  \<^verbatim>\<open>dxgvmbus.c\<close>, the wide-string helper of \<^verbatim>\<open>misc.c\<close>, and the object
  lifecycle of \<^verbatim>\<open>dxgadapter.c\<close>. C \<^verbatim>\<open>int\<close> return values are HOL integers (no
  arithmetic is done on them that could overflow), unsigned fields are words, loops are
  recursive functions, and every call out of the driver (transport, handle table, user
  copies, allocator) is either an explicit event of a trace or an explicit input.
\<close>

subsection \<open>Error numbers\<close>

text \<open>
  The values of \<^verbatim>\<open>include/uapi/asm-generic/errno-base.h\<close> and \<^verbatim>\<open>errno.h\<close>.
  The driver returns them negated.
\<close>

definition EPERM :: int where "EPERM = 1"
definition ENOENT :: int where "ENOENT = 2"
definition EBADF :: int where "EBADF = 9"
definition EAGAIN :: int where "EAGAIN = 11"
definition ENOMEM :: int where "ENOMEM = 12"
definition EACCES :: int where "EACCES = 13"
definition EEXIST :: int where "EEXIST = 17"
definition ENODEV :: int where "ENODEV = 19"
definition EINVAL :: int where "EINVAL = 22"
definition EOVERFLOW :: int where "EOVERFLOW = 75"
definition EPROTOTYPE :: int where "EPROTOTYPE = 91"
definition EOPNOTSUPP :: int where "EOPNOTSUPP = 95"
definition EINPROGRESS :: int where "EINPROGRESS = 115"
definition ENOTRECOVERABLE :: int where "ENOTRECOVERABLE = 131"

lemmas errno_defs =
  EPERM_def ENOENT_def EBADF_def EAGAIN_def ENOMEM_def EACCES_def EEXIST_def ENODEV_def
  EINVAL_def EOVERFLOW_def EPROTOTYPE_def EOPNOTSUPP_def EINPROGRESS_def
  ENOTRECOVERABLE_def

subsection \<open>Status translation: \<^verbatim>\<open>ntstatus2int\<close>\<close>

text \<open>
  \<^verbatim>\<open>struct ntstatus\<close> wraps one C \<^verbatim>\<open>int v\<close>. The numeric values of the
  \<^verbatim>\<open>STATUS_*\<close> case labels are declared in a header that is not part of the sources
  at hand, so the function takes them as a table. C requires the labels of one
  \<^verbatim>\<open>switch\<close> to be pairwise distinct.
\<close>

record ntstatus_codes =
  STATUS_OBJECT_NAME_COLLISION :: int
  STATUS_NO_MEMORY :: int
  STATUS_INVALID_PARAMETER :: int
  STATUS_OBJECT_NAME_INVALID :: int
  STATUS_OBJECT_NAME_NOT_FOUND :: int
  STATUS_TIMEOUT :: int
  STATUS_BUFFER_TOO_SMALL :: int
  STATUS_DEVICE_REMOVED :: int
  STATUS_ACCESS_DENIED :: int
  STATUS_NOT_SUPPORTED :: int
  STATUS_ILLEGAL_INSTRUCTION :: int
  STATUS_INVALID_HANDLE :: int
  STATUS_GRAPHICS_ALLOCATION_BUSY :: int
  STATUS_OBJECT_TYPE_MISMATCH :: int
  STATUS_NOT_IMPLEMENTED :: int

definition case_labels :: "ntstatus_codes \<Rightarrow> int list" where
  "case_labels c =
    [STATUS_OBJECT_NAME_COLLISION c, STATUS_NO_MEMORY c, STATUS_INVALID_PARAMETER c,
     STATUS_OBJECT_NAME_INVALID c, STATUS_OBJECT_NAME_NOT_FOUND c, STATUS_TIMEOUT c,
     STATUS_BUFFER_TOO_SMALL c, STATUS_DEVICE_REMOVED c, STATUS_ACCESS_DENIED c,
     STATUS_NOT_SUPPORTED c, STATUS_ILLEGAL_INSTRUCTION c, STATUS_INVALID_HANDLE c,
     STATUS_GRAPHICS_ALLOCATION_BUSY c, STATUS_OBJECT_TYPE_MISMATCH c,
     STATUS_NOT_IMPLEMENTED c]"

text \<open>
  Modelled from the spec: the macro \<^verbatim>\<open>NT_SUCCESS\<close> is declared outside the sources at
  hand; the specification calls the success statuses the non-negative ones.
\<close>

definition NT_SUCCESS :: "int \<Rightarrow> bool" where
  "NT_SUCCESS v = (0 \<le> v)"

definition ntstatus2int :: "ntstatus_codes \<Rightarrow> int \<Rightarrow> int" where
  "ntstatus2int c v =
    (if NT_SUCCESS v then v
     else if v = STATUS_OBJECT_NAME_COLLISION c then - EEXIST
     else if v = STATUS_NO_MEMORY c then - ENOMEM
     else if v = STATUS_INVALID_PARAMETER c then - EINVAL
     else if v = STATUS_OBJECT_NAME_INVALID c \<or> v = STATUS_OBJECT_NAME_NOT_FOUND c
       then - ENOENT
     else if v = STATUS_TIMEOUT c then - EAGAIN
     else if v = STATUS_BUFFER_TOO_SMALL c then - EOVERFLOW
     else if v = STATUS_DEVICE_REMOVED c then - ENODEV
     else if v = STATUS_ACCESS_DENIED c then - EACCES
     else if v = STATUS_NOT_SUPPORTED c then - EPERM
     else if v = STATUS_ILLEGAL_INSTRUCTION c then - EOPNOTSUPP
     else if v = STATUS_INVALID_HANDLE c then - EBADF
     else if v = STATUS_GRAPHICS_ALLOCATION_BUSY c then - EINPROGRESS
     else if v = STATUS_OBJECT_TYPE_MISMATCH c then - EPROTOTYPE
     else if v = STATUS_NOT_IMPLEMENTED c then - EPERM
     else - EINVAL)"

text \<open>A table of pairwise distinct failure codes (negative 32-bit values) to run the function on.\<close>

definition nt_codes :: ntstatus_codes where
  "nt_codes = \<lparr>
     STATUS_OBJECT_NAME_COLLISION = - 1073741771,
     STATUS_NO_MEMORY = - 1073741801,
     STATUS_INVALID_PARAMETER = - 1073741811,
     STATUS_OBJECT_NAME_INVALID = - 1073741773,
     STATUS_OBJECT_NAME_NOT_FOUND = - 1073741772,
     STATUS_TIMEOUT = - 1073741566,
     STATUS_BUFFER_TOO_SMALL = - 1073741789,
     STATUS_DEVICE_REMOVED = - 1073741130,
     STATUS_ACCESS_DENIED = - 1073741790,
     STATUS_NOT_SUPPORTED = - 1073741637,
     STATUS_ILLEGAL_INSTRUCTION = - 1073741795,
     STATUS_INVALID_HANDLE = - 1073741816,
     STATUS_GRAPHICS_ALLOCATION_BUSY = - 1071775486,
     STATUS_OBJECT_TYPE_MISMATCH = - 1073741788,
     STATUS_NOT_IMPLEMENTED = - 1073741822 \<rparr>"

subsection \<open>The wide-string copy helper: \<^verbatim>\<open>wcsncpy\<close>\<close>

text \<open>
  \<^verbatim>\<open>misc.c\<close>. The buffers are lists of 16-bit units. The loop counter \<^verbatim>\<open>i\<close> is a C
  \<^verbatim>\<open>int\<close>: a read or a write outside a buffer, and an increment of \<^verbatim>\<open>i\<close> past
  \<^verbatim>\<open>INT_MAX\<close>, have no defined behaviour and are the result \<open>None\<close>. The loop
  returns the destination together with the final value of \<^verbatim>\<open>i\<close>; the function then
  stores the terminator at \<^verbatim>\<open>i - 1\<close>.
\<close>

type_synonym u16 = "16 word"

definition INT_MAX :: nat where
  "INT_MAX = 2147483647"

function wcsncpy_loop :: "u16 list \<Rightarrow> u16 list \<Rightarrow> nat \<Rightarrow> nat \<Rightarrow> (u16 list \<times> nat) option" where
  "wcsncpy_loop dest src n i =
    (if i < n then
       (if length src \<le> i \<or> length dest \<le> i \<or> INT_MAX \<le> i then None
        else if src ! i = 0 then Some (dest[i := src ! i], i + 1)
        else wcsncpy_loop (dest[i := src ! i]) src n (i + 1))
     else Some (dest, i))"
  by pat_completeness auto
termination
  by (relation "measure (\<lambda>(dest, src, n, i). n - i)") auto

declare wcsncpy_loop.simps [simp del]

definition wcsncpy :: "u16 list \<Rightarrow> u16 list \<Rightarrow> nat \<Rightarrow> u16 list option" where
  "wcsncpy dest src n =
    (case wcsncpy_loop dest src n 0 of
       None \<Rightarrow> None
     | Some (d, i) \<Rightarrow> if i = 0 \<or> length d < i then None else Some (d[i - 1 := 0]))"

subsection \<open>The transport channel: pending requests and completions\<close>

text \<open>
  \<^verbatim>\<open>dxgvmbus.c\<close>. A channel tracks the synchronous requests that wait for a completion
  in \<^verbatim>\<open>packet_list_head\<close>, a list of \<^verbatim>\<open>struct dxgvmbuspacket\<close>. A packet's
  \<^verbatim>\<open>buffer\<close> is the caller's memory from the result pointer on, as bytes;
  \<^verbatim>\<open>buffer_length\<close> is the length the caller declared. \<^verbatim>\<open>wait\<close> is the state of
  the completion the caller sleeps on. The calls of \<^verbatim>\<open>vmbus_sendpacket\<close> and the
  lines of \<^verbatim>\<open>pr_err\<close> are recorded in the channel, oldest first.

  The constants of the driver's headers (not part of the sources at hand) are
  parameters, collected in a record: the packet size ceiling and the sizes of the
  wire structures.
\<close>

type_synonym u8 = "8 word"
type_synonym u32 = "32 word"
type_synonym u64 = "64 word"

record dxg_header =
  DXG_MAX_VM_BUS_PACKET_SIZE :: nat
  sizeof_dxgkvmb_command_host_to_vm :: nat
  sizeof_dxgkvmb_command_createallocation :: nat
  sizeof_dxgkvmb_command_createallocation_allocinfo :: nat
  sizeof_dxgkvmb_command_createallocation_return :: nat
  sizeof_dxgkvmb_command_allocinfo_return :: nat
  sizeof_dxgkvmb_command_destroyallocation :: nat
  sizeof_d3dkmthandle :: nat

record dxgvmbuspacket =
  request_id :: u64
  wait :: bool
  buffer :: "u8 list"
  buffer_length :: u32
  status :: int

datatype vmbus_packet_type = VM_PKT_COMP | VM_PKT_DATA_INBAND | VM_PKT_OTHER

record vmpacket_descriptor =
  pkt_type :: vmbus_packet_type
  trans_id :: u64
  pkt_data :: "u8 list"

record sendpacket =
  sp_command :: "u8 list"
  sp_size :: u32
  sp_request_id :: u64
  sp_type :: vmbus_packet_type
  sp_completion_requested :: bool

record dxgvmbuschannel =
  packet_list_head :: "dxgvmbuspacket list"
  packet_request_id :: u64
  adapter :: "nat option"
  sendpackets :: "sendpacket list"
  errs :: "string list"

definition pr_err :: "string \<Rightarrow> dxgvmbuschannel \<Rightarrow> dxgvmbuschannel" where
  "pr_err msg ch = ch\<lparr>errs := errs ch @ [msg]\<rparr>"

text \<open>\<^verbatim>\<open>dxgvmbuschannel_init\<close>, as far as the request tracking goes.\<close>

definition dxgvmbuschannel_init :: "nat option \<Rightarrow> dxgvmbuschannel" where
  "dxgvmbuschannel_init a =
    \<lparr>packet_list_head = [], packet_request_id = 0, adapter = a, sendpackets = [], errs = []\<rparr>"

text \<open>The payload length of a received packet, a \<^verbatim>\<open>u32\<close>.\<close>

definition hv_pkt_datalen :: "vmpacket_descriptor \<Rightarrow> u32" where
  "hv_pkt_datalen desc = of_nat (length (pkt_data desc))"

text \<open>\<^verbatim>\<open>memcpy (dst, src, n)\<close> on memory given as the bytes from the pointer on.\<close>

definition memcpy :: "u8 list \<Rightarrow> u8 list \<Rightarrow> nat \<Rightarrow> u8 list" where
  "memcpy dst src n = take n src @ drop n dst"

text \<open>
  The search of \<^verbatim>\<open>process_completion_packet\<close>: the first entry of the list whose
  request id is the transaction id is unlinked (\<^verbatim>\<open>list_del\<close>) and the walk stops.
\<close>

fun list_del_request :: "u64 \<Rightarrow> dxgvmbuspacket list \<Rightarrow> dxgvmbuspacket option \<times> dxgvmbuspacket list" where
  "list_del_request t [] = (None, [])"
| "list_del_request t (entry # es) =
    (if t = request_id entry then (Some entry, es)
     else (fst (list_del_request t es), entry # snd (list_del_request t es)))"

definition complete_packet :: "dxgvmbuspacket \<Rightarrow> vmpacket_descriptor \<Rightarrow> dxgvmbuspacket" where
  "complete_packet packet desc =
    (let packet_length = hv_pkt_datalen desc;
         p1 = (if buffer_length packet \<noteq> 0 then
                 (if packet_length < buffer_length packet
                  then packet\<lparr>status := - EOVERFLOW\<rparr>
                  else packet\<lparr>buffer :=
                    memcpy (buffer packet) (pkt_data desc) (unat (buffer_length packet))\<rparr>)
               else packet)
     in p1\<lparr>wait := True\<rparr>)"

text \<open>
  \<^verbatim>\<open>process_completion_packet\<close> returns the channel and the packet it completed, if
  any: the caller sleeping on that packet is the one that is woken.
\<close>

definition process_completion_packet ::
  "dxgvmbuschannel \<Rightarrow> vmpacket_descriptor \<Rightarrow> dxgvmbuschannel \<times> dxgvmbuspacket option" where
  "process_completion_packet channel desc =
    (case list_del_request (trans_id desc) (packet_list_head channel) of
       (Some packet, rest) \<Rightarrow>
         (channel\<lparr>packet_list_head := rest\<rparr>, Some (complete_packet packet desc))
     | (None, rest) \<Rightarrow> (pr_err ''did not find packet to complete'' channel, None))"

definition process_inband_packet ::
  "dxg_header \<Rightarrow> dxgvmbuschannel \<Rightarrow> vmpacket_descriptor \<Rightarrow> dxgvmbuschannel" where
  "process_inband_packet K channel desc =
    (if adapter channel = None then
       (if unat (hv_pkt_datalen desc) < sizeof_dxgkvmb_command_host_to_vm K
        then pr_err ''Invalid global packet'' channel
        else channel)
     else pr_err ''Unexpected packet for adapter channel'' channel)"

text \<open>
  \<^verbatim>\<open>dxgvmbuschannel_receive\<close> walks the packets that arrived
  (\<^verbatim>\<open>foreach_vmbus_pkt\<close>); the result collects the packets it completed, in order.
\<close>

fun dxgvmbuschannel_receive ::
  "dxg_header \<Rightarrow> dxgvmbuschannel \<Rightarrow> vmpacket_descriptor list \<Rightarrow>
   dxgvmbuschannel \<times> dxgvmbuspacket list" where
  "dxgvmbuschannel_receive K channel [] = (channel, [])"
| "dxgvmbuschannel_receive K channel (desc # descs) =
    (if pkt_type desc = VM_PKT_COMP then
       (case process_completion_packet channel desc of
          (ch1, woken) \<Rightarrow>
            (case dxgvmbuschannel_receive K ch1 descs of
               (ch2, ws) \<Rightarrow> (ch2, (case woken of None \<Rightarrow> [] | Some p \<Rightarrow> [p]) @ ws)))
     else if pkt_type desc \<noteq> VM_PKT_DATA_INBAND then
       dxgvmbuschannel_receive K (pr_err ''unexpected packet type'' channel) descs
     else dxgvmbuschannel_receive K (process_inband_packet K channel desc) descs)"

text \<open>
  \<^verbatim>\<open>dxgvmb_send_sync_msg\<close> up to the point where it sleeps in
  \<^verbatim>\<open>wait_for_completion\<close>. The inputs from outside are whether
  \<^verbatim>\<open>kmem_cache_alloc\<close> returned a packet, and the value \<^verbatim>\<open>vmbus_sendpacket\<close>
  returns. The result is \<open>Some ret\<close> when the function returns without sleeping and
  \<open>None\<close> when it sleeps on the packet it has put at the tail of the list.
\<close>

definition dxgvmb_send_sync_msg ::
  "dxg_header \<Rightarrow> dxgvmbuschannel \<Rightarrow> bool \<Rightarrow> u8 list \<Rightarrow> u32 \<Rightarrow> u8 list \<Rightarrow> u32 \<Rightarrow> int \<Rightarrow>
   dxgvmbuschannel \<times> int option" where
  "dxgvmb_send_sync_msg K channel alloc_ok command cmd_size result result_size send_ret =
    (if DXG_MAX_VM_BUS_PACKET_SIZE K < unat cmd_size \<or>
        DXG_MAX_VM_BUS_PACKET_SIZE K < unat result_size
     then (pr_err ''dxgvmb_send_sync_msg invalid data size'' channel, Some (- EINVAL))
     else if \<not> alloc_ok
     then (pr_err ''kmem_cache_alloc failed'' channel, Some (- ENOMEM))
     else
       let id = packet_request_id channel + 1;
           packet = \<lparr>request_id = id, wait = False, buffer = result,
                     buffer_length = result_size, status = 0\<rparr>;
           ch1 = channel\<lparr>packet_request_id := id,
                         packet_list_head := packet_list_head channel @ [packet]\<rparr>;
           ch2 = ch1\<lparr>sendpackets := sendpackets ch1 @
                   [\<lparr>sp_command = command, sp_size = cmd_size, sp_request_id = id,
                     sp_type = VM_PKT_DATA_INBAND, sp_completion_requested = True\<rparr>]\<rparr>
       in if send_ret \<noteq> 0
          then (pr_err ''vmbus_sendpacket failed''
                  (ch2\<lparr>packet_list_head := butlast (packet_list_head ch2)\<rparr>), Some send_ret)
          else (ch2, None))"

text \<open>
  The rest of \<^verbatim>\<open>dxgvmb_send_sync_msg\<close>, once the completion is signalled: the status
  the receive path recorded is returned together with the contents of the result
  memory. While the completion is not signalled the caller keeps sleeping (\<open>None\<close>).
\<close>

definition dxgvmb_send_sync_msg_wake :: "dxgvmbuspacket \<Rightarrow> (int \<times> u8 list) option" where
  "dxgvmb_send_sync_msg_wake packet =
    (if wait packet then Some (status packet, buffer packet) else None)"

text \<open>
  \<^verbatim>\<open>dxgvmb_send_async_msg\<close>. The transport's answer to the attempt made when
  \<^verbatim>\<open>try_count\<close> has the value \<open>k\<close> is \<open>transport k\<close>. The loop returns the last
  answer, the final \<^verbatim>\<open>try_count\<close> and what it did, in order.
\<close>

datatype async_event = Sendpacket | Usleep_range nat nat

function dxgvmb_send_async_loop ::
  "(nat \<Rightarrow> int) \<Rightarrow> nat \<Rightarrow> async_event list \<Rightarrow> int \<times> nat \<times> async_event list" where
  "dxgvmb_send_async_loop transport try_count evs =
    (let ret = transport try_count; evs1 = evs @ [Sendpacket] in
     if ret = - EAGAIN then
       (if try_count + 1 < 5000
        then dxgvmb_send_async_loop transport (try_count + 1) (evs1 @ [Usleep_range 1000 2000])
        else (ret, try_count + 1, evs1 @ [Usleep_range 1000 2000]))
     else (ret, try_count, evs1))"
  by pat_completeness auto
termination
  by (relation "measure (\<lambda>(transport, try_count, evs). 5000 - try_count)") auto

declare dxgvmb_send_async_loop.simps [simp del]

definition dxgvmb_send_async_msg ::
  "dxg_header \<Rightarrow> dxgvmbuschannel \<Rightarrow> u32 \<Rightarrow> (nat \<Rightarrow> int) \<Rightarrow> int \<times> async_event list" where
  "dxgvmb_send_async_msg K channel cmd_size transport =
    (if DXG_MAX_VM_BUS_PACKET_SIZE K < unat cmd_size then (- EINVAL, [])
     else if adapter channel \<noteq> None then (- EINVAL, [])
     else case dxgvmb_send_async_loop transport 0 [] of (ret, try_count, evs) \<Rightarrow> (ret, evs))"

text \<open>One attempt of the asynchronous send that found the ring full.\<close>

abbreviation attempt_and_sleep :: "async_event list" where
  "attempt_and_sleep \<equiv> [Sendpacket, Usleep_range 1000 2000]"

text \<open>The completions among the packets of one receive call.\<close>

definition completions :: "vmpacket_descriptor list \<Rightarrow> vmpacket_descriptor set" where
  "completions descs = {d \<in> set descs. pkt_type d = VM_PKT_COMP}"

text \<open>Header constants to run the functions on.\<close>

definition header_128k :: dxg_header where
  "header_128k = \<lparr>
     DXG_MAX_VM_BUS_PACKET_SIZE = 131072,
     sizeof_dxgkvmb_command_host_to_vm = 24,
     sizeof_dxgkvmb_command_createallocation = 48,
     sizeof_dxgkvmb_command_createallocation_allocinfo = 16,
     sizeof_dxgkvmb_command_createallocation_return = 40,
     sizeof_dxgkvmb_command_allocinfo_return = 24,
     sizeof_dxgkvmb_command_destroyallocation = 44,
     sizeof_d3dkmthandle = 4 \<rparr>"

text \<open>
  What happens on a channel, one step at a time: a caller enters
  \<^verbatim>\<open>dxgvmb_send_sync_msg\<close> (with the inputs described there), or the transport
  delivers packets to \<^verbatim>\<open>dxgvmbuschannel_receive\<close>.
\<close>

datatype channel_action =
  Send_sync bool "u8 list" u32 "u8 list" u32 int
| Receive "vmpacket_descriptor list"

fun channel_step :: "dxg_header \<Rightarrow> dxgvmbuschannel \<Rightarrow> channel_action \<Rightarrow> dxgvmbuschannel" where
  "channel_step K ch (Send_sync alloc_ok command cmd_size result result_size send_ret) =
    fst (dxgvmb_send_sync_msg K ch alloc_ok command cmd_size result result_size send_ret)"
| "channel_step K ch (Receive descs) = fst (dxgvmbuschannel_receive K ch descs)"

definition run_channel ::
  "dxg_header \<Rightarrow> dxgvmbuschannel \<Rightarrow> channel_action list \<Rightarrow> dxgvmbuschannel" where
  "run_channel K ch acts = foldl (channel_step K) ch acts"

text \<open>
  Two callers, each expecting a result of 4 bytes in memory that continues with two
  bytes of something else, and completions for them.
\<close>

definition two_sends :: "channel_action list" where
  "two_sends =
    [Send_sync True [1] 1 [0, 0, 0, 0, 9, 9] 4 0, Send_sync True [2] 1 [0, 0, 0, 0, 9, 9] 4 0]"

definition completion_for :: "u64 \<Rightarrow> u8 list \<Rightarrow> vmpacket_descriptor" where
  "completion_for t bytes = \<lparr>pkt_type = VM_PKT_COMP, trans_id = t, pkt_data = bytes\<rparr>"

definition pending_request :: "u64 \<Rightarrow> dxgvmbuspacket" where
  "pending_request t =
    \<lparr>request_id = t, wait = False, buffer = [0, 0, 0, 0, 9, 9], buffer_length = 4, status = 0\<rparr>"

subsection \<open>The size budget of a batch allocation create\<close>

text \<open>
  \<^verbatim>\<open>dxgvmb_send_create_allocation\<close> of \<^verbatim>\<open>dxgvmbus.c\<close>, from its entry to the point
  where it hands the command to \<^verbatim>\<open>dxgvmb_send_sync_msg\<close>, the first contact with the
  host. The sizes are \<^verbatim>\<open>u32\<close>; a sum that involves a \<^verbatim>\<open>sizeof\<close> is computed in
  \<^verbatim>\<open>size_t\<close> and stored in a \<^verbatim>\<open>u32\<close>, which keeps it modulo \<open>2 ^ 32\<close>. The
  structures \<^verbatim>\<open>d3dkmt_createallocation\<close> and \<^verbatim>\<open>d3dddi_allocationinfo2\<close> are
  declared in a header outside the sources at hand; the records have the fields the
  functions use.
\<close>

type_synonym d3dkmthandle = u32

record d3dkmt_createallocationflags =
  create_resource :: bool
  standard_allocation :: bool
  read_only :: bool

record d3dkmt_createallocation =
  ca_device :: d3dkmthandle
  ca_resource :: d3dkmthandle
  ca_global_share :: d3dkmthandle
  private_runtime_data_size :: u32
  priv_drv_data_size :: u32
  alloc_count :: u32
  ca_flags :: d3dkmt_createallocationflags

record d3dddi_allocationinfo2 =
  ai_sysmem :: bool
  ai_priv_drv_data_size :: u32

text \<open>
  The loop that adds up the private driver data of the allocations, from the running
  total \<open>acc\<close>: \<open>Inl\<close> is the error it leaves with.
\<close>

fun total_priv_drv_data_size ::
  "dxg_header \<Rightarrow> d3dddi_allocationinfo2 list \<Rightarrow> u32 \<Rightarrow> int + u32" where
  "total_priv_drv_data_size K [] acc = Inr acc"
| "total_priv_drv_data_size K (info # infos) acc =
    (if DXG_MAX_VM_BUS_PACKET_SIZE K \<le> unat (ai_priv_drv_data_size info) then Inl (- EOVERFLOW)
     else if DXG_MAX_VM_BUS_PACKET_SIZE K \<le> unat (acc + ai_priv_drv_data_size info)
       then Inl (- EOVERFLOW)
     else total_priv_drv_data_size K infos (acc + ai_priv_drv_data_size info))"

text \<open>
  The function either returns a value without having contacted the host, or reaches
  the send with the command size, the result size and the size of the buffer for the
  compensating destroy. Reading \<^verbatim>\<open>alloc_info\<close> beyond its end is a fault, and
  \<^verbatim>\<open>copy_private_data\<close> reads its first member after the user copies, whatever
  \<^verbatim>\<open>alloc_count\<close> is. The inputs
  from outside are whether \<^verbatim>\<open>vzalloc\<close> gave the result buffer, whether
  \<^verbatim>\<open>init_message\<close> gave the command buffer, and whether the user copies of
  \<^verbatim>\<open>copy_private_data\<close> went through.
\<close>

datatype create_allocation_outcome =
  Returned int
| Host_contact u32 u32 u32
| Fault

definition dxgvmb_send_create_allocation ::
  "dxg_header \<Rightarrow> d3dkmt_createallocation \<Rightarrow> d3dddi_allocationinfo2 list \<Rightarrow>
   bool \<Rightarrow> bool \<Rightarrow> bool \<Rightarrow> create_allocation_outcome" where
  "dxgvmb_send_create_allocation K args alloc_info vzalloc_ok init_message_ok copy_ok =
    (if DXG_MAX_VM_BUS_PACKET_SIZE K \<le> unat (private_runtime_data_size args) \<or>
        DXG_MAX_VM_BUS_PACKET_SIZE K \<le> unat (priv_drv_data_size args)
     then Returned (- EOVERFLOW)
     else if length alloc_info < unat (alloc_count args) then Fault
     else
       let destroy_buffer_size = (of_nat (sizeof_dxgkvmb_command_destroyallocation K +
             unat (alloc_count args) * sizeof_d3dkmthandle K) :: u32)
       in case total_priv_drv_data_size K (take (unat (alloc_count args)) alloc_info) 0 of
            Inl err \<Rightarrow> Returned err
          | Inr tot \<Rightarrow>
              let result_size = (of_nat (sizeof_dxgkvmb_command_createallocation_return K +
                    unat (alloc_count args - 1) * sizeof_dxgkvmb_command_allocinfo_return K +
                    unat tot) :: u32)
              in if \<not> vzalloc_ok then Returned (- ENOMEM)
                 else
                   let priv = tot + priv_drv_data_size args;
                       cmd_size = (of_nat (sizeof_dxgkvmb_command_createallocation K +
                         unat (alloc_count args) *
                           sizeof_dxgkvmb_command_createallocation_allocinfo K +
                         unat (private_runtime_data_size args) + unat priv) :: u32)
                   in if DXG_MAX_VM_BUS_PACKET_SIZE K < unat cmd_size then Returned (- EOVERFLOW)
                      else if \<not> init_message_ok then Returned (- ENOMEM)
                      else if \<not> copy_ok then Returned (- EINVAL)
                      else if alloc_info = [] then Fault
                      else Host_contact cmd_size result_size destroy_buffer_size)"

text \<open>
  The size the claim speaks of: the command header, the per-allocation array, the
  runtime data and the global and per-allocation private driver data, added up as
  natural numbers.
\<close>

definition aggregated_size ::
  "dxg_header \<Rightarrow> d3dkmt_createallocation \<Rightarrow> d3dddi_allocationinfo2 list \<Rightarrow> nat" where
  "aggregated_size K args alloc_info =
    sizeof_dxgkvmb_command_createallocation K +
    unat (alloc_count args) * sizeof_dxgkvmb_command_createallocation_allocinfo K +
    unat (private_runtime_data_size args) + unat (priv_drv_data_size args) +
    sum_list (map (\<lambda>info. unat (ai_priv_drv_data_size info))
      (take (unat (alloc_count args)) alloc_info))"

text \<open>A batch of two allocations whose data, 100000 bytes each, exceed 128 KiB together.\<close>

definition big_batch :: d3dkmt_createallocation where
  "big_batch = \<lparr>ca_device = 1, ca_resource = 0, ca_global_share = 0,
     private_runtime_data_size = 100000, priv_drv_data_size = 100000, alloc_count = 2,
     ca_flags = \<lparr>create_resource = False, standard_allocation = False, read_only = False\<rparr>\<rparr>"

definition small_infos :: "d3dddi_allocationinfo2 list" where
  "small_infos = [\<lparr>ai_sysmem = False, ai_priv_drv_data_size = 16\<rparr>,
                  \<lparr>ai_sysmem = False, ai_priv_drv_data_size = 16\<rparr>]"

subsection \<open>The object graph: adapters, devices, contexts, resources, allocations\<close>

text \<open>
  \<^verbatim>\<open>dxgadapter.c\<close>. Objects live in stores indexed by their address; a pointer is an
  address, \<open>None\<close> is \<^verbatim>\<open>NULL\<close>. A \<^verbatim>\<open>list_head\<close> that anchors a list is the list
  of the addresses of its members, and a \<^verbatim>\<open>list_head\<close> embedded in a member is the
  flag whether it is linked (its \<^verbatim>\<open>next\<close> is not \<^verbatim>\<open>NULL\<close>). A \<^verbatim>\<open>kref\<close> is its
  count. The structures are declared in \<^verbatim>\<open>dxgkrnl.h\<close>, outside the sources at hand;
  the records have the fields the functions use.

  The functions run one at a time, so a lock never blocks; taking and releasing a lock
  are events of the trace, as is every call out of the driver. What the outside answers
  is scripted in the world: \<open>vzalloc_script\<close> for the message buffers that
  \<^verbatim>\<open>init_message\<close> allocates, \<open>host_script\<close> for the status a synchronous message
  comes back with, \<open>os_script\<close> for the other calls that can fail. A script that has
  run out answers with success. \<open>faulting\<close> lists the places in user memory that
  \<^verbatim>\<open>copy_to_user\<close> cannot write. \<open>fault\<close> is set when a function does something
  C leaves undefined (it dereferences \<^verbatim>\<open>NULL\<close> or reads beyond an array); what the
  model does after that says nothing about the program.
\<close>

type_synonym ptr = nat

datatype dxgadapter_state =
  DXGADAPTER_STATE_ACTIVE | DXGADAPTER_STATE_STOPPED | DXGADAPTER_STATE_WAITING_VMBUS

datatype dxgobjectstate =
  DXGOBJECTSTATE_CREATED | DXGOBJECTSTATE_ACTIVE | DXGOBJECTSTATE_STOPPED
| DXGOBJECTSTATE_DESTROYED

datatype hmgrentry_type =
  HMGRENTRY_TYPE_DXGDEVICE | HMGRENTRY_TYPE_DXGCONTEXT | HMGRENTRY_TYPE_DXGRESOURCE
| HMGRENTRY_TYPE_DXGALLOCATION

record dxgadapter =
  adapter_kref :: int
  adapter_state :: dxgadapter_state
  stopping_adapter :: bool
  adapter_process_list_head :: "ptr list"
  adapter_host_handle :: d3dkmthandle
  channel_packet_cache :: bool
  channel_channel :: bool

record dxgprocess =
  handle_table :: "d3dkmthandle \<Rightarrow> (hmgrentry_type \<times> ptr) option"
  process_host_handle :: d3dkmthandle
  process_adapter_list_head :: "ptr list"

record dxgprocess_adapter =
  pa_adapter :: ptr
  pa_process :: ptr
  pa_refcount :: int
  device_list_head :: "ptr list"

record dxgdevice =
  device_kref :: int
  device_adapter :: "ptr option"
  device_process :: ptr
  device_adapter_info :: ptr
  device_object_state :: dxgobjectstate
  device_handle :: d3dkmthandle
  device_handle_valid :: bool
  context_list_head :: "ptr list"
  alloc_list_head :: "ptr list"
  resource_list_head :: "ptr list"
  pqueue_list_head :: "ptr list"
  syncobj_list_head :: "ptr list"
  device_list_entry :: bool

record dxgcontext =
  context_kref :: int
  context_device :: "ptr option"
  context_process :: ptr
  context_handle :: d3dkmthandle
  context_device_handle :: d3dkmthandle
  context_object_state :: dxgobjectstate
  hwqueue_list_head :: "ptr list"
  context_list_entry :: bool

record dxgresource =
  resource_kref :: int
  resource_device :: ptr
  resource_process :: ptr
  resource_handle :: d3dkmthandle
  resource_handle_valid :: bool
  resource_object_state :: dxgobjectstate
  resource_alloc_list_head :: "ptr list"
  resource_destroyed :: bool
  shared_owner :: "ptr option"
  resource_list_entry :: bool
  shared_resource_list_entry :: bool

record dxgsharedresource =
  sresource_kref :: int
  sresource_adapter :: ptr
  sresource_list_head :: "ptr list"

record dxgallocation =
  alloc_process :: ptr
  owner :: "ptr option"
  resource_owner :: bool
  alloc_handle :: d3dkmthandle
  alloc_handle_valid :: bool
  alloc_list_entry :: bool
  pages :: bool
  num_pages :: u64
  cpu_address_mapped :: bool
  cpu_address :: bool
  gpadl_handle :: u32
  alloc_priv_drv_data :: bool
  cached :: bool

datatype lock_id =
  Core_lock ptr | Device_lock ptr | Alloc_list_lock ptr | Context_list_lock ptr
| Handle_table_lock ptr | Shared_resource_list_lock ptr | Device_list_mutex ptr
| Process_adapter_mutex

datatype object_ref =
  Adapter ptr | Device ptr | Context ptr | Resource ptr | Shared_resource ptr
| Allocation ptr | Allocation_pages ptr | Allocation_priv_drv_data ptr

text \<open>
  The commands that reach the host, with the fields that matter here. A destroy of
  allocations carries the device, the resource, the allocation handles and the
  \<^verbatim>\<open>assume_not_in_use\<close> flag.
\<close>

datatype host_command =
  DXGK_VMBCOMMAND_CLOSEADAPTER d3dkmthandle
| DXGK_VMBCOMMAND_DESTROYDEVICE d3dkmthandle
| DXGK_VMBCOMMAND_DESTROYALLOCATION d3dkmthandle d3dkmthandle "d3dkmthandle list" bool
| DXGK_VMBCOMMAND_SETEXISTINGSYSMEMSTORE d3dkmthandle d3dkmthandle u32

datatype user_dest =
  User_resource | User_priv_drv_data nat | User_allocation nat | User_global_share

datatype event =
  Down_write lock_id | Up_write lock_id | Down_read lock_id | Up_read lock_id
| Mutex_lock lock_id | Mutex_unlock lock_id
| Hmgrtable_assign_handle ptr hmgrentry_type d3dkmthandle
| Hmgrtable_free_handle ptr hmgrentry_type d3dkmthandle
| Host_rpc host_command
| Vfree object_ref
| Release_pages ptr
| Vm_munmap ptr
| Vmbus_teardown_gpadl u32
| Kmem_cache_destroy ptr
| Vmbus_close ptr
| Get_user_pages_fast ptr
| Vmap ptr
| Vunmap ptr
| Vmbus_establish_gpadl ptr
| Copy_to_user user_dest
| Printk string

record world =
  adapters :: "ptr \<Rightarrow> dxgadapter"
  processes :: "ptr \<Rightarrow> dxgprocess"
  process_adapters :: "ptr \<Rightarrow> dxgprocess_adapter"
  devices :: "ptr \<Rightarrow> dxgdevice"
  contexts :: "ptr \<Rightarrow> dxgcontext"
  resources :: "ptr \<Rightarrow> dxgresource"
  shared_resources :: "ptr \<Rightarrow> dxgsharedresource"
  allocations :: "ptr \<Rightarrow> dxgallocation"
  trace :: "event list"
  current_mm :: bool
  vzalloc_script :: "bool list"
  host_script :: "int list"
  os_script :: "int list"
  faulting :: "user_dest list"
  fault :: bool

definition emit :: "event \<Rightarrow> world \<Rightarrow> world" where
  "emit e w = w\<lparr>trace := trace w @ [e]\<rparr>"

definition upd_adapter :: "ptr \<Rightarrow> (dxgadapter \<Rightarrow> dxgadapter) \<Rightarrow> world \<Rightarrow> world" where
  "upd_adapter a f w = w\<lparr>adapters := (adapters w)(a := f (adapters w a))\<rparr>"

definition upd_process :: "ptr \<Rightarrow> (dxgprocess \<Rightarrow> dxgprocess) \<Rightarrow> world \<Rightarrow> world" where
  "upd_process p f w = w\<lparr>processes := (processes w)(p := f (processes w p))\<rparr>"

definition upd_process_adapter ::
  "ptr \<Rightarrow> (dxgprocess_adapter \<Rightarrow> dxgprocess_adapter) \<Rightarrow> world \<Rightarrow> world" where
  "upd_process_adapter i f w =
    w\<lparr>process_adapters := (process_adapters w)(i := f (process_adapters w i))\<rparr>"

definition upd_device :: "ptr \<Rightarrow> (dxgdevice \<Rightarrow> dxgdevice) \<Rightarrow> world \<Rightarrow> world" where
  "upd_device d f w = w\<lparr>devices := (devices w)(d := f (devices w d))\<rparr>"

definition upd_context :: "ptr \<Rightarrow> (dxgcontext \<Rightarrow> dxgcontext) \<Rightarrow> world \<Rightarrow> world" where
  "upd_context c f w = w\<lparr>contexts := (contexts w)(c := f (contexts w c))\<rparr>"

definition upd_resource :: "ptr \<Rightarrow> (dxgresource \<Rightarrow> dxgresource) \<Rightarrow> world \<Rightarrow> world" where
  "upd_resource r f w = w\<lparr>resources := (resources w)(r := f (resources w r))\<rparr>"

definition upd_shared_resource ::
  "ptr \<Rightarrow> (dxgsharedresource \<Rightarrow> dxgsharedresource) \<Rightarrow> world \<Rightarrow> world" where
  "upd_shared_resource s f w =
    w\<lparr>shared_resources := (shared_resources w)(s := f (shared_resources w s))\<rparr>"

definition upd_allocation :: "ptr \<Rightarrow> (dxgallocation \<Rightarrow> dxgallocation) \<Rightarrow> world \<Rightarrow> world" where
  "upd_allocation x f w = w\<lparr>allocations := (allocations w)(x := f (allocations w x))\<rparr>"

text \<open>The next answer of a script, and the world with the script advanced.\<close>

definition vzalloc :: "world \<Rightarrow> bool \<times> world" where
  "vzalloc w =
    (case vzalloc_script w of [] \<Rightarrow> (True, w) | b # bs \<Rightarrow> (b, w\<lparr>vzalloc_script := bs\<rparr>))"

definition host_answer :: "world \<Rightarrow> int \<times> world" where
  "host_answer w =
    (case host_script w of [] \<Rightarrow> (0, w) | s # ss \<Rightarrow> (s, w\<lparr>host_script := ss\<rparr>))"

definition os_answer :: "world \<Rightarrow> int \<times> world" where
  "os_answer w =
    (case os_script w of [] \<Rightarrow> (0, w) | s # ss \<Rightarrow> (s, w\<lparr>os_script := ss\<rparr>))"

subsubsection \<open>Reference counts\<close>

text \<open>
  \<^verbatim>\<open>kref_get\<close> and \<^verbatim>\<open>kref_put\<close> with the release function of each kind of object.
  A release frees the object (\<^verbatim>\<open>vfree\<close>), which is an event; the store keeps the
  last contents.
\<close>

definition dxgadapter_release :: "ptr \<Rightarrow> world \<Rightarrow> world" where
  "dxgadapter_release a w = emit (Vfree (Adapter a)) w"

definition dxgdevice_release :: "ptr \<Rightarrow> world \<Rightarrow> world" where
  "dxgdevice_release d w = emit (Vfree (Device d)) w"

definition dxgcontext_release :: "ptr \<Rightarrow> world \<Rightarrow> world" where
  "dxgcontext_release c w = emit (Vfree (Context c)) w"

definition dxgresource_release :: "ptr \<Rightarrow> world \<Rightarrow> world" where
  "dxgresource_release r w = emit (Vfree (Resource r)) w"

definition dxgsharedresource_destroy :: "ptr \<Rightarrow> world \<Rightarrow> world" where
  "dxgsharedresource_destroy s w = emit (Vfree (Shared_resource s)) w"

definition kref_get_adapter :: "ptr \<Rightarrow> world \<Rightarrow> world" where
  "kref_get_adapter a w = upd_adapter a (\<lambda>x. x\<lparr>adapter_kref := adapter_kref x + 1\<rparr>) w"

definition kref_put_adapter :: "ptr \<Rightarrow> world \<Rightarrow> world" where
  "kref_put_adapter a w =
    (let w1 = upd_adapter a (\<lambda>x. x\<lparr>adapter_kref := adapter_kref x - 1\<rparr>) w
     in if adapter_kref (adapters w1 a) = 0 then dxgadapter_release a w1 else w1)"

definition kref_get_device :: "ptr \<Rightarrow> world \<Rightarrow> world" where
  "kref_get_device d w = upd_device d (\<lambda>x. x\<lparr>device_kref := device_kref x + 1\<rparr>) w"

definition kref_put_device :: "ptr \<Rightarrow> world \<Rightarrow> world" where
  "kref_put_device d w =
    (let w1 = upd_device d (\<lambda>x. x\<lparr>device_kref := device_kref x - 1\<rparr>) w
     in if device_kref (devices w1 d) = 0 then dxgdevice_release d w1 else w1)"

definition kref_put_context :: "ptr \<Rightarrow> world \<Rightarrow> world" where
  "kref_put_context c w =
    (let w1 = upd_context c (\<lambda>x. x\<lparr>context_kref := context_kref x - 1\<rparr>) w
     in if context_kref (contexts w1 c) = 0 then dxgcontext_release c w1 else w1)"

definition kref_get_resource :: "ptr \<Rightarrow> world \<Rightarrow> world" where
  "kref_get_resource r w = upd_resource r (\<lambda>x. x\<lparr>resource_kref := resource_kref x + 1\<rparr>) w"

definition kref_put_resource :: "ptr \<Rightarrow> world \<Rightarrow> world" where
  "kref_put_resource r w =
    (let w1 = upd_resource r (\<lambda>x. x\<lparr>resource_kref := resource_kref x - 1\<rparr>) w
     in if resource_kref (resources w1 r) = 0 then dxgresource_release r w1 else w1)"

definition kref_put_shared_resource :: "ptr \<Rightarrow> world \<Rightarrow> world" where
  "kref_put_shared_resource s w =
    (let w1 = upd_shared_resource s (\<lambda>x. x\<lparr>sresource_kref := sresource_kref x - 1\<rparr>) w
     in if sresource_kref (shared_resources w1 s) = 0 then dxgsharedresource_destroy s w1
        else w1)"

subsubsection \<open>The handle table\<close>

text \<open>
  Modelled from the spec: the handle table (\<^verbatim>\<open>hmgrtable_*\<close>) is implemented outside
  the sources at hand. The specification describes it as a per-process association of
  ids with objects under a lock of its own, with \<open>assign\<close> (which may fail) and
  \<open>free\<close>. Here a handle is associated with the type tag and the address of its
  object; \<open>assign\<close> fails with \<open>-EINVAL\<close> exactly when the handle is taken, and
  \<open>free\<close> removes an association of the given type, if there is one.
\<close>

definition hmgrtable_lock :: "ptr \<Rightarrow> world \<Rightarrow> world" where
  "hmgrtable_lock p w = emit (Down_write (Handle_table_lock p)) w"

definition hmgrtable_unlock :: "ptr \<Rightarrow> world \<Rightarrow> world" where
  "hmgrtable_unlock p w = emit (Up_write (Handle_table_lock p)) w"

definition hmgrtable_assign_handle ::
  "ptr \<Rightarrow> ptr \<Rightarrow> hmgrentry_type \<Rightarrow> d3dkmthandle \<Rightarrow> world \<Rightarrow> int \<times> world" where
  "hmgrtable_assign_handle p obj t h w =
    (let w1 = emit (Hmgrtable_assign_handle p t h) w
     in case handle_table (processes w p) h of
          Some entry \<Rightarrow> (- EINVAL, w1)
        | None \<Rightarrow>
            (0, upd_process p (\<lambda>x. x\<lparr>handle_table := (handle_table x)(h := Some (t, obj))\<rparr>) w1))"

definition hmgrtable_free_handle :: "ptr \<Rightarrow> hmgrentry_type \<Rightarrow> d3dkmthandle \<Rightarrow> world \<Rightarrow> world" where
  "hmgrtable_free_handle p t h w =
    (let w1 = emit (Hmgrtable_free_handle p t h) w
     in case handle_table (processes w p) h of
          Some (t', obj) \<Rightarrow>
            if t' = t
            then upd_process p (\<lambda>x. x\<lparr>handle_table := (handle_table x)(h := None)\<rparr>) w1
            else w1
        | None \<Rightarrow> w1)"

definition hmgrtable_free_handle_safe ::
  "ptr \<Rightarrow> hmgrentry_type \<Rightarrow> d3dkmthandle \<Rightarrow> world \<Rightarrow> world" where
  "hmgrtable_free_handle_safe p t h w =
    hmgrtable_unlock p (hmgrtable_free_handle p t h (hmgrtable_lock p w))"

text \<open>
  Modelled from the spec: \<^verbatim>\<open>dxgprocess_ht_lock_exclusive_down\<close> and
  \<^verbatim>\<open>dxgprocess_ht_lock_exclusive_up\<close> take and release the lock of the process's
  handle table.
\<close>

definition dxgprocess_ht_lock_exclusive_down :: "ptr \<Rightarrow> world \<Rightarrow> world" where
  "dxgprocess_ht_lock_exclusive_down p w = hmgrtable_lock p w"

definition dxgprocess_ht_lock_exclusive_up :: "ptr \<Rightarrow> world \<Rightarrow> world" where
  "dxgprocess_ht_lock_exclusive_up p w = hmgrtable_unlock p w"

subsubsection \<open>Messages to the host, as the object graph sees them\<close>

text \<open>
  \<^verbatim>\<open>init_message\<close> gets the buffer of a message: a message of at most
  \<^verbatim>\<open>VMBUSMESSAGEONSTACK\<close> (64) bytes lives on the stack, a larger one needs
  \<^verbatim>\<open>vzalloc\<close>, which can fail. The sizes of the messages are declared in a header
  outside the sources at hand, so the model does not know which messages fit the stack
  and lets the script decide for every message. It has the runs of the program and,
  for a message that fits the stack, runs in which \<^verbatim>\<open>init_message\<close> fails and the
  program cannot; what holds for all runs of the model holds for the program. A
  synchronous message is one event, and the script gives the value
  \<^verbatim>\<open>dxgvmb_send_sync_msg\<close> or \<^verbatim>\<open>dxgvmb_send_sync_msg_ntstatus\<close> returns for it.
\<close>

definition init_message :: "world \<Rightarrow> int \<times> world" where
  "init_message w = (case vzalloc w of (ok, w1) \<Rightarrow> (if ok then 0 else - ENOMEM, w1))"

definition send_sync_msg :: "host_command \<Rightarrow> world \<Rightarrow> int \<times> world" where
  "send_sync_msg cmd w = (case host_answer w of (ret, w1) \<Rightarrow> (ret, emit (Host_rpc cmd) w1))"


definition dxgvmb_send_destroy_device :: "ptr \<Rightarrow> ptr \<Rightarrow> d3dkmthandle \<Rightarrow> world \<Rightarrow> int \<times> world" where
  "dxgvmb_send_destroy_device a p h w =
    (case init_message w of
       (ret, w1) \<Rightarrow>
         if ret \<noteq> 0 then (ret, w1)
         else send_sync_msg (DXGK_VMBCOMMAND_DESTROYDEVICE h) w1)"

text \<open>
  \<^verbatim>\<open>dxgvmb_send_destroy_allocation\<close> with the fields of its \<^verbatim>\<open>args\<close>: the device,
  the resource, the allocation handles (\<^verbatim>\<open>alloc_count\<close> of them) and the flag.
\<close>

definition dxgvmb_send_destroy_allocation ::
  "d3dkmthandle \<Rightarrow> d3dkmthandle \<Rightarrow> d3dkmthandle list \<Rightarrow> bool \<Rightarrow> world \<Rightarrow> int \<times> world" where
  "dxgvmb_send_destroy_allocation dev res alloc_handles assume_not_in_use w =
    (case init_message w of
       (ret, w1) \<Rightarrow>
         if ret \<noteq> 0 then (ret, w1)
         else send_sync_msg
           (DXGK_VMBCOMMAND_DESTROYALLOCATION dev res alloc_handles assume_not_in_use) w1)"

subsubsection \<open>Adapter\<close>

definition dxgadapter_release_lock_exclusive :: "ptr \<Rightarrow> world \<Rightarrow> world" where
  "dxgadapter_release_lock_exclusive a w = emit (Up_write (Core_lock a)) w"

definition dxgadapter_acquire_lock_exclusive :: "ptr \<Rightarrow> world \<Rightarrow> int \<times> world" where
  "dxgadapter_acquire_lock_exclusive a w =
    (let w1 = emit (Down_write (Core_lock a)) w
     in if adapter_state (adapters w1 a) \<noteq> DXGADAPTER_STATE_ACTIVE
        then (- ENODEV, dxgadapter_release_lock_exclusive a w1)
        else (0, w1))"

definition dxgadapter_release_lock_shared :: "ptr \<Rightarrow> world \<Rightarrow> world" where
  "dxgadapter_release_lock_shared a w = emit (Up_read (Core_lock a)) w"

definition dxgadapter_acquire_lock_shared :: "ptr \<Rightarrow> world \<Rightarrow> int \<times> world" where
  "dxgadapter_acquire_lock_shared a w =
    (let w1 = emit (Down_read (Core_lock a)) w
     in if adapter_state (adapters w1 a) = DXGADAPTER_STATE_ACTIVE then (0, w1)
        else (- ENODEV, dxgadapter_release_lock_shared a w1))"


subsubsection \<open>Allocation\<close>

text \<open>
  \<^verbatim>\<open>dxg_unmap_iospace\<close> of \<^verbatim>\<open>dxgvmbus.c\<close>; \<open>os_script\<close> gives the value of
  \<^verbatim>\<open>vm_munmap\<close>.
\<close>

definition dxg_unmap_iospace :: "ptr \<Rightarrow> world \<Rightarrow> int \<times> world" where
  "dxg_unmap_iospace x w =
    (if current_mm w then
       (case os_answer (emit (Vm_munmap x) w) of
          (ret, w1) \<Rightarrow>
            if ret \<noteq> 0 then (- ENOTRECOVERABLE, emit (Printk ''vm_munmap failed'') w1)
            else (0, w1))
     else (0, w))"

definition dxgallocation_stop :: "ptr \<Rightarrow> world \<Rightarrow> world" where
  "dxgallocation_stop x w =
    (let w1 = (if pages (allocations w x)
               then upd_allocation x (\<lambda>y. y\<lparr>pages := False\<rparr>)
                      (emit (Vfree (Allocation_pages x)) (emit (Release_pages x) w))
               else w);
         w2 = dxgprocess_ht_lock_exclusive_down (alloc_process (allocations w1 x)) w1;
         w3 = (if cpu_address_mapped (allocations w2 x)
               then upd_allocation x (\<lambda>y. y\<lparr>cpu_address_mapped := False, cpu_address := False\<rparr>)
                      (snd (dxg_unmap_iospace x w2))
               else w2)
     in dxgprocess_ht_lock_exclusive_up (alloc_process (allocations w3 x)) w3)"

definition dxgallocation_free_handle :: "ptr \<Rightarrow> world \<Rightarrow> world" where
  "dxgallocation_free_handle x w =
    (let p = alloc_process (allocations w x);
         w1 = dxgprocess_ht_lock_exclusive_down p w;
         w2 = (if alloc_handle_valid (allocations w1 x)
               then upd_allocation x (\<lambda>y. y\<lparr>alloc_handle_valid := False\<rparr>)
                      (hmgrtable_free_handle p HMGRENTRY_TYPE_DXGALLOCATION
                         (alloc_handle (allocations w1 x)) w1)
               else w1)
     in dxgprocess_ht_lock_exclusive_up p w2)"

definition dxgdevice_remove_alloc :: "ptr \<Rightarrow> ptr \<Rightarrow> world \<Rightarrow> world" where
  "dxgdevice_remove_alloc d x w =
    (if alloc_list_entry (allocations w x)
     then kref_put_device d
            (upd_allocation x (\<lambda>y. y\<lparr>alloc_list_entry := False\<rparr>)
               (upd_device d (\<lambda>y. y\<lparr>alloc_list_head := remove1 x (alloc_list_head y)\<rparr>) w))
     else w)"

definition dxgresource_remove_alloc :: "ptr \<Rightarrow> ptr \<Rightarrow> world \<Rightarrow> world" where
  "dxgresource_remove_alloc r x w =
    (if alloc_list_entry (allocations w x)
     then upd_allocation x (\<lambda>y. y\<lparr>alloc_list_entry := False\<rparr>)
            (upd_resource r
               (\<lambda>y. y\<lparr>resource_alloc_list_head := remove1 x (resource_alloc_list_head y)\<rparr>) w)
     else w)"

text \<open>
  \<^verbatim>\<open>dxgallocation_destroy\<close>. The \<^verbatim>\<open>owner\<close> union holds the resource when
  \<^verbatim>\<open>resource_owner\<close> is set and the device otherwise. Reading the handle of a
  \<^verbatim>\<open>NULL\<close> owner device is a fault.
\<close>

definition dxgallocation_destroy :: "ptr \<Rightarrow> world \<Rightarrow> world" where
  "dxgallocation_destroy x w =
    (let w1 = dxgallocation_stop x w;
         w2 = (if resource_owner (allocations w1 x) then
                 (case owner (allocations w1 x) of
                    Some r \<Rightarrow> dxgresource_remove_alloc r x w1
                  | None \<Rightarrow> upd_allocation x (\<lambda>y. y\<lparr>alloc_list_entry := False\<rparr>) w1)
               else
                 (case owner (allocations w1 x) of
                    Some d \<Rightarrow> dxgdevice_remove_alloc d x w1
                  | None \<Rightarrow> w1));
         w3 = dxgallocation_free_handle x w2;
         w4 = (if alloc_handle (allocations w3 x) \<noteq> 0 \<and> \<not> resource_owner (allocations w3 x) then
                 (case owner (allocations w3 x) of
                    Some d \<Rightarrow>
                      snd (dxgvmb_send_destroy_allocation (device_handle (devices w3 d)) 0
                             [alloc_handle (allocations w3 x)] False w3)
                  | None \<Rightarrow> w3\<lparr>fault := True\<rparr>)
               else w3);
         w5 = (if gpadl_handle (allocations w4 x) \<noteq> 0
               then upd_allocation x (\<lambda>y. y\<lparr>gpadl_handle := 0\<rparr>)
                      (emit (Vmbus_teardown_gpadl (gpadl_handle (allocations w4 x))) w4)
               else w4);
         w6 = (if alloc_priv_drv_data (allocations w5 x)
               then emit (Vfree (Allocation_priv_drv_data x)) w5 else w5);
         w7 = (if cpu_address_mapped (allocations w6 x)
               then emit (Printk ''Alloc IO space is mapped'') w6 else w6)
     in emit (Vfree (Allocation x)) w7)"

subsubsection \<open>Resource\<close>

definition dxgdevice_remove_resource :: "ptr \<Rightarrow> ptr \<Rightarrow> world \<Rightarrow> world" where
  "dxgdevice_remove_resource d r w =
    (if resource_list_entry (resources w r)
     then kref_put_device d
            (upd_resource r (\<lambda>y. y\<lparr>resource_list_entry := False\<rparr>)
               (upd_device d (\<lambda>y. y\<lparr>resource_list_head := remove1 r (resource_list_head y)\<rparr>) w))
     else w)"

definition dxgsharedresource_remove_resource :: "ptr \<Rightarrow> ptr \<Rightarrow> world \<Rightarrow> world" where
  "dxgsharedresource_remove_resource s r w =
    (let a = sresource_adapter (shared_resources w s);
         w1 = emit (Down_write (Shared_resource_list_lock a)) w;
         w2 = (if shared_resource_list_entry (resources w1 r)
               then kref_put_resource r
                      (upd_resource r (\<lambda>y. y\<lparr>shared_owner := None\<rparr>)
                         (kref_put_shared_resource s
                            (upd_resource r (\<lambda>y. y\<lparr>shared_resource_list_entry := False\<rparr>)
                               (upd_shared_resource s
                                  (\<lambda>y. y\<lparr>sresource_list_head := remove1 r (sresource_list_head y)\<rparr>)
                                  w1))))
               else w1)
     in emit (Up_write (Shared_resource_list_lock a)) w2)"

definition dxgresource_free_handle :: "ptr \<Rightarrow> world \<Rightarrow> world" where
  "dxgresource_free_handle r w =
    (let w1 = (if resource_handle_valid (resources w r)
               then upd_resource r (\<lambda>y. y\<lparr>resource_handle_valid := False\<rparr>)
                      (hmgrtable_free_handle_safe
                         (device_process (devices w (resource_device (resources w r))))
                         HMGRENTRY_TYPE_DXGRESOURCE (resource_handle (resources w r)) w)
               else w)
     in fold dxgallocation_free_handle (resource_alloc_list_head (resources w1 r)) w1)"

text \<open>
  \<^verbatim>\<open>dxgresource_destroy\<close>; \<^verbatim>\<open>test_and_set_bit (0, &resource->flags)\<close> reads and
  sets \<open>resource_destroyed\<close>. The walk over the allocations is the safe one: it goes
  through the members the list had when the walk began.
\<close>

definition dxgresource_destroy :: "ptr \<Rightarrow> world \<Rightarrow> world" where
  "dxgresource_destroy r w =
    (let destroyed = resource_destroyed (resources w r);
         w0 = upd_resource r (\<lambda>y. y\<lparr>resource_destroyed := True\<rparr>) w;
         d = resource_device (resources w0 r);
         w5 = (if \<not> destroyed then
                 (let w1 = dxgresource_free_handle r w0;
                      w2 = (if resource_handle (resources w1 r) \<noteq> 0
                            then upd_resource r (\<lambda>y. y\<lparr>resource_handle := 0\<rparr>)
                                   (snd (dxgvmb_send_destroy_allocation
                                      (device_handle (devices w1 d))
                                      (resource_handle (resources w1 r)) [] False w1))
                            else w1);
                      w3 = fold dxgallocation_destroy
                             (resource_alloc_list_head (resources w2 r)) w2;
                      w4 = dxgdevice_remove_resource d r w3
                  in case shared_owner (resources w4 r) of
                       Some s \<Rightarrow>
                         upd_resource r (\<lambda>y. y\<lparr>shared_owner := None\<rparr>)
                           (dxgsharedresource_remove_resource s r w4)
                     | None \<Rightarrow> w4)
               else w0)
     in kref_put_resource r w5)"

subsubsection \<open>Context\<close>

definition dxgdevice_remove_context :: "ptr \<Rightarrow> ptr \<Rightarrow> world \<Rightarrow> world" where
  "dxgdevice_remove_context d c w =
    (if context_list_entry (contexts w c)
     then upd_context c (\<lambda>y. y\<lparr>context_list_entry := False\<rparr>)
            (upd_device d (\<lambda>y. y\<lparr>context_list_head := remove1 c (context_list_head y)\<rparr>) w)
     else w)"

text \<open>
  \<^verbatim>\<open>dxgcontext_destroy\<close>. \<^verbatim>\<open>dxghwqueue_destroy\<close> is a placeholder with an empty
  body, so the walk over the hardware queues does nothing.
\<close>

definition dxgcontext_destroy :: "ptr \<Rightarrow> ptr \<Rightarrow> world \<Rightarrow> world" where
  "dxgcontext_destroy p c w =
    (let w1 = upd_context c (\<lambda>y. y\<lparr>context_object_state := DXGOBJECTSTATE_DESTROYED\<rparr>) w;
         w4 = (case context_device (contexts w1 c) of
                 Some d \<Rightarrow>
                   (let w2 = (if context_handle (contexts w1 c) \<noteq> 0
                              then hmgrtable_free_handle_safe p HMGRENTRY_TYPE_DXGCONTEXT
                                     (context_handle (contexts w1 c)) w1
                              else w1);
                        w3 = dxgdevice_remove_context d c w2
                    in kref_put_device d w3)
               | None \<Rightarrow> w1)
     in kref_put_context c w4)"

subsubsection \<open>Device\<close>

definition dxgdevice_acquire_alloc_list_lock :: "ptr \<Rightarrow> world \<Rightarrow> world" where
  "dxgdevice_acquire_alloc_list_lock d w = emit (Down_write (Alloc_list_lock d)) w"

definition dxgdevice_release_alloc_list_lock :: "ptr \<Rightarrow> world \<Rightarrow> world" where
  "dxgdevice_release_alloc_list_lock d w = emit (Up_write (Alloc_list_lock d)) w"

definition dxgdevice_acquire_context_list_lock :: "ptr \<Rightarrow> world \<Rightarrow> world" where
  "dxgdevice_acquire_context_list_lock d w = emit (Down_write (Context_list_lock d)) w"

definition dxgdevice_release_context_list_lock :: "ptr \<Rightarrow> world \<Rightarrow> world" where
  "dxgdevice_release_context_list_lock d w = emit (Up_write (Context_list_lock d)) w"

text \<open>
  \<^verbatim>\<open>dxgdevice_stop\<close>. \<^verbatim>\<open>dxgpagingqueue_stop\<close> and \<^verbatim>\<open>dxgsyncobject_stop\<close> are
  placeholders with empty bodies, so the two walks under the handle table lock do
  nothing.
\<close>

definition dxgdevice_stop :: "ptr \<Rightarrow> world \<Rightarrow> world" where
  "dxgdevice_stop d w =
    (let w1 = dxgdevice_acquire_alloc_list_lock d w;
         w2 = fold dxgallocation_stop (alloc_list_head (devices w1 d)) w1;
         w3 = dxgdevice_release_alloc_list_lock d w2;
         w4 = hmgrtable_lock (device_process (devices w3 d)) w3
     in hmgrtable_unlock (device_process (devices w4 d)) w4)"

definition dxgprocess_adapter_remove_device :: "ptr \<Rightarrow> world \<Rightarrow> world" where
  "dxgprocess_adapter_remove_device d w =
    (let i = device_adapter_info (devices w d);
         w1 = emit (Mutex_lock (Device_list_mutex i)) w;
         w2 = (if device_list_entry (devices w1 d)
               then upd_device d (\<lambda>y. y\<lparr>device_list_entry := False\<rparr>)
                      (upd_process_adapter i
                         (\<lambda>y. y\<lparr>device_list_head := remove1 d (device_list_head y)\<rparr>) w1)
               else w1)
     in emit (Mutex_unlock (Device_list_mutex i)) w2)"

text \<open>
  The first part of \<^verbatim>\<open>dxgdevice_destroy\<close> for an active device: everything between
  the state check and the comment about the guest handles. The sync objects are taken
  off their list one by one, with the list lock dropped around the (empty)
  \<^verbatim>\<open>dxgsyncobject_destroy\<close>; \<^verbatim>\<open>dxgpagingqueue_destroy\<close> is empty too.
\<close>

fun destroy_syncobjects :: "ptr \<Rightarrow> ptr list \<Rightarrow> world \<Rightarrow> world" where
  "destroy_syncobjects d [] w = w"
| "destroy_syncobjects d (s # ss) w =
    destroy_syncobjects d ss
      (dxgdevice_acquire_alloc_list_lock d
         (dxgdevice_release_alloc_list_lock d
            (upd_device d (\<lambda>y. y\<lparr>syncobj_list_head := ss\<rparr>) w)))"

definition destroy_children :: "ptr \<Rightarrow> ptr \<Rightarrow> world \<Rightarrow> world" where
  "destroy_children the_process d w =
    (let w1 = upd_device d (\<lambda>y. y\<lparr>device_object_state := DXGOBJECTSTATE_DESTROYED\<rparr>) w;
         w2 = dxgdevice_stop d w1;
         w3 = dxgdevice_acquire_alloc_list_lock d w2;
         w4 = destroy_syncobjects d (syncobj_list_head (devices w3 d)) w3;
         w5 = fold dxgallocation_destroy (alloc_list_head (devices w4 d)) w4;
         w6 = fold dxgresource_destroy (resource_list_head (devices w5 d)) w5;
         w7 = dxgdevice_release_alloc_list_lock d w6;
         w8 = dxgdevice_acquire_context_list_lock d w7;
         w9 = fold (dxgcontext_destroy the_process) (context_list_head (devices w8 d)) w8
     in dxgdevice_release_context_list_lock d w9)"

text \<open>
  The second part: the guest handle is freed from the handle table, then the host is
  told, with the device lock dropped around the message. Taking the lock of a
  \<^verbatim>\<open>NULL\<close> adapter is a fault.
\<close>

definition release_handles :: "ptr \<Rightarrow> ptr option \<Rightarrow> ptr \<Rightarrow> world \<Rightarrow> world" where
  "release_handles the_process the_adapter d w =
    (let w1 = hmgrtable_lock the_process w;
         device_handle_v = (if device_handle_valid (devices w1 d)
                            then device_handle (devices w1 d) else 0);
         w2 = (if device_handle_valid (devices w1 d)
               then upd_device d (\<lambda>y. y\<lparr>device_handle_valid := False\<rparr>)
                      (hmgrtable_free_handle the_process HMGRENTRY_TYPE_DXGDEVICE
                         (device_handle (devices w1 d)) w1)
               else w1);
         w3 = hmgrtable_unlock the_process w2
     in if device_handle_v \<noteq> 0 then
          (let w4 = emit (Up_write (Device_lock d)) w3;
               w6 = (case the_adapter of
                       None \<Rightarrow> w4\<lparr>fault := True\<rparr>
                     | Some a \<Rightarrow>
                         (case dxgadapter_acquire_lock_shared a w4 of
                            (ret, w5) \<Rightarrow>
                              if ret = 0
                              then dxgadapter_release_lock_shared a
                                     (snd (dxgvmb_send_destroy_device a the_process device_handle_v w5))
                              else w5))
           in emit (Down_write (Device_lock d)) w6)
        else w3)"

text \<open>
  \<^verbatim>\<open>dxgdevice_destroy\<close>: the state check, the two parts above for an active device,
  and the code behind the \<^verbatim>\<open>cleanup\<close> label, which every call runs.
\<close>

definition dxgdevice_destroy :: "ptr \<Rightarrow> world \<Rightarrow> world" where
  "dxgdevice_destroy d w =
    (let the_process = device_process (devices w d);
         the_adapter = device_adapter (devices w d);
         w1 = emit (Down_write (Device_lock d)) w;
         w2 = (if device_object_state (devices w1 d) \<noteq> DXGOBJECTSTATE_ACTIVE then w1
               else release_handles the_process the_adapter d (destroy_children the_process d w1));
         w3 = (case device_adapter (devices w2 d) of
                 Some a \<Rightarrow> kref_put_adapter a (dxgprocess_adapter_remove_device d w2)
               | None \<Rightarrow> w2);
         w4 = emit (Up_write (Device_lock d)) w3
     in kref_put_device d w4)"

text \<open>
  \<^verbatim>\<open>dxgprocess_adapter_add_device\<close>: the process's binding to the adapter is looked
  up in the list of the process. \<^verbatim>\<open>dxgglobal_acquire_process_adapter_lock\<close> takes
  the global mutex of the bindings.
\<close>

definition dxgprocess_adapter_add_device :: "ptr \<Rightarrow> ptr \<Rightarrow> ptr \<Rightarrow> world \<Rightarrow> int \<times> world" where
  "dxgprocess_adapter_add_device p a d w =
    (let w1 = emit (Mutex_lock Process_adapter_mutex) w
     in case find (\<lambda>i. pa_adapter (process_adapters w1 i) = a)
               (process_adapter_list_head (processes w1 p)) of
          None \<Rightarrow>
            (- EINVAL, emit (Mutex_unlock Process_adapter_mutex)
               (emit (Printk ''failed to find process adapter info'') w1))
        | Some i \<Rightarrow>
            (0, emit (Mutex_unlock Process_adapter_mutex)
              (emit (Mutex_unlock (Device_list_mutex i))
                (upd_device d (\<lambda>y. y\<lparr>device_adapter_info := i, device_list_entry := True\<rparr>)
                  (upd_process_adapter i (\<lambda>y. y\<lparr>device_list_head := device_list_head y @ [d]\<rparr>)
                    (emit (Mutex_lock (Device_list_mutex i)) w1))))))"

text \<open>
  \<^verbatim>\<open>dxgdevice_create\<close>. The address \<open>d\<close> is the one \<^verbatim>\<open>vzalloc\<close> returns when it
  succeeds; the memory is zeroed. The result is the new device or \<^verbatim>\<open>NULL\<close>.
\<close>

definition dxgdevice_create :: "ptr \<Rightarrow> ptr \<Rightarrow> ptr \<Rightarrow> world \<Rightarrow> ptr option \<times> world" where
  "dxgdevice_create a p d w =
    (case vzalloc w of
       (ok, w0) \<Rightarrow>
         if \<not> ok then (None, w0)
         else
           (let w1 = w0\<lparr>devices := (devices w0)(d :=
                  \<lparr>device_kref = 1, device_adapter = Some a, device_process = p,
                   device_adapter_info = 0, device_object_state = DXGOBJECTSTATE_CREATED,
                   device_handle = 0, device_handle_valid = False, context_list_head = [],
                   alloc_list_head = [], resource_list_head = [], pqueue_list_head = [],
                   syncobj_list_head = [], device_list_entry = False\<rparr>)\<rparr>;
                w2 = kref_get_adapter a w1
            in case dxgprocess_adapter_add_device p a d w2 of
                 (ret, w3) \<Rightarrow>
                   if ret < 0 then (None, kref_put_device d w3) else (Some d, w3)))"

definition dxgdevice_add_context :: "ptr \<Rightarrow> ptr \<Rightarrow> world \<Rightarrow> world" where
  "dxgdevice_add_context d c w =
    emit (Up_write (Context_list_lock d))
      (upd_context c (\<lambda>y. y\<lparr>context_list_entry := True\<rparr>)
        (upd_device d (\<lambda>y. y\<lparr>context_list_head := context_list_head y @ [c]\<rparr>)
          (emit (Down_write (Context_list_lock d)) w)))"

definition dxgcontext_create :: "ptr \<Rightarrow> ptr \<Rightarrow> world \<Rightarrow> ptr option \<times> world" where
  "dxgcontext_create d c w =
    (case vzalloc w of
       (ok, w0) \<Rightarrow>
         if \<not> ok then (None, w0)
         else
           (let w1 = w0\<lparr>contexts := (contexts w0)(c :=
                  \<lparr>context_kref = 1, context_device = Some d,
                   context_process = device_process (devices w0 d), context_handle = 0,
                   context_device_handle = device_handle (devices w0 d),
                   context_object_state = DXGOBJECTSTATE_CREATED, hwqueue_list_head = [],
                   context_list_entry = False\<rparr>)\<rparr>;
                w2 = kref_get_device d w1;
                w3 = dxgdevice_add_context d c w2
            in (Some c,
                upd_context c (\<lambda>y. y\<lparr>context_object_state := DXGOBJECTSTATE_ACTIVE\<rparr>) w3)))"

subsubsection \<open>Stopping an adapter\<close>

definition dxgprocess_adapter_stop :: "ptr \<Rightarrow> world \<Rightarrow> world" where
  "dxgprocess_adapter_stop i w =
    emit (Mutex_unlock (Device_list_mutex i))
      (fold dxgdevice_stop (device_list_head (process_adapters w i))
        (emit (Mutex_lock (Device_list_mutex i)) w))"


subsection \<open>Local objects of a batch allocation create\<close>

text \<open>
  \<^verbatim>\<open>process_allocation_handles\<close>, \<^verbatim>\<open>create_existing_sysmem\<close> and
  \<^verbatim>\<open>create_local_allocations\<close> of \<^verbatim>\<open>dxgvmbus.c\<close>: what the driver does with the
  host's answer to the create-allocation message. The answer has the handle of the
  resource and one entry per allocation.
\<close>

record dxgkvmb_command_allocinfo_return =
  allocation :: d3dkmthandle
  air_priv_drv_data_size :: u32
  air_cached :: bool
  allocation_size :: u64

record dxgkvmb_command_createallocation_return =
  car_resource :: d3dkmthandle
  allocation_info :: "dxgkvmb_command_allocinfo_return list"

definition PAGE_SHIFT :: nat where
  "PAGE_SHIFT = 12"

definition copy_to_user :: "user_dest \<Rightarrow> world \<Rightarrow> int \<times> world" where
  "copy_to_user dest w =
    (if dest \<in> set (faulting w) then 1 else 0, emit (Copy_to_user dest) w)"

text \<open>
  The loop of \<^verbatim>\<open>process_allocation_handles\<close> over the allocations and the entries
  of the answer; \<open>ret\<close> is the value of the variable when the loop is entered.
\<close>

fun assign_allocation_handles ::
  "ptr \<Rightarrow> (ptr option \<times> dxgkvmb_command_allocinfo_return) list \<Rightarrow> int \<Rightarrow> world \<Rightarrow> int \<times> world" where
  "assign_allocation_handles p [] ret w = (ret, w)"
| "assign_allocation_handles p ((None, host_alloc) # rest) ret w =
    (case hmgrtable_assign_handle p 0 HMGRENTRY_TYPE_DXGALLOCATION (allocation host_alloc) w of
       (ret1, w1) \<Rightarrow>
         if ret1 < 0 then (ret1, emit (Printk ''failed to assign alloc handle'') w1)
         else (ret1, w1\<lparr>fault := True\<rparr>))"
| "assign_allocation_handles p ((Some x, host_alloc) # rest) ret w =
    (case hmgrtable_assign_handle p x HMGRENTRY_TYPE_DXGALLOCATION (allocation host_alloc) w of
       (ret1, w1) \<Rightarrow>
         if ret1 < 0 then (ret1, emit (Printk ''failed to assign alloc handle'') w1)
         else assign_allocation_handles p rest ret1
                (upd_allocation x
                   (\<lambda>y. y\<lparr>alloc_handle := allocation host_alloc, alloc_handle_valid := True\<rparr>) w1))"

definition process_allocation_handles ::
  "ptr \<Rightarrow> d3dkmt_createallocation \<Rightarrow> dxgkvmb_command_createallocation_return \<Rightarrow>
   ptr option list \<Rightarrow> ptr option \<Rightarrow> world \<Rightarrow> int \<times> world" where
  "process_allocation_handles p args res dxgalloc resource w =
    (let w1 = hmgrtable_lock p w;
         (ret, w2) =
           (if create_resource (ca_flags args) then
              (case resource of
                 None \<Rightarrow>
                   (case hmgrtable_assign_handle p 0 HMGRENTRY_TYPE_DXGRESOURCE (car_resource res) w1 of
                      (r, v) \<Rightarrow>
                        if r < 0 then (r, emit (Printk ''failed to assign resource handle'') v)
                        else (r, v\<lparr>fault := True\<rparr>))
               | Some rp \<Rightarrow>
                   (case hmgrtable_assign_handle p rp HMGRENTRY_TYPE_DXGRESOURCE (car_resource res) w1 of
                      (r, v) \<Rightarrow>
                        if r < 0 then (r, emit (Printk ''failed to assign resource handle'') v)
                        else (r, upd_resource rp
                               (\<lambda>y. y\<lparr>resource_handle := car_resource res,
                                      resource_handle_valid := True\<rparr>) v)))
            else (0, w1));
         (ret', w3) = assign_allocation_handles p
           (take (unat (alloc_count args)) (zip dxgalloc (allocation_info res))) ret w2
     in (ret', hmgrtable_unlock p w3))"

text \<open>
  \<^verbatim>\<open>create_existing_sysmem\<close>. The scripts answer, in this order: \<^verbatim>\<open>init_message\<close>
  and the \<^verbatim>\<open>vzalloc\<close> of the page array (\<open>vzalloc_script\<close>);
  \<^verbatim>\<open>get_user_pages_fast\<close> (0: all pages pinned; positive: fewer; negative: none),
  \<^verbatim>\<open>vmap\<close> (0: mapped) and \<^verbatim>\<open>vmbus_establish_gpadl\<close> (its return value), from
  \<open>os_script\<close>; and the status of the message (\<open>host_script\<close>). The handle of a
  new GPADL is some non-zero value, here made from the address of the allocation.
\<close>

definition set_existing_store ::
  "ptr \<Rightarrow> dxgkvmb_command_allocinfo_return \<Rightarrow> ptr \<Rightarrow> world \<Rightarrow> int \<times> world" where
  "set_existing_store d host_alloc x w =
    (case os_answer (emit (Vmbus_establish_gpadl x) w) of
       (ret1, w1) \<Rightarrow>
         if ret1 \<noteq> 0
         then (- ENOMEM, emit (Vunmap x) (emit (Printk ''establish_gpadl failed'') w1))
         else
           (let w2 = upd_allocation x (\<lambda>y. y\<lparr>gpadl_handle := of_nat x + 1\<rparr>) w1
            in case send_sync_msg
                   (DXGK_VMBCOMMAND_SETEXISTINGSYSMEMSTORE (device_handle (devices w2 d))
                      (allocation host_alloc) (gpadl_handle (allocations w2 x))) w2 of
                 (ret, w3) \<Rightarrow>
                   (ret, emit (Vunmap x)
                      (if ret < 0 then emit (Printk ''failed to set existing store'') w3
                       else w3))))"

definition pin_and_map ::
  "ptr \<Rightarrow> dxgkvmb_command_allocinfo_return \<Rightarrow> ptr \<Rightarrow> world \<Rightarrow> int \<times> world" where
  "pin_and_map d host_alloc x w =
    (case os_answer (emit (Get_user_pages_fast x) w) of
       (pinned, w1) \<Rightarrow>
         if pinned \<noteq> 0 then
           (let w2 = emit (Printk ''get_user_pages_fast failed'') w1;
                w3 = (if 0 < pinned then emit (Release_pages x) w2 else w2)
            in (- ENOMEM,
                upd_allocation x (\<lambda>y. y\<lparr>pages := False\<rparr>)
                  (emit (Vfree (Allocation_pages x)) w3)))
         else
           (case os_answer (emit (Vmap x) w1) of
              (mapped, w2) \<Rightarrow>
                if mapped \<noteq> 0 then (- ENOMEM, emit (Printk ''vmap failed'') w2)
                else set_existing_store d host_alloc x w2))"

definition create_existing_sysmem ::
  "ptr \<Rightarrow> dxgkvmb_command_allocinfo_return \<Rightarrow> ptr \<Rightarrow> world \<Rightarrow> int \<times> world" where
  "create_existing_sysmem d host_alloc x w =
    (case init_message w of
       (ret, w1) \<Rightarrow>
         if ret \<noteq> 0 then (ret, w1)
         else
           (case vzalloc (upd_allocation x (\<lambda>y. y\<lparr>cpu_address := True\<rparr>) w1) of
              (ok, w2) \<Rightarrow>
                if \<not> ok then (- ENOMEM, emit (Printk ''failed to allocate pages'') w2)
                else pin_and_map d host_alloc x
                       (upd_allocation x (\<lambda>y. y\<lparr>pages := True\<rparr>) w2)))"

text \<open>
  The loop of \<^verbatim>\<open>create_local_allocations\<close> that takes over what the host says about
  each allocation; \<open>i\<close> is the index of the first entry of the list. It returns the
  value of \<^verbatim>\<open>ret\<close> and whether the loop ran to its end (otherwise the function goes
  to \<^verbatim>\<open>cleanup\<close>).
\<close>

fun take_over_allocations ::
  "ptr \<Rightarrow> nat \<Rightarrow>
   (ptr option \<times> d3dddi_allocationinfo2 \<times> dxgkvmb_command_allocinfo_return) list \<Rightarrow>
   int \<Rightarrow> world \<Rightarrow> int \<times> bool \<times> world" where
  "take_over_allocations d i [] ret w = (ret, True, w)"
| "take_over_allocations d i ((None, user_alloc, host_alloc) # rest) ret w =
    (ret, False, w\<lparr>fault := True\<rparr>)"
| "take_over_allocations d i ((Some x, user_alloc, host_alloc) # rest) ret w =
    (let w1 = upd_allocation x
                (\<lambda>y. y\<lparr>num_pages := drop_bit PAGE_SHIFT (allocation_size host_alloc)\<rparr>) w;
         (ret1, w2) = (if ai_sysmem user_alloc then create_existing_sysmem d host_alloc x w1
                       else (ret, w1))
     in if ai_sysmem user_alloc \<and> ret1 < 0 then (ret1, False, w2)
        else
          (let w3 = upd_allocation x (\<lambda>y. y\<lparr>cached := air_cached host_alloc\<rparr>) w2;
               (ret2, w4) = (if air_priv_drv_data_size host_alloc \<noteq> 0
                             then copy_to_user (User_priv_drv_data i) w3 else (ret1, w3))
           in if air_priv_drv_data_size host_alloc \<noteq> 0 \<and> ret2 \<noteq> 0
              then (- EINVAL, False, emit (Printk ''failed to copy private data'') w4)
              else
                (case copy_to_user (User_allocation i) w4 of
                   (ret3, w5) \<Rightarrow>
                     if ret3 \<noteq> 0
                     then (- EINVAL, False, emit (Printk ''failed to copy alloc handle'') w5)
                     else take_over_allocations d (i + 1) rest ret3 w5)))"

text \<open>
  The two walks over \<^verbatim>\<open>dxgalloc\<close> behind the \<^verbatim>\<open>cleanup\<close> label; an entry that is
  \<^verbatim>\<open>NULL\<close> is skipped.
\<close>

definition free_local_handles :: "ptr option list \<Rightarrow> world \<Rightarrow> world" where
  "free_local_handles dxgalloc w =
    fold (\<lambda>e v. case e of None \<Rightarrow> v | Some x \<Rightarrow> dxgallocation_free_handle x v) dxgalloc w"

definition destroy_local_allocations :: "ptr option list \<Rightarrow> world \<Rightarrow> world" where
  "destroy_local_allocations dxgalloc w =
    fold (\<lambda>e v. case e of
            None \<Rightarrow> v
          | Some x \<Rightarrow> dxgallocation_destroy x (upd_allocation x (\<lambda>y. y\<lparr>alloc_handle := 0\<rparr>) v))
      dxgalloc w"

text \<open>
  \<^verbatim>\<open>create_local_allocations\<close>. The arrays \<^verbatim>\<open>dxgalloc\<close>, \<^verbatim>\<open>alloc_info\<close> and the
  entries of the answer must have \<^verbatim>\<open>alloc_count\<close> members; a shorter one is a fault.
  The destroy message is prepared in the buffer that \<^verbatim>\<open>init_message\<close> returns; when
  \<^verbatim>\<open>init_message\<close> fails, its channel is \<^verbatim>\<open>NULL\<close> and sending it is a fault.
\<close>

definition create_local_allocations ::
  "ptr \<Rightarrow> ptr \<Rightarrow> d3dkmt_createallocation \<Rightarrow> d3dddi_allocationinfo2 list \<Rightarrow>
   dxgkvmb_command_createallocation_return \<Rightarrow> ptr option \<Rightarrow> ptr option list \<Rightarrow> world \<Rightarrow>
   int \<times> world" where
  "create_local_allocations p d args alloc_info result resource dxgalloc w =
    (let n = unat (alloc_count args);
         arrays = take n (zip dxgalloc (zip alloc_info (allocation_info result)));
         destroy_buf = DXGK_VMBCOMMAND_DESTROYALLOCATION (ca_device args) (ca_resource args)
                         (map allocation (take n (allocation_info result))) True;
         (ret0, v0) = init_message (if length arrays < n then w\<lparr>fault := True\<rparr> else w);
         (ret, v) =
           (if ret0 \<noteq> 0 then (ret0, v0)
            else
              (let (ret1, v1) = (if create_resource (ca_flags args)
                                 then copy_to_user User_resource v0 else (ret0, v0))
               in if create_resource (ca_flags args) \<and> ret1 \<noteq> 0
                  then (- EINVAL, emit (Printk ''failed to copy resource handle'') v1)
                  else
                    (case take_over_allocations d 0 arrays ret1 v1 of
                       (ret2, finished, v2) \<Rightarrow>
                         if \<not> finished then (ret2, v2)
                         else
                           (case process_allocation_handles p args result (take n dxgalloc)
                                   resource v2 of
                              (ret3, v3) \<Rightarrow>
                                if ret3 < 0 then (ret3, v3)
                                else
                                  (case copy_to_user User_global_share v3 of
                                     (ret4, v4) \<Rightarrow>
                                       if ret4 \<noteq> 0
                                       then (- EINVAL,
                                             emit (Printk ''failed to copy global share'') v4)
                                       else (ret4, v4))))))
     in if ret < 0 then
          (let with_resource = (resource \<noteq> None \<and> create_resource (ca_flags args));
               c1 = dxgdevice_acquire_alloc_list_lock d v;
               c2 = free_local_handles (take n dxgalloc) c1;
               c3 = (case resource of
                       Some r \<Rightarrow> if with_resource then dxgresource_free_handle r c2 else c2
                     | None \<Rightarrow> c2);
               c4 = dxgdevice_release_alloc_list_lock d c3;
               (ret1, c5) = (if ret0 \<noteq> 0 then (ret0, c4\<lparr>fault := True\<rparr>)
                             else send_sync_msg destroy_buf c4);
               c6 = (if ret1 < 0 then emit (Printk ''failed to destroy allocations'') c5 else c5);
               c7 = dxgdevice_acquire_alloc_list_lock d c6;
               c8 = destroy_local_allocations (take n dxgalloc) c7;
               c9 = (case resource of
                       Some r \<Rightarrow>
                         if with_resource then dxgresource_destroy r (kref_get_resource r c8)
                         else c8
                     | None \<Rightarrow> c8)
           in (ret, dxgdevice_release_alloc_list_lock d c9))
        else (ret, v))"

subsection \<open>Worlds to run the functions in\<close>

definition blank_world :: world where
  "blank_world = \<lparr>
     adapters = (\<lambda>a. \<lparr>adapter_kref = 1, adapter_state = DXGADAPTER_STATE_ACTIVE,
       stopping_adapter = False, adapter_process_list_head = [], adapter_host_handle = 0,
       channel_packet_cache = True, channel_channel = True\<rparr>),
     processes = (\<lambda>p. \<lparr>handle_table = (\<lambda>h. None), process_host_handle = 0,
       process_adapter_list_head = []\<rparr>),
     process_adapters = (\<lambda>i. \<lparr>pa_adapter = 0, pa_process = 0, pa_refcount = 1,
       device_list_head = []\<rparr>),
     devices = (\<lambda>d. \<lparr>device_kref = 1, device_adapter = None, device_process = 0,
       device_adapter_info = 0, device_object_state = DXGOBJECTSTATE_CREATED,
       device_handle = 0, device_handle_valid = False, context_list_head = [],
       alloc_list_head = [], resource_list_head = [], pqueue_list_head = [],
       syncobj_list_head = [], device_list_entry = False\<rparr>),
     contexts = (\<lambda>c. \<lparr>context_kref = 1, context_device = None, context_process = 0,
       context_handle = 0, context_device_handle = 0,
       context_object_state = DXGOBJECTSTATE_CREATED, hwqueue_list_head = [],
       context_list_entry = False\<rparr>),
     resources = (\<lambda>r. \<lparr>resource_kref = 1, resource_device = 0, resource_process = 0,
       resource_handle = 0, resource_handle_valid = False,
       resource_object_state = DXGOBJECTSTATE_ACTIVE, resource_alloc_list_head = [],
       resource_destroyed = False, shared_owner = None, resource_list_entry = False,
       shared_resource_list_entry = False\<rparr>),
     shared_resources = (\<lambda>s. \<lparr>sresource_kref = 1, sresource_adapter = 0,
       sresource_list_head = []\<rparr>),
     allocations = (\<lambda>x. \<lparr>alloc_process = 0, owner = None, resource_owner = False,
       alloc_handle = 0, alloc_handle_valid = False, alloc_list_entry = False, pages = False,
       num_pages = 0, cpu_address_mapped = False, cpu_address = False, gpadl_handle = 0,
       alloc_priv_drv_data = False, cached = False\<rparr>),
     trace = [], current_mm = True, vzalloc_script = [], host_script = [], os_script = [],
     faulting = [], fault = False\<rparr>"

text \<open>
  Process 1 uses adapter 3 through the binding 8. Device 2 of that process, with the
  handle \<open>0x10\<close>, is active and holds a reference on the adapter; its binding lists it.
\<close>

definition device_world :: world where
  "device_world =
    upd_device 2 (\<lambda>y. y\<lparr>device_kref := 1, device_adapter := Some 3, device_process := 1,
        device_adapter_info := 8, device_object_state := DXGOBJECTSTATE_ACTIVE,
        device_handle := 16, device_handle_valid := True, device_list_entry := True\<rparr>)
      (upd_process_adapter 8 (\<lambda>y. y\<lparr>pa_adapter := 3, pa_process := 1, device_list_head := [2]\<rparr>)
        (upd_process 1 (\<lambda>y. y\<lparr>handle_table := (handle_table y)(16 := Some (HMGRENTRY_TYPE_DXGDEVICE, 2)),
            process_adapter_list_head := [8]\<rparr>)
          (upd_adapter 3 (\<lambda>y. y\<lparr>adapter_kref := 2, adapter_process_list_head := [8]\<rparr>)
            blank_world)))"

text \<open>
  A batch of three allocations 5, 6 and 7 of device 2, just created on the host with the
  handles \<open>0x31\<close>, \<open>0x32\<close> and \<open>0x33\<close>, where the handle \<open>0x32\<close> is taken in the
  handle table of the process (by the object 9).
\<close>

definition new_allocation :: "ptr \<Rightarrow> ptr \<Rightarrow> bool \<Rightarrow> world \<Rightarrow> world" where
  "new_allocation x own by_resource w =
    upd_allocation x (\<lambda>y. y\<lparr>alloc_process := 1, owner := Some own,
      resource_owner := by_resource, alloc_list_entry := True\<rparr>) w"

definition batch3_world :: world where
  "batch3_world =
    new_allocation 5 2 False (new_allocation 6 2 False (new_allocation 7 2 False
      (upd_device 2 (\<lambda>y. y\<lparr>device_kref := 4, alloc_list_head := [5, 6, 7]\<rparr>)
        (upd_process 1
           (\<lambda>y. y\<lparr>handle_table := (handle_table y)(50 := Some (HMGRENTRY_TYPE_DXGALLOCATION, 9))\<rparr>)
           device_world))))"

definition batch3_args :: d3dkmt_createallocation where
  "batch3_args = \<lparr>ca_device = 16, ca_resource = 0, ca_global_share = 0,
     private_runtime_data_size = 0, priv_drv_data_size = 0, alloc_count = 3,
     ca_flags = \<lparr>create_resource = False, standard_allocation = False, read_only = False\<rparr>\<rparr>"

definition host_allocation :: "d3dkmthandle \<Rightarrow> dxgkvmb_command_allocinfo_return" where
  "host_allocation h =
    \<lparr>allocation = h, air_priv_drv_data_size = 0, air_cached = False, allocation_size = 4096\<rparr>"

definition user_allocation :: d3dddi_allocationinfo2 where
  "user_allocation = \<lparr>ai_sysmem = False, ai_priv_drv_data_size = 0\<rparr>"

definition batch3_result :: dxgkvmb_command_createallocation_return where
  "batch3_result = \<lparr>car_resource = 0,
     allocation_info = [host_allocation 49, host_allocation 50, host_allocation 51]\<rparr>"

text \<open>
  A new resource 4 of device 2 with one allocation 5, just created on the host with the
  resource handle \<open>0x21\<close>, which is taken in the handle table of the process (by the
  object 9), and the allocation handle \<open>0x31\<close>, which is free.
\<close>

definition resource_world :: world where
  "resource_world =
    new_allocation 5 4 True
      (upd_resource 4 (\<lambda>y. y\<lparr>resource_device := 2, resource_process := 1,
          resource_alloc_list_head := [5], resource_list_entry := True\<rparr>)
        (upd_device 2 (\<lambda>y. y\<lparr>device_kref := 2, resource_list_head := [4]\<rparr>)
          (upd_process 1
             (\<lambda>y. y\<lparr>handle_table := (handle_table y)(33 := Some (HMGRENTRY_TYPE_DXGRESOURCE, 9))\<rparr>)
             device_world)))"

definition resource_args :: d3dkmt_createallocation where
  "resource_args = \<lparr>ca_device = 16, ca_resource = 0, ca_global_share = 0,
     private_runtime_data_size = 0, priv_drv_data_size = 0, alloc_count = 1,
     ca_flags = \<lparr>create_resource = True, standard_allocation = False, read_only = False\<rparr>\<rparr>"

definition resource_result :: dxgkvmb_command_createallocation_return where
  "resource_result = \<lparr>car_resource = 33, allocation_info = [host_allocation 49]\<rparr>"


text \<open>
  Device 2 with two contexts 6 and 7, which have the handles \<open>0x40\<close> and \<open>0x41\<close>
  and hold a reference on the device each.
\<close>

definition context_world :: world where
  "context_world =
    upd_context 6 (\<lambda>y. y\<lparr>context_device := Some 2, context_process := 1, context_handle := 64,
        context_device_handle := 16, context_object_state := DXGOBJECTSTATE_ACTIVE,
        context_list_entry := True\<rparr>)
      (upd_context 7 (\<lambda>y. y\<lparr>context_device := Some 2, context_process := 1, context_handle := 65,
          context_device_handle := 16, context_object_state := DXGOBJECTSTATE_ACTIVE,
          context_list_entry := True\<rparr>)
        (upd_device 2 (\<lambda>y. y\<lparr>device_kref := 3, context_list_head := [6, 7]\<rparr>)
          (upd_process 1
             (\<lambda>y. y\<lparr>handle_table := (handle_table y)
                (64 := Some (HMGRENTRY_TYPE_DXGCONTEXT, 6), 65 := Some (HMGRENTRY_TYPE_DXGCONTEXT, 7))\<rparr>)
             device_world)))"

text \<open>
  Device 2 with all kinds of children: the two contexts, the allocation 5 of its own,
  and the resource 4 with the allocation 9; the device holds one reference for itself
  and one for each of the four.
\<close>

definition linked_world :: world where
  "linked_world =
    upd_allocation 5 (\<lambda>y. y\<lparr>alloc_process := 1, owner := Some 2, alloc_list_entry := True\<rparr>)
      (upd_allocation 9 (\<lambda>y. y\<lparr>alloc_process := 1, owner := Some 4, resource_owner := True,
          alloc_list_entry := True\<rparr>)
        (upd_resource 4 (\<lambda>y. y\<lparr>resource_device := 2, resource_process := 1,
            resource_alloc_list_head := [9], resource_list_entry := True\<rparr>)
          (upd_device 2 (\<lambda>y. y\<lparr>device_kref := 5, alloc_list_head := [5],
              resource_list_head := [4]\<rparr>)
            context_world)))"

subsection \<open>Properties of the status translation\<close>

lemma case_labels_nth:
  "STATUS_OBJECT_NAME_COLLISION c = case_labels c ! 0"
  "STATUS_NO_MEMORY c = case_labels c ! 1"
  "STATUS_INVALID_PARAMETER c = case_labels c ! 2"
  "STATUS_OBJECT_NAME_INVALID c = case_labels c ! 3"
  "STATUS_OBJECT_NAME_NOT_FOUND c = case_labels c ! 4"
  "STATUS_TIMEOUT c = case_labels c ! 5"
  "STATUS_BUFFER_TOO_SMALL c = case_labels c ! 6"
  "STATUS_DEVICE_REMOVED c = case_labels c ! 7"
  "STATUS_ACCESS_DENIED c = case_labels c ! 8"
  "STATUS_NOT_SUPPORTED c = case_labels c ! 9"
  "STATUS_ILLEGAL_INSTRUCTION c = case_labels c ! 10"
  "STATUS_INVALID_HANDLE c = case_labels c ! 11"
  "STATUS_GRAPHICS_ALLOCATION_BUSY c = case_labels c ! 12"
  "STATUS_OBJECT_TYPE_MISMATCH c = case_labels c ! 13"
  "STATUS_NOT_IMPLEMENTED c = case_labels c ! 14"
  by (simp_all add: case_labels_def)

lemma case_labels_length: "length (case_labels c) = 15"
  by (simp add: case_labels_def)

lemma case_labels_eq_iff:
  assumes "distinct (case_labels c)" and "i < 15" and "j < 15"
  shows "(case_labels c ! i = case_labels c ! j) = (i = j)"
  using assms by (simp add: nth_eq_iff_index_eq case_labels_length)

lemma ntstatus2int_failure:
  assumes labels: "distinct (case_labels c)" and f: "\<not> NT_SUCCESS v"
  shows "v = STATUS_OBJECT_NAME_COLLISION c \<Longrightarrow> ntstatus2int c v = - EEXIST"
    and "v = STATUS_NO_MEMORY c \<Longrightarrow> ntstatus2int c v = - ENOMEM"
    and "v = STATUS_INVALID_PARAMETER c \<Longrightarrow> ntstatus2int c v = - EINVAL"
    and "v = STATUS_OBJECT_NAME_INVALID c \<Longrightarrow> ntstatus2int c v = - ENOENT"
    and "v = STATUS_OBJECT_NAME_NOT_FOUND c \<Longrightarrow> ntstatus2int c v = - ENOENT"
    and "v = STATUS_TIMEOUT c \<Longrightarrow> ntstatus2int c v = - EAGAIN"
    and "v = STATUS_BUFFER_TOO_SMALL c \<Longrightarrow> ntstatus2int c v = - EOVERFLOW"
    and "v = STATUS_DEVICE_REMOVED c \<Longrightarrow> ntstatus2int c v = - ENODEV"
    and "v = STATUS_ACCESS_DENIED c \<Longrightarrow> ntstatus2int c v = - EACCES"
    and "v = STATUS_NOT_SUPPORTED c \<Longrightarrow> ntstatus2int c v = - EPERM"
    and "v = STATUS_NOT_IMPLEMENTED c \<Longrightarrow> ntstatus2int c v = - EPERM"
    and "v = STATUS_ILLEGAL_INSTRUCTION c \<Longrightarrow> ntstatus2int c v = - EOPNOTSUPP"
    and "v = STATUS_INVALID_HANDLE c \<Longrightarrow> ntstatus2int c v = - EBADF"
    and "v = STATUS_GRAPHICS_ALLOCATION_BUSY c \<Longrightarrow> ntstatus2int c v = - EINPROGRESS"
    and "v = STATUS_OBJECT_TYPE_MISMATCH c \<Longrightarrow> ntstatus2int c v = - EPROTOTYPE"
  using f
  by (clarsimp simp: ntstatus2int_def case_labels_nth case_labels_eq_iff [OF labels])+

text \<open>
  Claim C7. A success status is returned unchanged (and is non-negative); a failure
  status is translated by the table: name collision to \<open>EEXIST\<close>, no memory to
  \<open>ENOMEM\<close>, invalid parameter to \<open>EINVAL\<close>, name invalid or not found to
  \<open>ENOENT\<close>, timeout to \<open>EAGAIN\<close>, buffer too small to \<open>EOVERFLOW\<close>, device
  removed to \<open>ENODEV\<close>, access denied to \<open>EACCES\<close>, not supported and not implemented
  to \<open>EPERM\<close>, illegal instruction to \<open>EOPNOTSUPP\<close>, invalid handle to \<open>EBADF\<close>,
  allocation busy to \<open>EINPROGRESS\<close>, type mismatch to \<open>EPROTOTYPE\<close>, and every other
  failure status to \<open>EINVAL\<close>.
\<close>

theorem ntstatus2int_table:
  assumes labels: "distinct (case_labels c)"
  shows "(NT_SUCCESS v \<longrightarrow> ntstatus2int c v = v \<and> 0 \<le> ntstatus2int c v) \<and>
    (\<not> NT_SUCCESS v \<longrightarrow>
      (v = STATUS_OBJECT_NAME_COLLISION c \<longrightarrow> ntstatus2int c v = - EEXIST) \<and>
      (v = STATUS_NO_MEMORY c \<longrightarrow> ntstatus2int c v = - ENOMEM) \<and>
      (v = STATUS_INVALID_PARAMETER c \<longrightarrow> ntstatus2int c v = - EINVAL) \<and>
      (v = STATUS_OBJECT_NAME_INVALID c \<longrightarrow> ntstatus2int c v = - ENOENT) \<and>
      (v = STATUS_OBJECT_NAME_NOT_FOUND c \<longrightarrow> ntstatus2int c v = - ENOENT) \<and>
      (v = STATUS_TIMEOUT c \<longrightarrow> ntstatus2int c v = - EAGAIN) \<and>
      (v = STATUS_BUFFER_TOO_SMALL c \<longrightarrow> ntstatus2int c v = - EOVERFLOW) \<and>
      (v = STATUS_DEVICE_REMOVED c \<longrightarrow> ntstatus2int c v = - ENODEV) \<and>
      (v = STATUS_ACCESS_DENIED c \<longrightarrow> ntstatus2int c v = - EACCES) \<and>
      (v = STATUS_NOT_SUPPORTED c \<longrightarrow> ntstatus2int c v = - EPERM) \<and>
      (v = STATUS_NOT_IMPLEMENTED c \<longrightarrow> ntstatus2int c v = - EPERM) \<and>
      (v = STATUS_ILLEGAL_INSTRUCTION c \<longrightarrow> ntstatus2int c v = - EOPNOTSUPP) \<and>
      (v = STATUS_INVALID_HANDLE c \<longrightarrow> ntstatus2int c v = - EBADF) \<and>
      (v = STATUS_GRAPHICS_ALLOCATION_BUSY c \<longrightarrow> ntstatus2int c v = - EINPROGRESS) \<and>
      (v = STATUS_OBJECT_TYPE_MISMATCH c \<longrightarrow> ntstatus2int c v = - EPROTOTYPE) \<and>
      (v \<notin> set (case_labels c) \<longrightarrow> ntstatus2int c v = - EINVAL))"
proof (cases "NT_SUCCESS v")
  case True
  then show ?thesis
    by (simp add: ntstatus2int_def NT_SUCCESS_def)
next
  case False
  have other: "v \<notin> set (case_labels c) \<longrightarrow> ntstatus2int c v = - EINVAL"
    using False by (simp add: ntstatus2int_def case_labels_def)
  show ?thesis
    using False other ntstatus2int_failure [OF labels False] by blast
qed

theorem ntstatus2int_table_witness:
  "distinct (case_labels nt_codes) \<and>
   NT_SUCCESS 258 \<and> ntstatus2int nt_codes 258 = 258 \<and>
   \<not> NT_SUCCESS (- 1073741771) \<and> ntstatus2int nt_codes (- 1073741771) = - EEXIST \<and>
   \<not> NT_SUCCESS (- 1073741637) \<and> ntstatus2int nt_codes (- 1073741637) = - EPERM \<and>
   \<not> NT_SUCCESS (- 5) \<and> - 5 \<notin> set (case_labels nt_codes) \<and>
   ntstatus2int nt_codes (- 5) = - EINVAL"
proof -
  have d: "distinct (case_labels nt_codes)"
    by (simp add: case_labels_def nt_codes_def)
  have l: "- 5 \<notin> set (case_labels nt_codes)"
    by (simp add: case_labels_def nt_codes_def)
  show ?thesis
    using d l ntstatus2int_table [OF d, of 258]
      ntstatus2int_table [OF d, of "- 1073741771"]
      ntstatus2int_table [OF d, of "- 1073741637"]
      ntstatus2int_table [OF d, of "- 5"]
    by (simp add: NT_SUCCESS_def nt_codes_def)
qed

subsection \<open>Properties of \<^verbatim>\<open>wcsncpy\<close>\<close>

text \<open>The loop when the first null of the source, from \<open>i\<close> on, is at \<open>k\<close>.\<close>

lemma wcsncpy_loop_null:
  assumes "i \<le> k" and "k < n" and "k < length src" and "k < length dest"
    and "k < INT_MAX" and "src ! k = 0" and "\<forall>j. i \<le> j \<and> j < k \<longrightarrow> src ! j \<noteq> 0"
  shows "\<exists>d. wcsncpy_loop dest src n i = Some (d, k + 1) \<and> length d = length dest \<and>
    (\<forall>j < length dest. d ! j = (if i \<le> j \<and> j \<le> k then src ! j else dest ! j))"
  using assms
proof (induction dest src n i rule: wcsncpy_loop.induct)
  case (1 dest src n i)
  show ?case
  proof (cases "i = k")
    case True
    with "1.prems" show ?thesis
      by (subst wcsncpy_loop.simps) (auto simp: nth_list_update)
  next
    case False
    with "1.prems" have lt: "i < k" and nz: "src ! i \<noteq> 0"
      by auto
    from lt "1.prems" have guard: "i < n" "\<not> (length src \<le> i \<or> length dest \<le> i \<or> INT_MAX \<le> i)"
      by auto
    from "1.prems" lt have
      "\<exists>d. wcsncpy_loop (dest[i := src ! i]) src n (i + 1) = Some (d, k + 1) \<and>
         length d = length (dest[i := src ! i]) \<and>
         (\<forall>j < length (dest[i := src ! i]).
            d ! j = (if i + 1 \<le> j \<and> j \<le> k then src ! j else dest[i := src ! i] ! j))"
      by (intro "1.IH" guard nz) auto
    then obtain d where d: "wcsncpy_loop (dest[i := src ! i]) src n (i + 1) = Some (d, k + 1)"
      "length d = length dest"
      "\<forall>j < length dest. d ! j = (if i + 1 \<le> j \<and> j \<le> k then src ! j else dest[i := src ! i] ! j)"
      by auto
    have "wcsncpy_loop dest src n i = Some (d, k + 1)"
      using guard nz d(1) by (subst wcsncpy_loop.simps) simp
    moreover have "\<forall>j < length dest. d ! j = (if i \<le> j \<and> j \<le> k then src ! j else dest ! j)"
    proof (intro allI impI)
      fix j assume j: "j < length dest"
      with d(3) have dj: "d ! j =
          (if i + 1 \<le> j \<and> j \<le> k then src ! j else dest[i := src ! i] ! j)"
        by blast
      show "d ! j = (if i \<le> j \<and> j \<le> k then src ! j else dest ! j)"
      proof (cases "j = i")
        case True
        then show ?thesis using dj j lt by simp
      next
        case False
        then show ?thesis using dj j by auto
      qed
    qed
    ultimately show ?thesis
      using d(2) by blast
  qed
qed

text \<open>The loop when the source has no null from \<open>i\<close> up to \<open>n\<close>.\<close>

lemma wcsncpy_loop_full:
  assumes "i \<le> n" and "n \<le> length src" and "n \<le> length dest" and "n \<le> INT_MAX"
    and "\<forall>j. i \<le> j \<and> j < n \<longrightarrow> src ! j \<noteq> 0"
  shows "\<exists>d. wcsncpy_loop dest src n i = Some (d, n) \<and> length d = length dest \<and>
    (\<forall>j < length dest. d ! j = (if i \<le> j \<and> j < n then src ! j else dest ! j))"
  using assms
proof (induction dest src n i rule: wcsncpy_loop.induct)
  case (1 dest src n i)
  show ?case
  proof (cases "i = n")
    case True
    then show ?thesis
      by (subst wcsncpy_loop.simps) auto
  next
    case False
    with "1.prems" have lt: "i < n" and nz: "src ! i \<noteq> 0"
      by auto
    from lt "1.prems" have guard: "i < n" "\<not> (length src \<le> i \<or> length dest \<le> i \<or> INT_MAX \<le> i)"
      by auto
    from "1.prems" lt have
      "\<exists>d. wcsncpy_loop (dest[i := src ! i]) src n (i + 1) = Some (d, n) \<and>
         length d = length (dest[i := src ! i]) \<and>
         (\<forall>j < length (dest[i := src ! i]).
            d ! j = (if i + 1 \<le> j \<and> j < n then src ! j else dest[i := src ! i] ! j))"
      by (intro "1.IH" guard nz) auto
    then obtain d where d: "wcsncpy_loop (dest[i := src ! i]) src n (i + 1) = Some (d, n)"
      "length d = length dest"
      "\<forall>j < length dest. d ! j = (if i + 1 \<le> j \<and> j < n then src ! j else dest[i := src ! i] ! j)"
      by auto
    have "wcsncpy_loop dest src n i = Some (d, n)"
      using guard nz d(1) by (subst wcsncpy_loop.simps) simp
    moreover have "\<forall>j < length dest. d ! j = (if i \<le> j \<and> j < n then src ! j else dest ! j)"
    proof (intro allI impI)
      fix j assume j: "j < length dest"
      with d(3) have dj: "d ! j =
          (if i + 1 \<le> j \<and> j < n then src ! j else dest[i := src ! i] ! j)"
        by blast
      show "d ! j = (if i \<le> j \<and> j < n then src ! j else dest ! j)"
      proof (cases "j = i")
        case True
        then show ?thesis using dj j lt by simp
      next
        case False
        then show ?thesis using dj j by auto
      qed
    qed
    ultimately show ?thesis
      using d(2) by blast
  qed
qed

lemma wcsncpy_null:
  assumes "k < n" and "n \<le> length dest" and "n \<le> INT_MAX" and "k < length src"
    and "src ! k = 0" and "\<forall>j < k. src ! j \<noteq> 0"
  shows "\<exists>d. wcsncpy dest src n = Some d \<and> length d = length dest \<and> d ! k = 0 \<and>
    take (k + 1) d = take (k + 1) src \<and> drop (k + 1) d = drop (k + 1) dest"
proof -
  from assms have "\<exists>d. wcsncpy_loop dest src n 0 = Some (d, k + 1) \<and> length d = length dest \<and>
    (\<forall>j < length dest. d ! j = (if 0 \<le> j \<and> j \<le> k then src ! j else dest ! j))"
    by (intro wcsncpy_loop_null) auto
  then obtain d where d: "wcsncpy_loop dest src n 0 = Some (d, k + 1)" "length d = length dest"
    "\<forall>j < length dest. d ! j = (if j \<le> k then src ! j else dest ! j)"
    by auto
  let ?r = "d[k := 0]"
  have r: "wcsncpy dest src n = Some ?r"
    using d(1,2) assms(1,2) by (simp add: wcsncpy_def)
  have nth: "\<forall>j < length dest. ?r ! j = (if j \<le> k then src ! j else dest ! j)"
  proof (intro allI impI)
    fix j assume j: "j < length dest"
    show "?r ! j = (if j \<le> k then src ! j else dest ! j)"
    proof (cases "j = k")
      case True
      then show ?thesis using j d(2) assms(5) by simp
    next
      case False
      then show ?thesis using j d(2,3) by simp
    qed
  qed
  have "take (k + 1) ?r = take (k + 1) src"
    using nth d(2) assms(1,2,4) by (intro nth_equalityI) auto
  moreover have "drop (k + 1) ?r = drop (k + 1) dest"
  proof (intro nth_equalityI)
    show "length (drop (k + 1) ?r) = length (drop (k + 1) dest)"
      using d(2) by simp
  next
    fix j assume "j < length (drop (k + 1) ?r)"
    then have j: "k + 1 + j < length dest"
      using d(2) by simp
    with nth have "?r ! (k + 1 + j) =
        (if k + 1 + j \<le> k then src ! (k + 1 + j) else dest ! (k + 1 + j))"
      by blast
    then have "?r ! (k + 1 + j) = dest ! (k + 1 + j)"
      by simp
    with j d(2) show "drop (k + 1) ?r ! j = drop (k + 1) dest ! j"
      by simp
  qed
  moreover have "?r ! k = 0"
    using d(2) assms(1,2) by simp
  ultimately show ?thesis
    using r d(2) by simp
qed

lemma wcsncpy_full:
  assumes "1 \<le> n" and "n \<le> length dest" and "n \<le> INT_MAX" and "n \<le> length src"
    and "\<forall>j < n. src ! j \<noteq> 0"
  shows "\<exists>d. wcsncpy dest src n = Some d \<and> length d = length dest \<and> d ! (n - 1) = 0 \<and>
    take n d = take (n - 1) src @ [0] \<and> drop n d = drop n dest"
proof -
  from assms have "\<exists>d. wcsncpy_loop dest src n 0 = Some (d, n) \<and> length d = length dest \<and>
    (\<forall>j < length dest. d ! j = (if 0 \<le> j \<and> j < n then src ! j else dest ! j))"
    by (intro wcsncpy_loop_full) auto
  then obtain d where d: "wcsncpy_loop dest src n 0 = Some (d, n)" "length d = length dest"
    "\<forall>j < length dest. d ! j = (if j < n then src ! j else dest ! j)"
    by auto
  let ?r = "d[n - 1 := 0]"
  have r: "wcsncpy dest src n = Some ?r"
    using d(1,2) assms(1,2) by (simp add: wcsncpy_def)
  have nth: "\<forall>j < length dest. ?r ! j = (if j = n - 1 then 0 else if j < n then src ! j else dest ! j)"
  proof (intro allI impI)
    fix j assume j: "j < length dest"
    show "?r ! j = (if j = n - 1 then 0 else if j < n then src ! j else dest ! j)"
    proof (cases "j = n - 1")
      case True
      then show ?thesis using j d(2) by simp
    next
      case False
      then show ?thesis using j d(2,3) by simp
    qed
  qed
  have "take n ?r = take (n - 1) src @ [0]"
    using nth d(2) assms(1,2,4) by (intro nth_equalityI) (auto simp: nth_append)
  moreover have "drop n ?r = drop n dest"
  proof (intro nth_equalityI)
    show "length (drop n ?r) = length (drop n dest)"
      using d(2) by simp
  next
    fix j assume "j < length (drop n ?r)"
    then have j: "n + j < length dest"
      using d(2) by simp
    with nth have "?r ! (n + j) =
        (if n + j = n - 1 then 0 else if n + j < n then src ! (n + j) else dest ! (n + j))"
      by blast
    moreover have "n + j \<noteq> n - 1" and "\<not> n + j < n"
      using assms(1) by auto
    ultimately have "?r ! (n + j) = dest ! (n + j)"
      by simp
    with j d(2) show "drop n ?r ! j = drop n dest ! j"
      by simp
  qed
  moreover have "?r ! (n - 1) = 0"
    using d(2) assms(1,2) by simp
  ultimately show ?thesis
    using r d(2) by simp
qed

text \<open>
  Claim C10. For a count \<open>n \<ge> 1\<close> within the destination (and within the range of the
  \<^verbatim>\<open>int\<close> counter), and a source that is readable as far as the loop reads it,
  \<^verbatim>\<open>wcsncpy\<close> returns with the destination null-terminated within its first \<open>n\<close>
  elements. If the source has a null among its first \<open>n\<close> elements, the destination
  equals the source up to and including the first null, and is unchanged behind it;
  otherwise the destination holds the first \<open>n - 1\<close> source elements and a null at
  index \<open>n - 1\<close>, and is unchanged from index \<open>n\<close> on.
\<close>

theorem wcsncpy_null_terminated:
  assumes n: "1 \<le> n" and dest: "n \<le> length dest" and int: "n \<le> INT_MAX"
    and readable: "(\<exists>k < n. k < length src \<and> src ! k = 0) \<or> n \<le> length src"
  shows "\<exists>d. wcsncpy dest src n = Some d \<and> length d = length dest \<and>
    (\<exists>k < n. d ! k = 0) \<and>
    (\<forall>k. k < n \<and> k < length src \<and> src ! k = 0 \<and> (\<forall>j < k. src ! j \<noteq> 0) \<longrightarrow>
       take (k + 1) d = take (k + 1) src \<and> drop (k + 1) d = drop (k + 1) dest) \<and>
    ((\<forall>k < n. src ! k \<noteq> 0) \<longrightarrow>
       take n d = take (n - 1) src @ [0] \<and> drop n d = drop n dest)"
proof (cases "\<exists>k < n. k < length src \<and> src ! k = 0")
  case True
  define k0 where "k0 = (LEAST k. k < n \<and> k < length src \<and> src ! k = 0)"
  from True have k0: "k0 < n \<and> k0 < length src \<and> src ! k0 = 0"
    unfolding k0_def by (rule LeastI_ex)
  have least: "\<forall>j < k0. src ! j \<noteq> 0"
  proof (intro allI impI)
    fix j assume "j < k0"
    then have "\<not> (j < n \<and> j < length src \<and> src ! j = 0)"
      unfolding k0_def by (rule not_less_Least)
    with \<open>j < k0\<close> k0 show "src ! j \<noteq> 0"
      by auto
  qed
  from k0 least dest int obtain d where d: "wcsncpy dest src n = Some d"
    "length d = length dest" "d ! k0 = 0"
    "take (k0 + 1) d = take (k0 + 1) src" "drop (k0 + 1) d = drop (k0 + 1) dest"
    using wcsncpy_null [of k0 n dest src] by auto
  have "k = k0" if "k < n \<and> k < length src \<and> src ! k = 0 \<and> (\<forall>j < k. src ! j \<noteq> 0)" for k
    using that k0 least by (meson linorder_neqE_nat)
  with d k0 show ?thesis
    by auto
next
  case False
  with readable have len: "n \<le> length src" and nz: "\<forall>j < n. src ! j \<noteq> 0"
    by auto
  from n dest int len nz obtain d where d: "wcsncpy dest src n = Some d"
    "length d = length dest" "d ! (n - 1) = 0"
    "take n d = take (n - 1) src @ [0]" "drop n d = drop n dest"
    using wcsncpy_full [of n dest src] by auto
  have "\<exists>k < n. d ! k = 0"
    using d(3) n by (intro exI [of _ "n - 1"]) auto
  with d False len show ?thesis
    by auto
qed

theorem wcsncpy_null_terminated_witness:
  "(1::nat) \<le> 3 \<and> 3 \<le> length [7, 7, 7, 7 :: u16] \<and> 3 \<le> INT_MAX \<and>
   (\<exists>k < 3. k < length [65, 0, 66, 67 :: u16] \<and> [65, 0, 66, 67 :: u16] ! k = 0) \<and>
   wcsncpy [7, 7, 7, 7] [65, 0, 66, 67] 3 = Some [65, 0, 7, 7] \<and>
   wcsncpy [7, 7, 7, 7] [65, 66, 67, 68] 3 = Some [65, 66, 0, 7] \<and>
   (\<exists>d. wcsncpy [7, 7, 7, 7] [65, 0, 66, 67] 3 = Some d \<and> (\<exists>k < 3. d ! k = 0))"
proof -
  have ex: "\<exists>k < 3. k < length [65, 0, 66, 67 :: u16] \<and> [65, 0, 66, 67 :: u16] ! k = 0"
    by (intro exI [of _ 1]) simp
  have run1: "wcsncpy [7, 7, 7, 7] [65, 0, 66, 67] 3 = Some [65, 0, 7, 7]"
    by (simp add: wcsncpy_def wcsncpy_loop.simps INT_MAX_def)
  have run2: "wcsncpy [7, 7, 7, 7] [65, 66, 67, 68] 3 = Some [65, 66, 0, 7]"
    by (simp add: wcsncpy_def wcsncpy_loop.simps INT_MAX_def)
  have "\<exists>d. wcsncpy [7, 7, 7, 7] [65, 0, 66, 67] 3 = Some d \<and> (\<exists>k < 3. d ! k = 0)"
    using wcsncpy_null_terminated [of 3 "[7, 7, 7, 7]" "[65, 0, 66, 67]"] ex
    by (simp add: INT_MAX_def) blast
  with ex run1 run2 show ?thesis
    by (simp add: INT_MAX_def)
qed

subsection \<open>The asynchronous send retries a bounded number of times\<close>

lemma dxgvmb_send_async_loop_ring_full:
  assumes "\<forall>k. transport k = - EAGAIN" and "try_count < 5000"
  shows "dxgvmb_send_async_loop transport try_count evs =
    (- EAGAIN, 5000, evs @ concat (replicate (5000 - try_count) attempt_and_sleep))"
  using assms
proof (induction transport try_count evs rule: dxgvmb_send_async_loop.induct)
  case (1 transport try_count evs)
  show ?case
  proof (cases "try_count + 1 < 5000")
    case True
    then have "5000 - try_count = Suc (5000 - (try_count + 1))"
      by simp
    moreover have "dxgvmb_send_async_loop transport (try_count + 1)
        ((evs @ [Sendpacket]) @ [Usleep_range 1000 2000]) =
        (- EAGAIN, 5000, ((evs @ [Sendpacket]) @ [Usleep_range 1000 2000]) @
          concat (replicate (5000 - (try_count + 1)) attempt_and_sleep))"
      using True "1.prems" by (intro "1.IH") auto
    ultimately show ?thesis
      using True "1.prems" by (subst dxgvmb_send_async_loop.simps) simp
  next
    case False
    with "1.prems" have "try_count = 4999"
      by simp
    with "1.prems" show ?thesis
      by (subst dxgvmb_send_async_loop.simps) simp
  qed
qed

lemma dxgvmb_send_async_loop_stops:
  assumes "\<forall>j. try_count \<le> j \<and> j < n \<longrightarrow> transport j = - EAGAIN"
    and "transport n \<noteq> - EAGAIN" and "try_count \<le> n" and "n < 5000"
  shows "dxgvmb_send_async_loop transport try_count evs =
    (transport n, n, evs @ concat (replicate (n - try_count) attempt_and_sleep) @ [Sendpacket])"
  using assms
proof (induction transport try_count evs rule: dxgvmb_send_async_loop.induct)
  case (1 transport try_count evs)
  show ?case
  proof (cases "try_count = n")
    case True
    with "1.prems" show ?thesis
      by (subst dxgvmb_send_async_loop.simps) simp
  next
    case False
    with "1.prems" have lt: "try_count < n" and again: "transport try_count = - EAGAIN"
      by auto
    from lt "1.prems" have more: "try_count + 1 < 5000"
      by simp
    from lt have "n - try_count = Suc (n - (try_count + 1))"
      by simp
    moreover have "dxgvmb_send_async_loop transport (try_count + 1)
        ((evs @ [Sendpacket]) @ [Usleep_range 1000 2000]) =
        (transport n, n, ((evs @ [Sendpacket]) @ [Usleep_range 1000 2000]) @
          concat (replicate (n - (try_count + 1)) attempt_and_sleep) @ [Sendpacket])"
      using lt more again "1.prems" by (intro "1.IH") auto
    ultimately show ?thesis
      using more again by (subst dxgvmb_send_async_loop.simps) simp
  qed
qed

text \<open>
  Claim C8. On the global channel, with a command within the size ceiling: if the
  transport answers \<open>-EAGAIN\<close> (ring full) to every attempt, the asynchronous send makes
  exactly 5000 attempts, sleeps 1000 to 2000 microseconds after each, and returns
  \<open>-EAGAIN\<close>; and if the first answer other than \<open>-EAGAIN\<close> comes at attempt \<open>n\<close>
  (counted from 0, below 5000), it returns that answer right after that attempt, having
  slept only after the \<open>n\<close> attempts before it.
\<close>

theorem dxgvmb_send_async_msg_bounded_retry:
  assumes size: "unat cmd_size \<le> DXG_MAX_VM_BUS_PACKET_SIZE K"
    and global: "adapter channel = None"
  shows "((\<forall>k. transport k = - EAGAIN) \<longrightarrow>
      dxgvmb_send_async_msg K channel cmd_size transport =
        (- EAGAIN, concat (replicate 5000 attempt_and_sleep))) \<and>
    (\<forall>n. n < 5000 \<and> (\<forall>j < n. transport j = - EAGAIN) \<and> transport n \<noteq> - EAGAIN \<longrightarrow>
      dxgvmb_send_async_msg K channel cmd_size transport =
        (transport n, concat (replicate n attempt_and_sleep) @ [Sendpacket]))"
proof (intro conjI allI impI)
  assume "\<forall>k. transport k = - EAGAIN"
  then have "dxgvmb_send_async_loop transport 0 [] =
      (- EAGAIN, 5000, [] @ concat (replicate (5000 - 0) attempt_and_sleep))"
    by (intro dxgvmb_send_async_loop_ring_full) auto
  with size global show "dxgvmb_send_async_msg K channel cmd_size transport =
      (- EAGAIN, concat (replicate 5000 attempt_and_sleep))"
    by (simp add: dxgvmb_send_async_msg_def)
next
  fix n
  assume n: "n < 5000 \<and> (\<forall>j < n. transport j = - EAGAIN) \<and> transport n \<noteq> - EAGAIN"
  then have "dxgvmb_send_async_loop transport 0 [] =
      (transport n, n, [] @ concat (replicate (n - 0) attempt_and_sleep) @ [Sendpacket])"
    by (intro dxgvmb_send_async_loop_stops) auto
  with size global show "dxgvmb_send_async_msg K channel cmd_size transport =
      (transport n, concat (replicate n attempt_and_sleep) @ [Sendpacket])"
    by (simp add: dxgvmb_send_async_msg_def)
qed

theorem dxgvmb_send_async_msg_bounded_retry_witness:
  "unat (64 :: u32) \<le> DXG_MAX_VM_BUS_PACKET_SIZE header_128k \<and>
   adapter (dxgvmbuschannel_init None) = None \<and>
   fst (dxgvmb_send_async_msg header_128k (dxgvmbuschannel_init None) 64 (\<lambda>k. - EAGAIN)) = - EAGAIN \<and>
   length (snd (dxgvmb_send_async_msg header_128k (dxgvmbuschannel_init None) 64 (\<lambda>k. - EAGAIN))) = 10000 \<and>
   dxgvmb_send_async_msg header_128k (dxgvmbuschannel_init None) 64 (\<lambda>k. if k < 2 then - EAGAIN else 0) =
     (0, [Sendpacket, Usleep_range 1000 2000, Sendpacket, Usleep_range 1000 2000, Sendpacket])"
proof -
  have size: "unat (64 :: u32) \<le> DXG_MAX_VM_BUS_PACKET_SIZE header_128k"
    by (simp add: header_128k_def)
  have global: "adapter (dxgvmbuschannel_init None) = None"
    by (simp add: dxgvmbuschannel_init_def)
  note retry = dxgvmb_send_async_msg_bounded_retry [OF size global]
  have full: "dxgvmb_send_async_msg header_128k (dxgvmbuschannel_init None) 64 (\<lambda>k. - EAGAIN) =
      (- EAGAIN, concat (replicate 5000 attempt_and_sleep))"
    using retry [of "\<lambda>k. - EAGAIN"] by blast
  have len: "length (concat (replicate 5000 attempt_and_sleep)) = 10000"
    by (simp add: length_concat sum_list_replicate)
  have stops: "\<forall>n. n < 5000 \<and> (\<forall>j < n. (if j < 2 then - EAGAIN else 0) = - EAGAIN) \<and>
      (if n < 2 then - EAGAIN else 0) \<noteq> - EAGAIN \<longrightarrow>
      dxgvmb_send_async_msg header_128k (dxgvmbuschannel_init None) 64
        (\<lambda>k. if k < 2 then - EAGAIN else 0) =
      (if n < 2 then - EAGAIN else 0, concat (replicate n attempt_and_sleep) @ [Sendpacket])"
    using retry [of "\<lambda>k. if k < 2 then - EAGAIN else 0"] by (rule conjunct2)
  have pre: "(2::nat) < 5000 \<and> (\<forall>j < 2. (if j < (2::nat) then - EAGAIN else 0) = - EAGAIN) \<and>
      (if (2::nat) < 2 then - EAGAIN else 0) \<noteq> - EAGAIN"
    by (simp add: EAGAIN_def)
  have stop: "dxgvmb_send_async_msg header_128k (dxgvmbuschannel_init None) 64
      (\<lambda>k. if k < 2 then - EAGAIN else 0) =
      (0, [Sendpacket, Usleep_range 1000 2000, Sendpacket, Usleep_range 1000 2000, Sendpacket])"
    using stops [THEN spec, of 2, THEN mp, OF pre] by (simp add: numeral_2_eq_2)
  with size global full len stop show ?thesis
    by (simp only: fst_conv snd_conv simp_thms)
qed

subsection \<open>Completions are matched to requests by request id\<close>

lemma list_del_request_no_match:
  "t \<notin> request_id ` set l \<Longrightarrow> list_del_request t l = (None, l)"
  by (induction l) auto

lemma list_del_request_match:
  assumes "distinct (map request_id l)" and "p \<in> set l"
  shows "list_del_request (request_id p) l =
    (Some p, filter (\<lambda>q. request_id q \<noteq> request_id p) l)"
  using assms
proof (induction l)
  case Nil
  then show ?case by simp
next
  case (Cons e es)
  show ?case
  proof (cases "p = e")
    case True
    from Cons.prems have "request_id e \<notin> request_id ` set es"
      by simp
    then have "\<forall>q \<in> set es. request_id q \<noteq> request_id e"
      by (metis imageI)
    then have "filter (\<lambda>q. request_id q \<noteq> request_id e) es = es"
      by (intro filter_True) auto
    with True show ?thesis by simp
  next
    case False
    with Cons.prems have pes: "p \<in> set es"
      by auto
    from Cons.prems have "request_id e \<notin> request_id ` set es"
      by simp
    with pes have "request_id p \<noteq> request_id e"
      by (metis imageI)
    with pes Cons show ?thesis by simp
  qed
qed

lemma process_completion_packet_match:
  assumes "distinct (map request_id (packet_list_head channel))"
    and "p \<in> set (packet_list_head channel)" and "trans_id desc = request_id p"
  shows "process_completion_packet channel desc =
    (channel\<lparr>packet_list_head :=
        filter (\<lambda>q. request_id q \<noteq> trans_id desc) (packet_list_head channel)\<rparr>,
     Some (complete_packet p desc))"
  using list_del_request_match [OF assms(1,2)] assms(3)
  by (simp add: process_completion_packet_def)

lemma process_completion_packet_no_match:
  assumes "trans_id desc \<notin> request_id ` set (packet_list_head channel)"
  shows "process_completion_packet channel desc =
    (pr_err ''did not find packet to complete'' channel, None)"
  using list_del_request_no_match [OF assms]
  by (simp add: process_completion_packet_def)

lemma request_id_complete_packet [simp]:
  "request_id (complete_packet p desc) = request_id p"
  by (simp add: complete_packet_def Let_def)

lemma packet_list_head_pr_err [simp]:
  "packet_list_head (pr_err msg ch) = packet_list_head ch"
  "packet_request_id (pr_err msg ch) = packet_request_id ch"
  "adapter (pr_err msg ch) = adapter ch"
  "sendpackets (pr_err msg ch) = sendpackets ch"
  by (simp_all add: pr_err_def)

lemma packet_list_head_process_inband_packet [simp]:
  "packet_list_head (process_inband_packet K ch desc) = packet_list_head ch"
  "packet_request_id (process_inband_packet K ch desc) = packet_request_id ch"
  by (simp_all add: process_inband_packet_def)

lemma completions_Cons:
  "completions (d # ds) =
    (if pkt_type d = VM_PKT_COMP then insert d (completions ds) else completions ds)"
  by (auto simp: completions_def)

text \<open>
  What one receive call leaves pending, and whom it wakes, when the pending request ids
  are pairwise distinct and so are the transaction ids that arrive.
\<close>

lemma dxgvmbuschannel_receive_closed_form:
  assumes "distinct (map request_id (packet_list_head channel))"
    and "distinct (map trans_id descs)"
  shows "packet_list_head (fst (dxgvmbuschannel_receive K channel descs)) =
      filter (\<lambda>q. request_id q \<notin> trans_id ` completions descs) (packet_list_head channel) \<and>
    packet_request_id (fst (dxgvmbuschannel_receive K channel descs)) =
      packet_request_id channel \<and>
    set (snd (dxgvmbuschannel_receive K channel descs)) =
      {complete_packet p d | p d. p \<in> set (packet_list_head channel) \<and> d \<in> completions descs \<and>
         trans_id d = request_id p}"
  using assms
proof (induction descs arbitrary: channel)
  case Nil
  then show ?case by (simp add: completions_def)
next
  case (Cons desc descs)
  let ?l = "packet_list_head channel"
  from Cons.prems have dd: "distinct (map trans_id descs)"
    and fresh: "trans_id desc \<notin> trans_id ` set descs"
    by auto
  show ?case
  proof (cases "pkt_type desc = VM_PKT_COMP")
    case False
    then have step: "dxgvmbuschannel_receive K channel (desc # descs) =
        dxgvmbuschannel_receive K
          (if pkt_type desc \<noteq> VM_PKT_DATA_INBAND then pr_err ''unexpected packet type'' channel
           else process_inband_packet K channel desc) descs"
      by simp
    let ?c = "if pkt_type desc \<noteq> VM_PKT_DATA_INBAND then pr_err ''unexpected packet type'' channel
           else process_inband_packet K channel desc"
    have same: "packet_list_head ?c = ?l" "packet_request_id ?c = packet_request_id channel"
      by simp_all
    with Cons.prems have "distinct (map request_id (packet_list_head ?c))"
      by simp
    from Cons.IH [OF this dd] same False show ?thesis
      unfolding step by (simp add: completions_Cons)
  next
    case comp: True
    show ?thesis
    proof (cases "trans_id desc \<in> request_id ` set ?l")
      case False
      let ?c = "pr_err ''did not find packet to complete'' channel"
      from False have pc: "process_completion_packet channel desc = (?c, None)"
        by (rule process_completion_packet_no_match)
      have step: "dxgvmbuschannel_receive K channel (desc # descs) =
          dxgvmbuschannel_receive K ?c descs"
        using comp pc by (simp split: prod.splits)
      from Cons.prems have "distinct (map request_id (packet_list_head ?c))"
        by simp
      moreover from False have "\<forall>q \<in> set ?l. request_id q \<noteq> trans_id desc"
        by (metis imageI)
      ultimately show ?thesis
        using Cons.IH [OF _ dd, of ?c] comp
        unfolding step by (auto simp: completions_Cons intro!: filter_cong)
    next
      case True
      then obtain p where p: "p \<in> set ?l" "trans_id desc = request_id p"
        by auto
      let ?c = "channel\<lparr>packet_list_head := filter (\<lambda>q. request_id q \<noteq> trans_id desc) ?l\<rparr>"
      from Cons.prems p have pc: "process_completion_packet channel desc =
          (?c, Some (complete_packet p desc))"
        by (intro process_completion_packet_match) auto
      have step: "dxgvmbuschannel_receive K channel (desc # descs) =
          (fst (dxgvmbuschannel_receive K ?c descs),
           complete_packet p desc # snd (dxgvmbuschannel_receive K ?c descs))"
        using comp pc by (simp split: prod.splits)
      from Cons.prems have dc: "distinct (map request_id (packet_list_head ?c))"
        by (simp add: distinct_map_filter)
      have only: "q = p" if "q \<in> set ?l" "request_id q = request_id p" for q
        using that p(1) Cons.prems(1) by (meson distinct_map inj_onD)
      have ids: "trans_id d \<noteq> trans_id desc" if "d \<in> completions descs" for d
      proof -
        from that have "d \<in> set descs"
          by (simp add: completions_def)
        with fresh show ?thesis
          by (metis imageI)
      qed
      note ih = Cons.IH [OF dc dd]
      have "packet_list_head (fst (dxgvmbuschannel_receive K channel (desc # descs))) =
          filter (\<lambda>q. request_id q \<notin> trans_id ` completions (desc # descs)) ?l"
        using ih comp unfolding step
        by (auto simp: completions_Cons intro!: filter_cong)
      moreover have "packet_request_id (fst (dxgvmbuschannel_receive K channel (desc # descs))) =
          packet_request_id channel"
        using ih unfolding step by simp
      moreover have "set (snd (dxgvmbuschannel_receive K channel (desc # descs))) =
          {complete_packet q d | q d. q \<in> set ?l \<and> d \<in> completions (desc # descs) \<and>
             trans_id d = request_id q}"
      proof -
        have same: "(q \<in> set (packet_list_head ?c) \<and> d \<in> completions descs \<and>
              trans_id d = request_id q) =
            (q \<in> set ?l \<and> d \<in> completions descs \<and> trans_id d = request_id q)" for q d
          using ids [of d] by auto
        have "set (snd (dxgvmbuschannel_receive K ?c descs)) =
            {complete_packet q d | q d. q \<in> set (packet_list_head ?c) \<and>
               d \<in> completions descs \<and> trans_id d = request_id q}"
          using ih by blast
        then have "set (snd (dxgvmbuschannel_receive K ?c descs)) =
            {complete_packet q d | q d. q \<in> set ?l \<and> d \<in> completions descs \<and>
               trans_id d = request_id q}"
          unfolding same .
        moreover have "{complete_packet q d | q d. q \<in> set ?l \<and>
              d \<in> completions (desc # descs) \<and> trans_id d = request_id q} =
            insert (complete_packet p desc)
              {complete_packet q d | q d. q \<in> set ?l \<and> d \<in> completions descs \<and>
                 trans_id d = request_id q}"
        proof (intro set_eqI iffI)
          fix x
          assume "x \<in> {complete_packet q d | q d. q \<in> set ?l \<and>
              d \<in> completions (desc # descs) \<and> trans_id d = request_id q}"
          then obtain q d where x: "x = complete_packet q d" "q \<in> set ?l"
            "d \<in> completions (desc # descs)" "trans_id d = request_id q"
            by blast
          show "x \<in> insert (complete_packet p desc)
              {complete_packet q d | q d. q \<in> set ?l \<and> d \<in> completions descs \<and>
                 trans_id d = request_id q}"
          proof (cases "d = desc")
            case True
            with x p have "q = p"
              using only by simp
            with True x show ?thesis
              by simp
          next
            case False
            with x comp have "d \<in> completions descs"
              by (simp add: completions_Cons)
            with x show ?thesis
              by blast
          qed
        next
          fix x
          assume "x \<in> insert (complete_packet p desc)
              {complete_packet q d | q d. q \<in> set ?l \<and> d \<in> completions descs \<and>
                 trans_id d = request_id q}"
          then consider "x = complete_packet p desc" |
            "x \<in> {complete_packet q d | q d. q \<in> set ?l \<and> d \<in> completions descs \<and>
                 trans_id d = request_id q}"
            by blast
          then show "x \<in> {complete_packet q d | q d. q \<in> set ?l \<and>
              d \<in> completions (desc # descs) \<and> trans_id d = request_id q}"
          proof cases
            case 1
            have "desc \<in> completions (desc # descs)"
              using comp by (simp add: completions_Cons)
            with 1 p show ?thesis
              by blast
          next
            case 2
            then obtain q d where "x = complete_packet q d" "q \<in> set ?l"
              "d \<in> completions descs" "trans_id d = request_id q"
              by blast
            moreover from this comp have "d \<in> completions (desc # descs)"
              by (simp add: completions_Cons)
            ultimately show ?thesis
              by blast
          qed
        qed
        ultimately show ?thesis
          unfolding step by simp
      qed
      ultimately show ?thesis
        by blast
    qed
  qed
qed

text \<open>
  The request ids on a channel after \<open>k\<close> steps: the counter is at most \<open>k\<close>, the
  pending ids are pairwise distinct and none is beyond the counter.
\<close>

definition ids_issued :: "nat \<Rightarrow> dxgvmbuschannel \<Rightarrow> bool" where
  "ids_issued k ch =
    (unat (packet_request_id ch) \<le> k \<and>
     distinct (map request_id (packet_list_head ch)) \<and>
     (\<forall>p \<in> set (packet_list_head ch). unat (request_id p) \<le> unat (packet_request_id ch)))"

lemma unat_next_request_id:
  assumes "unat (c :: u64) \<le> k" and "k + 1 < 2 ^ 64"
  shows "unat (c + 1) = unat c + 1"
proof -
  from assms have "unat c + unat (1 :: u64) < 2 ^ LENGTH(64)"
    by simp
  then have "unat (c + 1) = unat c + unat (1 :: u64)"
    by (simp only: unat_add_lem [THEN iffD1])
  then show ?thesis
    by simp
qed

lemma ids_issued_send_sync:
  assumes inv: "ids_issued k ch" and k: "k + 1 < 2 ^ 64"
  shows "ids_issued (k + 1)
    (fst (dxgvmb_send_sync_msg K ch alloc_ok command cmd_size result result_size send_ret))"
proof -
  let ?id = "packet_request_id ch + 1"
  from inv have c: "unat (packet_request_id ch) \<le> k"
    and d: "distinct (map request_id (packet_list_head ch))"
    and le: "\<forall>p \<in> set (packet_list_head ch). unat (request_id p) \<le> unat (packet_request_id ch)"
    by (auto simp: ids_issued_def)
  have next_id: "unat ?id = unat (packet_request_id ch) + 1"
    using c k by (rule unat_next_request_id)
  have fresh: "?id \<notin> request_id ` set (packet_list_head ch)"
  proof
    assume "?id \<in> request_id ` set (packet_list_head ch)"
    then obtain p where "p \<in> set (packet_list_head ch)" "request_id p = ?id"
      by auto
    with le next_id show False
      by fastforce
  qed
  from le next_id have le': "\<forall>p \<in> set (packet_list_head ch). unat (request_id p) \<le> unat ?id"
    by fastforce
  show ?thesis
    using c d le le' fresh next_id
    by (auto simp: ids_issued_def dxgvmb_send_sync_msg_def Let_def)
qed

lemma dxgvmbuschannel_receive_pending:
  assumes "distinct (map request_id (packet_list_head channel))"
  shows "\<exists>P. packet_list_head (fst (dxgvmbuschannel_receive K channel descs)) =
      filter P (packet_list_head channel) \<and>
    packet_request_id (fst (dxgvmbuschannel_receive K channel descs)) =
      packet_request_id channel"
  using assms
proof (induction descs arbitrary: channel)
  case Nil
  have "packet_list_head channel = filter (\<lambda>q. True) (packet_list_head channel)"
    by simp
  then show ?case
    by (metis dxgvmbuschannel_receive.simps(1) fst_conv)
next
  case (Cons desc descs)
  let ?l = "packet_list_head channel"
  have "\<exists>c Q. fst (dxgvmbuschannel_receive K channel (desc # descs)) =
      fst (dxgvmbuschannel_receive K c descs) \<and> packet_list_head c = filter Q ?l \<and>
      packet_request_id c = packet_request_id channel"
  proof (cases "pkt_type desc = VM_PKT_COMP")
    case False
    let ?c = "if pkt_type desc \<noteq> VM_PKT_DATA_INBAND then pr_err ''unexpected packet type'' channel
           else process_inband_packet K channel desc"
    have "fst (dxgvmbuschannel_receive K channel (desc # descs)) =
        fst (dxgvmbuschannel_receive K ?c descs)"
      using False by simp
    moreover have "packet_list_head ?c = filter (\<lambda>q. True) ?l"
      and "packet_request_id ?c = packet_request_id channel"
      by simp_all
    ultimately show ?thesis
      by blast
  next
    case comp: True
    show ?thesis
    proof (cases "trans_id desc \<in> request_id ` set ?l")
      case False
      let ?c = "pr_err ''did not find packet to complete'' channel"
      from False have "process_completion_packet channel desc = (?c, None)"
        by (rule process_completion_packet_no_match)
      with comp have "fst (dxgvmbuschannel_receive K channel (desc # descs)) =
          fst (dxgvmbuschannel_receive K ?c descs)"
        by (simp split: prod.splits)
      moreover have "packet_list_head ?c = filter (\<lambda>q. True) ?l"
        and "packet_request_id ?c = packet_request_id channel"
        by simp_all
      ultimately show ?thesis
        by blast
    next
      case True
      then obtain p where p: "p \<in> set ?l" "trans_id desc = request_id p"
        by auto
      let ?c = "channel\<lparr>packet_list_head := filter (\<lambda>q. request_id q \<noteq> trans_id desc) ?l\<rparr>"
      from Cons.prems p have "process_completion_packet channel desc =
          (?c, Some (complete_packet p desc))"
        by (intro process_completion_packet_match) auto
      with comp have "fst (dxgvmbuschannel_receive K channel (desc # descs)) =
          fst (dxgvmbuschannel_receive K ?c descs)"
        by (simp split: prod.splits)
      moreover have "packet_list_head ?c = filter (\<lambda>q. request_id q \<noteq> trans_id desc) ?l"
        and "packet_request_id ?c = packet_request_id channel"
        by simp_all
      ultimately show ?thesis
        by blast
    qed
  qed
  then obtain c Q where c: "fst (dxgvmbuschannel_receive K channel (desc # descs)) =
      fst (dxgvmbuschannel_receive K c descs)" "packet_list_head c = filter Q ?l"
    "packet_request_id c = packet_request_id channel"
    by blast
  from Cons.prems c(2) have "distinct (map request_id (packet_list_head c))"
    by (simp add: distinct_map_filter)
  from Cons.IH [OF this] obtain P where
    "packet_list_head (fst (dxgvmbuschannel_receive K c descs)) = filter P (packet_list_head c)"
    "packet_request_id (fst (dxgvmbuschannel_receive K c descs)) = packet_request_id c"
    by blast
  with c have "packet_list_head (fst (dxgvmbuschannel_receive K channel (desc # descs))) =
      filter (\<lambda>q. Q q \<and> P q) ?l"
    and "packet_request_id (fst (dxgvmbuschannel_receive K channel (desc # descs))) =
      packet_request_id channel"
    by simp_all
  then show ?case
    by blast
qed

lemma ids_issued_receive:
  assumes inv: "ids_issued k ch"
  shows "ids_issued (k + 1) (fst (dxgvmbuschannel_receive K ch descs))"
proof -
  from inv have d: "distinct (map request_id (packet_list_head ch))"
    by (simp add: ids_issued_def)
  from dxgvmbuschannel_receive_pending [OF d, of K descs] inv show ?thesis
    by (auto simp: ids_issued_def distinct_map_filter)
qed

lemma ids_issued_run_channel:
  assumes "length acts < 2 ^ 64"
  shows "ids_issued (length acts) (run_channel K (dxgvmbuschannel_init a) acts)"
  using assms
proof (induction acts rule: rev_induct)
  case Nil
  show ?case
    by (simp add: run_channel_def ids_issued_def dxgvmbuschannel_init_def)
next
  case (snoc act acts)
  then have inv: "ids_issued (length acts) (run_channel K (dxgvmbuschannel_init a) acts)"
    and k: "length acts + 1 < 2 ^ 64"
    by simp_all
  have "ids_issued (length acts + 1)
      (channel_step K (run_channel K (dxgvmbuschannel_init a) acts) act)"
  proof (cases act)
    case (Send_sync alloc_ok command cmd_size result result_size send_ret)
    with ids_issued_send_sync [OF inv k] show ?thesis
      by simp
  next
    case (Receive descs)
    with ids_issued_receive [OF inv] show ?thesis
      by simp
  qed
  then show ?case
    by (simp add: run_channel_def)
qed

text \<open>
  Claim C2. On a channel that has seen fewer than \<open>2 ^ 64\<close> steps (calls of the
  synchronous send and deliveries of packets) since its initialisation, the pending
  requests have pairwise distinct request ids, each at most the counter. A completion
  whose transaction id is the request id of a pending request completes exactly that
  request: it alone leaves the pending list, the others stay as they are, and it is the
  packet that is signalled. A completion that matches no pending request leaves the
  channel as it is but for the line in the log, and signals nobody. So the outcome of a
  delivery of completions with pairwise distinct transaction ids does not depend on
  their order. A send that goes to sleep has queued its request under the next value of
  the counter.
\<close>

theorem completion_by_request_id:
  assumes run: "channel = run_channel K (dxgvmbuschannel_init a) acts"
    and steps: "length acts + 1 < 2 ^ 64"
  shows "distinct (map request_id (packet_list_head channel)) \<and>
    (\<forall>p desc. p \<in> set (packet_list_head channel) \<and> trans_id desc = request_id p \<longrightarrow>
       process_completion_packet channel desc =
         (channel\<lparr>packet_list_head :=
            filter (\<lambda>q. request_id q \<noteq> request_id p) (packet_list_head channel)\<rparr>,
          Some (complete_packet p desc)) \<and>
       filter (\<lambda>q. request_id q \<noteq> request_id p) (packet_list_head channel) =
         remove1 p (packet_list_head channel) \<and>
       request_id (complete_packet p desc) = trans_id desc \<and> wait (complete_packet p desc)) \<and>
    (\<forall>desc. trans_id desc \<notin> request_id ` set (packet_list_head channel) \<longrightarrow>
       process_completion_packet channel desc =
         (pr_err ''did not find packet to complete'' channel, None)) \<and>
    (\<forall>ds ds'. set ds = set ds' \<and> distinct (map trans_id ds) \<and> distinct (map trans_id ds') \<longrightarrow>
       packet_list_head (fst (dxgvmbuschannel_receive K channel ds)) =
         packet_list_head (fst (dxgvmbuschannel_receive K channel ds')) \<and>
       set (snd (dxgvmbuschannel_receive K channel ds)) =
         set (snd (dxgvmbuschannel_receive K channel ds')) \<and>
       set (snd (dxgvmbuschannel_receive K channel ds)) =
         {complete_packet p d | p d. p \<in> set (packet_list_head channel) \<and>
            d \<in> completions ds \<and> trans_id d = request_id p}) \<and>
    (\<forall>command cmd_size result result_size send_ret.
       snd (dxgvmb_send_sync_msg K channel True command cmd_size result result_size send_ret) = None
       \<longrightarrow>
       fst (dxgvmb_send_sync_msg K channel True command cmd_size result result_size send_ret) =
         channel\<lparr>packet_request_id := packet_request_id channel + 1,
           packet_list_head := packet_list_head channel @
             [\<lparr>request_id = packet_request_id channel + 1, wait = False, buffer = result,
               buffer_length = result_size, status = 0\<rparr>],
           sendpackets := sendpackets channel @
             [\<lparr>sp_command = command, sp_size = cmd_size,
               sp_request_id = packet_request_id channel + 1,
               sp_type = VM_PKT_DATA_INBAND, sp_completion_requested = True\<rparr>]\<rparr> \<and>
       unat (packet_request_id channel + 1) = unat (packet_request_id channel) + 1 \<and>
       packet_request_id channel + 1 \<notin> request_id ` set (packet_list_head channel))"
proof -
  let ?l = "packet_list_head channel"
  from steps have "length acts < 2 ^ 64"
    by simp
  from ids_issued_run_channel [OF this, of K a] run have inv: "ids_issued (length acts) channel"
    by simp
  then have d: "distinct (map request_id ?l)"
    and c: "unat (packet_request_id channel) \<le> length acts"
    and le: "\<forall>p \<in> set ?l. unat (request_id p) \<le> unat (packet_request_id channel)"
    by (auto simp: ids_issued_def)
  have one: "process_completion_packet channel desc =
      (channel\<lparr>packet_list_head := filter (\<lambda>q. request_id q \<noteq> request_id p) ?l\<rparr>,
       Some (complete_packet p desc)) \<and>
    filter (\<lambda>q. request_id q \<noteq> request_id p) ?l = remove1 p ?l \<and>
    request_id (complete_packet p desc) = trans_id desc \<and> wait (complete_packet p desc)"
    if "p \<in> set ?l \<and> trans_id desc = request_id p" for p desc
  proof -
    from that have p: "p \<in> set ?l" and t: "trans_id desc = request_id p"
      by simp_all
    have only: "q = p" if "q \<in> set ?l" "request_id q = request_id p" for q
      using that p d by (meson distinct_map inj_onD)
    from d have "distinct ?l"
      by (simp add: distinct_map)
    then have "remove1 p ?l = filter (\<lambda>q. p \<noteq> q) ?l"
      by (simp add: distinct_remove1_removeAll removeAll_filter_not_eq)
    also have "\<dots> = filter (\<lambda>q. request_id q \<noteq> request_id p) ?l"
      using only by (intro filter_cong) auto
    finally have "filter (\<lambda>q. request_id q \<noteq> request_id p) ?l = remove1 p ?l"
      by simp
    moreover have "wait (complete_packet p desc)"
      by (simp add: complete_packet_def Let_def)
    ultimately show ?thesis
      using process_completion_packet_match [OF d p t] t by simp
  qed
  have none: "process_completion_packet channel desc =
      (pr_err ''did not find packet to complete'' channel, None)"
    if "trans_id desc \<notin> request_id ` set ?l" for desc
    using that by (rule process_completion_packet_no_match)
  have order: "packet_list_head (fst (dxgvmbuschannel_receive K channel ds)) =
      packet_list_head (fst (dxgvmbuschannel_receive K channel ds')) \<and>
    set (snd (dxgvmbuschannel_receive K channel ds)) =
      set (snd (dxgvmbuschannel_receive K channel ds')) \<and>
    set (snd (dxgvmbuschannel_receive K channel ds)) =
      {complete_packet p d | p d. p \<in> set ?l \<and> d \<in> completions ds \<and> trans_id d = request_id p}"
    if "set ds = set ds' \<and> distinct (map trans_id ds) \<and> distinct (map trans_id ds')" for ds ds'
  proof -
    from that have same: "completions ds = completions ds'"
      by (simp add: completions_def)
    from that dxgvmbuschannel_receive_closed_form [OF d, of ds K]
      dxgvmbuschannel_receive_closed_form [OF d, of ds' K] show ?thesis
      unfolding same by simp
  qed
  have next_id: "unat (packet_request_id channel + 1) = unat (packet_request_id channel) + 1"
    using c steps by (rule unat_next_request_id)
  have fresh: "packet_request_id channel + 1 \<notin> request_id ` set ?l"
  proof
    assume "packet_request_id channel + 1 \<in> request_id ` set ?l"
    then obtain p where "p \<in> set ?l" "request_id p = packet_request_id channel + 1"
      by auto
    with le next_id show False
      by fastforce
  qed
  have send: "fst (dxgvmb_send_sync_msg K channel True command cmd_size result result_size send_ret) =
      channel\<lparr>packet_request_id := packet_request_id channel + 1,
        packet_list_head := ?l @
          [\<lparr>request_id = packet_request_id channel + 1, wait = False, buffer = result,
            buffer_length = result_size, status = 0\<rparr>],
        sendpackets := sendpackets channel @
          [\<lparr>sp_command = command, sp_size = cmd_size,
            sp_request_id = packet_request_id channel + 1,
            sp_type = VM_PKT_DATA_INBAND, sp_completion_requested = True\<rparr>]\<rparr>"
    if "snd (dxgvmb_send_sync_msg K channel True command cmd_size result result_size send_ret) = None"
    for command cmd_size result result_size send_ret
    using that by (simp add: dxgvmb_send_sync_msg_def Let_def split: if_splits)
  from d one none order send next_id fresh show ?thesis
    by blast
qed

theorem completion_by_request_id_witness:
  "length two_sends + 1 < (2::nat) ^ 64 \<and>
   packet_list_head (run_channel header_128k (dxgvmbuschannel_init None) two_sends) =
     [pending_request 1, pending_request 2] \<and>
   process_completion_packet (run_channel header_128k (dxgvmbuschannel_init None) two_sends)
       (completion_for 2 [5, 6, 7, 8]) =
     ((run_channel header_128k (dxgvmbuschannel_init None) two_sends)
        \<lparr>packet_list_head := [pending_request 1]\<rparr>,
      Some ((pending_request 2)\<lparr>buffer := [5, 6, 7, 8, 9, 9], wait := True\<rparr>))"
proof -
  let ?ch = "run_channel header_128k (dxgvmbuschannel_init None) two_sends"
  have steps: "length two_sends + 1 < (2::nat) ^ 64"
    by (simp add: two_sends_def)
  have pending: "packet_list_head ?ch = [pending_request 1, pending_request 2]"
    by (simp add: run_channel_def two_sends_def dxgvmb_send_sync_msg_def Let_def
        dxgvmbuschannel_init_def header_128k_def pending_request_def)
  have p: "pending_request 2 \<in> set (packet_list_head ?ch) \<and>
      trans_id (completion_for 2 [5, 6, 7, 8]) = request_id (pending_request 2)"
    by (simp add: pending completion_for_def pending_request_def)
  have completed: "complete_packet (pending_request 2) (completion_for 2 [5, 6, 7, 8]) =
      (pending_request 2)\<lparr>buffer := [5, 6, 7, 8, 9, 9], wait := True\<rparr>"
    by (simp add: complete_packet_def completion_for_def pending_request_def
        hv_pkt_datalen_def memcpy_def Let_def)
  have rest: "filter (\<lambda>q. request_id q \<noteq> request_id (pending_request 2)) (packet_list_head ?ch) =
      [pending_request 1]"
    by (simp add: pending pending_request_def)
  have "process_completion_packet ?ch (completion_for 2 [5, 6, 7, 8]) =
      (?ch\<lparr>packet_list_head :=
          filter (\<lambda>q. request_id q \<noteq> request_id (pending_request 2)) (packet_list_head ?ch)\<rparr>,
       Some (complete_packet (pending_request 2) (completion_for 2 [5, 6, 7, 8])))"
    by (rule completion_by_request_id [OF refl steps, of header_128k None,
          THEN conjunct2, THEN conjunct1, THEN spec, THEN spec, THEN mp, OF p, THEN conjunct1])
  then have "process_completion_packet ?ch (completion_for 2 [5, 6, 7, 8]) =
      (?ch\<lparr>packet_list_head := [pending_request 1]\<rparr>,
       Some ((pending_request 2)\<lparr>buffer := [5, 6, 7, 8, 9, 9], wait := True\<rparr>))"
    by (simp only: rest completed)
  with steps pending show ?thesis
    by (intro conjI)
qed

subsection \<open>The size check of the receive path\<close>

text \<open>
  Claim C3 as stated does not hold: with a result buffer declared 4 bytes long and a
  payload of 8 bytes, the sizes differ and the buffer is the smaller one, yet the receive
  path records no error and copies the first 4 bytes.
\<close>

theorem completion_longer_payload_is_copied:
  "hv_pkt_datalen (completion_for 1 [1, 2, 3, 4, 5, 6, 7, 8]) \<noteq> buffer_length (pending_request 1) \<and>
   unat (buffer_length (pending_request 1)) < length (pkt_data (completion_for 1 [1, 2, 3, 4, 5, 6, 7, 8])) \<and>
   process_completion_packet
     ((dxgvmbuschannel_init None)\<lparr>packet_list_head := [pending_request 1], packet_request_id := 1\<rparr>)
     (completion_for 1 [1, 2, 3, 4, 5, 6, 7, 8]) =
   ((dxgvmbuschannel_init None)\<lparr>packet_list_head := [], packet_request_id := 1\<rparr>,
    Some \<lparr>request_id = 1, wait = True, buffer = [1, 2, 3, 4, 9, 9], buffer_length = 4, status = 0\<rparr>) \<and>
   (0 :: int) \<noteq> - EOVERFLOW"
  by (simp add: process_completion_packet_def complete_packet_def completion_for_def
      pending_request_def hv_pkt_datalen_def memcpy_def Let_def dxgvmbuschannel_init_def
      EOVERFLOW_def)

text \<open>
  Claim C3, amended. When the receive path completes a pending request that expects a
  non-empty result: if the arriving payload is shorter than the expected result size,
  it records \<open>-EOVERFLOW\<close> for the request and copies nothing; otherwise (the payload
  is as long as expected or longer) it records nothing and copies exactly the expected
  number of bytes from the start of the payload. In both cases nothing is written past
  the declared length of the caller's buffer.
\<close>

theorem completion_copy_bounded:
  assumes found: "list_del_request (trans_id desc) (packet_list_head channel) = (Some packet, rest)"
    and expects: "buffer_length packet \<noteq> 0"
  shows "\<exists>completed.
    process_completion_packet channel desc =
      (channel\<lparr>packet_list_head := rest\<rparr>, Some completed) \<and>
    (hv_pkt_datalen desc < buffer_length packet \<longrightarrow>
       status completed = - EOVERFLOW \<and> buffer completed = buffer packet) \<and>
    (\<not> hv_pkt_datalen desc < buffer_length packet \<longrightarrow>
       status completed = status packet \<and>
       buffer completed =
         take (unat (buffer_length packet)) (pkt_data desc) @
         drop (unat (buffer_length packet)) (buffer packet) \<and>
       length (take (unat (buffer_length packet)) (pkt_data desc)) =
         unat (buffer_length packet)) \<and>
    drop (unat (buffer_length packet)) (buffer completed) =
      drop (unat (buffer_length packet)) (buffer packet) \<and>
    (unat (buffer_length packet) \<le> length (buffer packet) \<longrightarrow>
       length (buffer completed) = length (buffer packet))"
proof -
  let ?n = "unat (buffer_length packet)"
  let ?c = "complete_packet packet desc"
  have run: "process_completion_packet channel desc =
      (channel\<lparr>packet_list_head := rest\<rparr>, Some ?c)"
    using found by (simp add: process_completion_packet_def)
  have short: "status ?c = - EOVERFLOW \<and> buffer ?c = buffer packet"
    if "hv_pkt_datalen desc < buffer_length packet"
    using that expects by (simp add: complete_packet_def Let_def)
  have long: "status ?c = status packet \<and>
      buffer ?c = take ?n (pkt_data desc) @ drop ?n (buffer packet)"
    if "\<not> hv_pkt_datalen desc < buffer_length packet"
    using that expects by (simp add: complete_packet_def Let_def memcpy_def)
  have enough: "?n \<le> length (pkt_data desc)"
    if long_enough: "\<not> hv_pkt_datalen desc < buffer_length packet"
  proof (rule ccontr)
    assume "\<not> ?n \<le> length (pkt_data desc)"
    then have less: "length (pkt_data desc) < ?n"
      by simp
    have "?n < 2 ^ 32"
      using unsigned_less [of "buffer_length packet", where ?'a = nat] by simp
    with less have "unat (hv_pkt_datalen desc) = length (pkt_data desc)"
      by (simp add: hv_pkt_datalen_def of_nat_inverse)
    with less have "hv_pkt_datalen desc < buffer_length packet"
      by (simp add: word_less_nat_alt)
    with long_enough show False
      by simp
  qed
  have tail: "drop ?n (buffer ?c) = drop ?n (buffer packet)"
  proof (cases "hv_pkt_datalen desc < buffer_length packet")
    case True
    with short show ?thesis by simp
  next
    case False
    with long enough show ?thesis by simp
  qed
  have len: "length (buffer ?c) = length (buffer packet)" if "?n \<le> length (buffer packet)"
  proof (cases "hv_pkt_datalen desc < buffer_length packet")
    case True
    with short show ?thesis by simp
  next
    case False
    with long enough that show ?thesis by simp
  qed
  from run short long enough tail len show ?thesis
    by (intro exI [of _ ?c]) simp
qed

theorem completion_copy_bounded_witness:
  "list_del_request (trans_id (completion_for 1 [1, 2]))
     (packet_list_head ((dxgvmbuschannel_init None)\<lparr>packet_list_head := [pending_request 1]\<rparr>)) =
     (Some (pending_request 1), []) \<and>
   buffer_length (pending_request 1) \<noteq> 0 \<and>
   hv_pkt_datalen (completion_for 1 [1, 2]) < buffer_length (pending_request 1) \<and>
   (\<exists>completed.
      process_completion_packet
        ((dxgvmbuschannel_init None)\<lparr>packet_list_head := [pending_request 1]\<rparr>)
        (completion_for 1 [1, 2]) =
      ((dxgvmbuschannel_init None)\<lparr>packet_list_head := [pending_request 1]\<rparr>
         \<lparr>packet_list_head := []\<rparr>, Some completed) \<and>
      status completed = - EOVERFLOW \<and> buffer completed = [0, 0, 0, 0, 9, 9])"
proof -
  let ?ch = "(dxgvmbuschannel_init None)\<lparr>packet_list_head := [pending_request 1]\<rparr>"
  have found: "list_del_request (trans_id (completion_for 1 [1, 2])) (packet_list_head ?ch) =
      (Some (pending_request 1), [])"
    by (simp add: completion_for_def pending_request_def)
  have expects: "buffer_length (pending_request 1) \<noteq> 0"
    by (simp add: pending_request_def)
  have short: "hv_pkt_datalen (completion_for 1 [1, 2]) < buffer_length (pending_request 1)"
    by (simp add: hv_pkt_datalen_def completion_for_def pending_request_def)
  have mem: "buffer (pending_request 1) = [0, 0, 0, 0, 9, 9]"
    by (simp add: pending_request_def)
  from completion_copy_bounded [OF found expects] obtain completed where
    "process_completion_packet ?ch (completion_for 1 [1, 2]) =
       (?ch\<lparr>packet_list_head := []\<rparr>, Some completed)"
    "hv_pkt_datalen (completion_for 1 [1, 2]) < buffer_length (pending_request 1) \<longrightarrow>
       status completed = - EOVERFLOW \<and> buffer completed = buffer (pending_request 1)"
    by blast
  with short mem have "\<exists>completed.
      process_completion_packet ?ch (completion_for 1 [1, 2]) =
        (?ch\<lparr>packet_list_head := []\<rparr>, Some completed) \<and>
      status completed = - EOVERFLOW \<and> buffer completed = [0, 0, 0, 0, 9, 9]"
    by (intro exI [of _ completed]) simp
  with found expects short show ?thesis
    by (intro conjI)
qed

subsection \<open>The size ceiling is checked before anything is sent\<close>

lemma unat_add_below:
  assumes "unat (a :: u32) + unat b < 2 ^ 32"
  shows "unat (a + b) = unat a + unat b"
proof -
  from assms have "unat a + unat b < 2 ^ LENGTH(32)"
    by simp
  then show ?thesis
    by (simp only: unat_add_lem [THEN iffD1])
qed

lemma total_priv_drv_data_size_sum:
  assumes "DXG_MAX_VM_BUS_PACKET_SIZE K \<le> 2 ^ 31" and "unat acc < DXG_MAX_VM_BUS_PACKET_SIZE K"
  shows "(total_priv_drv_data_size K infos acc = Inl (- EOVERFLOW) \<and>
      DXG_MAX_VM_BUS_PACKET_SIZE K \<le>
        unat acc + sum_list (map (\<lambda>info. unat (ai_priv_drv_data_size info)) infos)) \<or>
    (\<exists>t. total_priv_drv_data_size K infos acc = Inr t \<and>
      unat t = unat acc + sum_list (map (\<lambda>info. unat (ai_priv_drv_data_size info)) infos) \<and>
      unat t < DXG_MAX_VM_BUS_PACKET_SIZE K)"
  using assms
proof (induction infos arbitrary: acc)
  case Nil
  then show ?case by simp
next
  case (Cons info infos)
  let ?m = "DXG_MAX_VM_BUS_PACKET_SIZE K"
  let ?s = "ai_priv_drv_data_size info"
  show ?case
  proof (cases "?m \<le> unat ?s")
    case True
    then show ?thesis by simp
  next
    case small: False
    with Cons.prems have "unat acc + unat ?s < 2 ^ 32"
      by simp
    then have add: "unat (acc + ?s) = unat acc + unat ?s"
      by (rule unat_add_below)
    show ?thesis
    proof (cases "?m \<le> unat (acc + ?s)")
      case True
      with small add show ?thesis by simp
    next
      case False
      then have "unat (acc + ?s) < ?m"
        by simp
      from Cons.IH [OF Cons.prems(1) this] small False add show ?thesis
        by (simp add: add.assoc)
    qed
  qed
qed

text \<open>
  Claim C9 as stated does not hold for the batch create: the function allocates the
  result buffer before it compares the aggregated command size with the ceiling, so
  an oversized batch fails with \<open>-ENOMEM\<close>, not \<open>-EOVERFLOW\<close>, when that allocation
  fails.
\<close>

theorem oversized_batch_without_memory:
  "DXG_MAX_VM_BUS_PACKET_SIZE header_128k < aggregated_size header_128k big_batch small_infos \<and>
   dxgvmb_send_create_allocation header_128k big_batch small_infos False True True =
     Returned (- ENOMEM) \<and>
   Returned (- ENOMEM) \<noteq> Returned (- EOVERFLOW)"
  by (simp add: dxgvmb_send_create_allocation_def aggregated_size_def header_128k_def
      big_batch_def small_infos_def Let_def EOVERFLOW_def ENOMEM_def)

text \<open>
  Claim C9, amended. A synchronous send whose command size or result size exceeds the
  ceiling returns \<open>-EINVAL\<close> with no packet sent and no request queued, and an
  asynchronous send whose command size exceeds it returns \<open>-EINVAL\<close> without an
  attempt. A batch allocation create whose aggregated size (command header,
  per-allocation array, runtime data, global and per-allocation private driver data)
  exceeds the ceiling, and fits the 32-bit size field, returns before any host
  contact: with \<open>-EOVERFLOW\<close>, or with \<open>-ENOMEM\<close> when the result buffer, which is
  allocated before the aggregated size is checked, cannot be allocated. Whenever the
  batch create does reach the send, the command size is within the ceiling.
\<close>

theorem size_ceiling_checked_before_send:
  "(DXG_MAX_VM_BUS_PACKET_SIZE K < unat cmd_size \<or> DXG_MAX_VM_BUS_PACKET_SIZE K < unat result_size
      \<longrightarrow>
      dxgvmb_send_sync_msg K channel alloc_ok command cmd_size result result_size send_ret =
        (pr_err ''dxgvmb_send_sync_msg invalid data size'' channel, Some (- EINVAL)) \<and>
      sendpackets (pr_err ''dxgvmb_send_sync_msg invalid data size'' channel) =
        sendpackets channel \<and>
      packet_list_head (pr_err ''dxgvmb_send_sync_msg invalid data size'' channel) =
        packet_list_head channel) \<and>
    (DXG_MAX_VM_BUS_PACKET_SIZE K < unat cmd_size \<longrightarrow>
      dxgvmb_send_async_msg K channel cmd_size transport = (- EINVAL, [])) \<and>
    (DXG_MAX_VM_BUS_PACKET_SIZE K \<le> 2 ^ 31 \<and> unat (alloc_count args) \<le> length alloc_info \<and>
     DXG_MAX_VM_BUS_PACKET_SIZE K < aggregated_size K args alloc_info \<and>
     aggregated_size K args alloc_info < 2 ^ 32 \<longrightarrow>
      dxgvmb_send_create_allocation K args alloc_info vzalloc_ok init_message_ok copy_ok =
        Returned (- EOVERFLOW) \<or>
      \<not> vzalloc_ok \<and>
      dxgvmb_send_create_allocation K args alloc_info vzalloc_ok init_message_ok copy_ok =
        Returned (- ENOMEM)) \<and>
    (\<forall>c r d. dxgvmb_send_create_allocation K args alloc_info vzalloc_ok init_message_ok copy_ok =
        Host_contact c r d \<longrightarrow> unat c \<le> DXG_MAX_VM_BUS_PACKET_SIZE K)"
proof (intro conjI impI allI)
  assume "DXG_MAX_VM_BUS_PACKET_SIZE K < unat cmd_size \<or>
    DXG_MAX_VM_BUS_PACKET_SIZE K < unat result_size"
  then show "dxgvmb_send_sync_msg K channel alloc_ok command cmd_size result result_size send_ret =
      (pr_err ''dxgvmb_send_sync_msg invalid data size'' channel, Some (- EINVAL))"
    by (simp add: dxgvmb_send_sync_msg_def)
next
  show "sendpackets (pr_err ''dxgvmb_send_sync_msg invalid data size'' channel) =
      sendpackets channel"
    by simp
next
  show "packet_list_head (pr_err ''dxgvmb_send_sync_msg invalid data size'' channel) =
      packet_list_head channel"
    by simp
next
  assume "DXG_MAX_VM_BUS_PACKET_SIZE K < unat cmd_size"
  then show "dxgvmb_send_async_msg K channel cmd_size transport = (- EINVAL, [])"
    by (simp add: dxgvmb_send_async_msg_def)
next
  fix c r d
  assume "dxgvmb_send_create_allocation K args alloc_info vzalloc_ok init_message_ok copy_ok =
    Host_contact c r d"
  then show "unat c \<le> DXG_MAX_VM_BUS_PACKET_SIZE K"
    by (auto simp: dxgvmb_send_create_allocation_def Let_def split: if_splits sum.splits)
next
  let ?m = "DXG_MAX_VM_BUS_PACKET_SIZE K"
  let ?infos = "take (unat (alloc_count args)) alloc_info"
  let ?run = "dxgvmb_send_create_allocation K args alloc_info vzalloc_ok init_message_ok copy_ok"
  assume "?m \<le> 2 ^ 31 \<and> unat (alloc_count args) \<le> length alloc_info \<and>
    ?m < aggregated_size K args alloc_info \<and> aggregated_size K args alloc_info < 2 ^ 32"
  then have m: "?m \<le> 2 ^ 31" and len: "\<not> length alloc_info < unat (alloc_count args)"
    and over: "?m < aggregated_size K args alloc_info"
    and fits: "aggregated_size K args alloc_info < 2 ^ 32"
    by simp_all
  show "?run = Returned (- EOVERFLOW) \<or> \<not> vzalloc_ok \<and> ?run = Returned (- ENOMEM)"
  proof (cases "?m \<le> unat (private_runtime_data_size args) \<or> ?m \<le> unat (priv_drv_data_size args)")
    case True
    then show ?thesis
      by (simp add: dxgvmb_send_create_allocation_def)
  next
    case small: False
    have zero: "unat (0 :: u32) < ?m"
      using over small by (cases "?m = 0") auto
    from total_priv_drv_data_size_sum [OF m zero, of ?infos]
    consider "total_priv_drv_data_size K ?infos 0 = Inl (- EOVERFLOW)"
      | t where "total_priv_drv_data_size K ?infos 0 = Inr t"
        "unat t = sum_list (map (\<lambda>info. unat (ai_priv_drv_data_size info)) ?infos)"
        "unat t < ?m"
      by auto
    then show ?thesis
    proof cases
      case 1
      with small len show ?thesis
        by (simp add: dxgvmb_send_create_allocation_def Let_def)
    next
      case 2
      show ?thesis
      proof (cases vzalloc_ok)
        case False
        with 2 small len show ?thesis
          by (simp add: dxgvmb_send_create_allocation_def Let_def)
      next
        case True
        from 2(3) small m have "unat t + unat (priv_drv_data_size args) < 2 ^ 32"
          by simp
        then have priv: "unat (t + priv_drv_data_size args) = unat t + unat (priv_drv_data_size args)"
          by (rule unat_add_below)
        let ?sum = "sizeof_dxgkvmb_command_createallocation K +
          unat (alloc_count args) * sizeof_dxgkvmb_command_createallocation_allocinfo K +
          unat (private_runtime_data_size args) + unat (t + priv_drv_data_size args)"
        have sum: "?sum = aggregated_size K args alloc_info"
          using priv 2(2) by (simp add: aggregated_size_def)
        with fits have "unat (of_nat ?sum :: u32) = aggregated_size K args alloc_info"
          by (simp add: of_nat_inverse)
        with over have "?m < unat (of_nat ?sum :: u32)"
          by simp
        with 2(1) small len True show ?thesis
          by (simp add: dxgvmb_send_create_allocation_def Let_def)
      qed
    qed
  qed
qed

theorem size_ceiling_checked_before_send_witness:
  "DXG_MAX_VM_BUS_PACKET_SIZE header_128k < unat (200000 :: u32) \<and>
   dxgvmb_send_sync_msg header_128k (dxgvmbuschannel_init None) True [] 200000 [] 0 0 =
     (pr_err ''dxgvmb_send_sync_msg invalid data size'' (dxgvmbuschannel_init None),
      Some (- EINVAL)) \<and>
   DXG_MAX_VM_BUS_PACKET_SIZE header_128k \<le> 2 ^ 31 \<and>
   unat (alloc_count big_batch) \<le> length small_infos \<and>
   DXG_MAX_VM_BUS_PACKET_SIZE header_128k < aggregated_size header_128k big_batch small_infos \<and>
   aggregated_size header_128k big_batch small_infos < 2 ^ 32 \<and>
   dxgvmb_send_create_allocation header_128k big_batch small_infos True True True =
     Returned (- EOVERFLOW)"
proof -
  have big: "DXG_MAX_VM_BUS_PACKET_SIZE header_128k < unat (200000 :: u32)"
    by (simp add: header_128k_def)
  have pre: "DXG_MAX_VM_BUS_PACKET_SIZE header_128k \<le> 2 ^ 31 \<and>
      unat (alloc_count big_batch) \<le> length small_infos \<and>
      DXG_MAX_VM_BUS_PACKET_SIZE header_128k < aggregated_size header_128k big_batch small_infos \<and>
      aggregated_size header_128k big_batch small_infos < 2 ^ 32"
    by (simp add: header_128k_def big_batch_def small_infos_def aggregated_size_def)
  note checked = size_ceiling_checked_before_send [of header_128k 200000 0
      "dxgvmbuschannel_init None" True "[]" "[]" 0 "\<lambda>k. 0" big_batch small_infos True True True]
  from big have sync: "dxgvmb_send_sync_msg header_128k (dxgvmbuschannel_init None) True [] 200000 [] 0 0 =
      (pr_err ''dxgvmb_send_sync_msg invalid data size'' (dxgvmbuschannel_init None),
       Some (- EINVAL))"
    using checked [THEN conjunct1] by simp
  from pre have "dxgvmb_send_create_allocation header_128k big_batch small_infos True True True =
      Returned (- EOVERFLOW) \<or>
    \<not> True \<and> dxgvmb_send_create_allocation header_128k big_batch small_infos True True True =
      Returned (- ENOMEM)"
    by (rule checked [THEN conjunct2, THEN conjunct2, THEN conjunct1, THEN mp])
  then have batch: "dxgvmb_send_create_allocation header_128k big_batch small_infos True True True =
      Returned (- EOVERFLOW)"
    by simp
  from big sync pre batch show ?thesis
    by (intro conjI) simp_all
qed

subsection \<open>Running the object graph functions\<close>

text \<open>What the primitive steps do to each component of the world.\<close>

lemma emit_simps [simp]:
  "adapters (emit e w) = adapters w"
  "processes (emit e w) = processes w"
  "process_adapters (emit e w) = process_adapters w"
  "devices (emit e w) = devices w"
  "contexts (emit e w) = contexts w"
  "resources (emit e w) = resources w"
  "shared_resources (emit e w) = shared_resources w"
  "allocations (emit e w) = allocations w"
  "trace (emit e w) = trace w @ [e]"
  "current_mm (emit e w) = current_mm w"
  "vzalloc_script (emit e w) = vzalloc_script w"
  "host_script (emit e w) = host_script w"
  "os_script (emit e w) = os_script w"
  "faulting (emit e w) = faulting w"
  "fault (emit e w) = fault w"
  by (simp_all add: emit_def)

lemma upd_adapter_simps [simp]:
  "adapters (upd_adapter k f w) = (adapters w)(k := f (adapters w k))"
  "processes (upd_adapter k f w) = processes w"
  "process_adapters (upd_adapter k f w) = process_adapters w"
  "devices (upd_adapter k f w) = devices w"
  "contexts (upd_adapter k f w) = contexts w"
  "resources (upd_adapter k f w) = resources w"
  "shared_resources (upd_adapter k f w) = shared_resources w"
  "allocations (upd_adapter k f w) = allocations w"
  "trace (upd_adapter k f w) = trace w"
  "current_mm (upd_adapter k f w) = current_mm w"
  "vzalloc_script (upd_adapter k f w) = vzalloc_script w"
  "host_script (upd_adapter k f w) = host_script w"
  "os_script (upd_adapter k f w) = os_script w"
  "faulting (upd_adapter k f w) = faulting w"
  "fault (upd_adapter k f w) = fault w"
  by (simp_all add: upd_adapter_def)

lemma upd_process_simps [simp]:
  "adapters (upd_process k f w) = adapters w"
  "processes (upd_process k f w) = (processes w)(k := f (processes w k))"
  "process_adapters (upd_process k f w) = process_adapters w"
  "devices (upd_process k f w) = devices w"
  "contexts (upd_process k f w) = contexts w"
  "resources (upd_process k f w) = resources w"
  "shared_resources (upd_process k f w) = shared_resources w"
  "allocations (upd_process k f w) = allocations w"
  "trace (upd_process k f w) = trace w"
  "current_mm (upd_process k f w) = current_mm w"
  "vzalloc_script (upd_process k f w) = vzalloc_script w"
  "host_script (upd_process k f w) = host_script w"
  "os_script (upd_process k f w) = os_script w"
  "faulting (upd_process k f w) = faulting w"
  "fault (upd_process k f w) = fault w"
  by (simp_all add: upd_process_def)

lemma upd_process_adapter_simps [simp]:
  "adapters (upd_process_adapter k f w) = adapters w"
  "processes (upd_process_adapter k f w) = processes w"
  "process_adapters (upd_process_adapter k f w) = (process_adapters w)(k := f (process_adapters w k))"
  "devices (upd_process_adapter k f w) = devices w"
  "contexts (upd_process_adapter k f w) = contexts w"
  "resources (upd_process_adapter k f w) = resources w"
  "shared_resources (upd_process_adapter k f w) = shared_resources w"
  "allocations (upd_process_adapter k f w) = allocations w"
  "trace (upd_process_adapter k f w) = trace w"
  "current_mm (upd_process_adapter k f w) = current_mm w"
  "vzalloc_script (upd_process_adapter k f w) = vzalloc_script w"
  "host_script (upd_process_adapter k f w) = host_script w"
  "os_script (upd_process_adapter k f w) = os_script w"
  "faulting (upd_process_adapter k f w) = faulting w"
  "fault (upd_process_adapter k f w) = fault w"
  by (simp_all add: upd_process_adapter_def)

lemma upd_device_simps [simp]:
  "adapters (upd_device k f w) = adapters w"
  "processes (upd_device k f w) = processes w"
  "process_adapters (upd_device k f w) = process_adapters w"
  "devices (upd_device k f w) = (devices w)(k := f (devices w k))"
  "contexts (upd_device k f w) = contexts w"
  "resources (upd_device k f w) = resources w"
  "shared_resources (upd_device k f w) = shared_resources w"
  "allocations (upd_device k f w) = allocations w"
  "trace (upd_device k f w) = trace w"
  "current_mm (upd_device k f w) = current_mm w"
  "vzalloc_script (upd_device k f w) = vzalloc_script w"
  "host_script (upd_device k f w) = host_script w"
  "os_script (upd_device k f w) = os_script w"
  "faulting (upd_device k f w) = faulting w"
  "fault (upd_device k f w) = fault w"
  by (simp_all add: upd_device_def)

lemma upd_context_simps [simp]:
  "adapters (upd_context k f w) = adapters w"
  "processes (upd_context k f w) = processes w"
  "process_adapters (upd_context k f w) = process_adapters w"
  "devices (upd_context k f w) = devices w"
  "contexts (upd_context k f w) = (contexts w)(k := f (contexts w k))"
  "resources (upd_context k f w) = resources w"
  "shared_resources (upd_context k f w) = shared_resources w"
  "allocations (upd_context k f w) = allocations w"
  "trace (upd_context k f w) = trace w"
  "current_mm (upd_context k f w) = current_mm w"
  "vzalloc_script (upd_context k f w) = vzalloc_script w"
  "host_script (upd_context k f w) = host_script w"
  "os_script (upd_context k f w) = os_script w"
  "faulting (upd_context k f w) = faulting w"
  "fault (upd_context k f w) = fault w"
  by (simp_all add: upd_context_def)

lemma upd_resource_simps [simp]:
  "adapters (upd_resource k f w) = adapters w"
  "processes (upd_resource k f w) = processes w"
  "process_adapters (upd_resource k f w) = process_adapters w"
  "devices (upd_resource k f w) = devices w"
  "contexts (upd_resource k f w) = contexts w"
  "resources (upd_resource k f w) = (resources w)(k := f (resources w k))"
  "shared_resources (upd_resource k f w) = shared_resources w"
  "allocations (upd_resource k f w) = allocations w"
  "trace (upd_resource k f w) = trace w"
  "current_mm (upd_resource k f w) = current_mm w"
  "vzalloc_script (upd_resource k f w) = vzalloc_script w"
  "host_script (upd_resource k f w) = host_script w"
  "os_script (upd_resource k f w) = os_script w"
  "faulting (upd_resource k f w) = faulting w"
  "fault (upd_resource k f w) = fault w"
  by (simp_all add: upd_resource_def)

lemma upd_shared_resource_simps [simp]:
  "adapters (upd_shared_resource k f w) = adapters w"
  "processes (upd_shared_resource k f w) = processes w"
  "process_adapters (upd_shared_resource k f w) = process_adapters w"
  "devices (upd_shared_resource k f w) = devices w"
  "contexts (upd_shared_resource k f w) = contexts w"
  "resources (upd_shared_resource k f w) = resources w"
  "shared_resources (upd_shared_resource k f w) = (shared_resources w)(k := f (shared_resources w k))"
  "allocations (upd_shared_resource k f w) = allocations w"
  "trace (upd_shared_resource k f w) = trace w"
  "current_mm (upd_shared_resource k f w) = current_mm w"
  "vzalloc_script (upd_shared_resource k f w) = vzalloc_script w"
  "host_script (upd_shared_resource k f w) = host_script w"
  "os_script (upd_shared_resource k f w) = os_script w"
  "faulting (upd_shared_resource k f w) = faulting w"
  "fault (upd_shared_resource k f w) = fault w"
  by (simp_all add: upd_shared_resource_def)

lemma upd_allocation_simps [simp]:
  "adapters (upd_allocation k f w) = adapters w"
  "processes (upd_allocation k f w) = processes w"
  "process_adapters (upd_allocation k f w) = process_adapters w"
  "devices (upd_allocation k f w) = devices w"
  "contexts (upd_allocation k f w) = contexts w"
  "resources (upd_allocation k f w) = resources w"
  "shared_resources (upd_allocation k f w) = shared_resources w"
  "allocations (upd_allocation k f w) = (allocations w)(k := f (allocations w k))"
  "trace (upd_allocation k f w) = trace w"
  "current_mm (upd_allocation k f w) = current_mm w"
  "vzalloc_script (upd_allocation k f w) = vzalloc_script w"
  "host_script (upd_allocation k f w) = host_script w"
  "os_script (upd_allocation k f w) = os_script w"
  "faulting (upd_allocation k f w) = faulting w"
  "fault (upd_allocation k f w) = fault w"
  by (simp_all add: upd_allocation_def)

lemma snd_vzalloc_simps [simp]:
  "adapters (snd (vzalloc w)) = adapters w"
  "processes (snd (vzalloc w)) = processes w"
  "process_adapters (snd (vzalloc w)) = process_adapters w"
  "devices (snd (vzalloc w)) = devices w"
  "contexts (snd (vzalloc w)) = contexts w"
  "resources (snd (vzalloc w)) = resources w"
  "shared_resources (snd (vzalloc w)) = shared_resources w"
  "allocations (snd (vzalloc w)) = allocations w"
  "trace (snd (vzalloc w)) = trace w"
  "current_mm (snd (vzalloc w)) = current_mm w"
  "vzalloc_script (snd (vzalloc w)) = tl (vzalloc_script w)"
  "host_script (snd (vzalloc w)) = host_script w"
  "os_script (snd (vzalloc w)) = os_script w"
  "faulting (snd (vzalloc w)) = faulting w"
  "fault (snd (vzalloc w)) = fault w"
  by (simp_all add: vzalloc_def split: list.splits)

lemma snd_host_answer_simps [simp]:
  "adapters (snd (host_answer w)) = adapters w"
  "processes (snd (host_answer w)) = processes w"
  "process_adapters (snd (host_answer w)) = process_adapters w"
  "devices (snd (host_answer w)) = devices w"
  "contexts (snd (host_answer w)) = contexts w"
  "resources (snd (host_answer w)) = resources w"
  "shared_resources (snd (host_answer w)) = shared_resources w"
  "allocations (snd (host_answer w)) = allocations w"
  "trace (snd (host_answer w)) = trace w"
  "current_mm (snd (host_answer w)) = current_mm w"
  "vzalloc_script (snd (host_answer w)) = vzalloc_script w"
  "host_script (snd (host_answer w)) = tl (host_script w)"
  "os_script (snd (host_answer w)) = os_script w"
  "faulting (snd (host_answer w)) = faulting w"
  "fault (snd (host_answer w)) = fault w"
  by (simp_all add: host_answer_def split: list.splits)

lemma snd_os_answer_simps [simp]:
  "adapters (snd (os_answer w)) = adapters w"
  "processes (snd (os_answer w)) = processes w"
  "process_adapters (snd (os_answer w)) = process_adapters w"
  "devices (snd (os_answer w)) = devices w"
  "contexts (snd (os_answer w)) = contexts w"
  "resources (snd (os_answer w)) = resources w"
  "shared_resources (snd (os_answer w)) = shared_resources w"
  "allocations (snd (os_answer w)) = allocations w"
  "trace (snd (os_answer w)) = trace w"
  "current_mm (snd (os_answer w)) = current_mm w"
  "vzalloc_script (snd (os_answer w)) = vzalloc_script w"
  "host_script (snd (os_answer w)) = host_script w"
  "os_script (snd (os_answer w)) = tl (os_script w)"
  "faulting (snd (os_answer w)) = faulting w"
  "fault (snd (os_answer w)) = fault w"
  by (simp_all add: os_answer_def split: list.splits)

lemma init_message_simps [simp]:
  "snd (init_message w) = snd (vzalloc w)"
  "fst (init_message w) = (if fst (vzalloc w) then 0 else - ENOMEM)"
  by (simp_all add: init_message_def split_beta)

lemma send_sync_msg_simps [simp]:
  "snd (send_sync_msg cmd w) = emit (Host_rpc cmd) (snd (host_answer w))"
  "fst (send_sync_msg cmd w) = fst (host_answer w)"
  by (simp_all add: send_sync_msg_def split_beta)

lemmas world_upd_defs =
  emit_def upd_adapter_def upd_process_def upd_process_adapter_def upd_device_def
  upd_context_def upd_resource_def upd_shared_resource_def upd_allocation_def

lemmas script_defs = vzalloc_def host_answer_def os_answer_def init_message_def send_sync_msg_def

lemmas eval_defs = errno_defs


lemmas hmgrtable_defs =
  hmgrtable_lock_def hmgrtable_unlock_def hmgrtable_assign_handle_def hmgrtable_free_handle_def
  hmgrtable_free_handle_safe_def dxgprocess_ht_lock_exclusive_down_def
  dxgprocess_ht_lock_exclusive_up_def


lemmas lock_defs =
  dxgadapter_release_lock_exclusive_def dxgadapter_acquire_lock_exclusive_def
  dxgadapter_release_lock_shared_def dxgadapter_acquire_lock_shared_def
  dxgdevice_acquire_alloc_list_lock_def dxgdevice_release_alloc_list_lock_def
  dxgdevice_acquire_context_list_lock_def dxgdevice_release_context_list_lock_def

lemmas teardown_defs =
  dxg_unmap_iospace_def dxgallocation_stop_def dxgallocation_free_handle_def
  dxgdevice_remove_alloc_def dxgresource_remove_alloc_def dxgallocation_destroy_def
  dxgdevice_remove_resource_def dxgsharedresource_remove_resource_def
  dxgresource_free_handle_def dxgresource_destroy_def dxgdevice_remove_context_def
  dxgcontext_destroy_def dxgdevice_stop_def dxgprocess_adapter_remove_device_def
  destroy_children_def release_handles_def dxgdevice_destroy_def

lemmas example_defs =
  blank_world_def device_world_def new_allocation_def batch3_world_def batch3_args_def
  host_allocation_def user_allocation_def batch3_result_def resource_world_def
  resource_args_def resource_result_def

lemmas create_local_defs =
  copy_to_user_def process_allocation_handles_def set_existing_store_def pin_and_map_def
  create_existing_sysmem_def free_local_handles_def destroy_local_allocations_def
  create_local_allocations_def PAGE_SHIFT_def

subsection \<open>Stopping an adapter twice, destroying a device that is not active\<close>

lemma fold_frame:
  assumes "\<And>x v. g (f x v) = g v"
  shows "g (fold f xs w) = g w"
  using assms by (induction xs arbitrary: w) simp_all

lemma adapters_dxgallocation_stop [simp]:
  "adapters (dxgallocation_stop x w) = adapters w"
  by (simp add: dxgallocation_stop_def dxg_unmap_iospace_def hmgrtable_defs Let_def split_beta)

lemma adapters_dxgdevice_stop [simp]:
  "adapters (dxgdevice_stop d w) = adapters w"
proof -
  have "adapters (fold dxgallocation_stop xs v) = adapters v" for xs v
    by (rule fold_frame) simp
  then show ?thesis
    by (simp add: dxgdevice_stop_def lock_defs hmgrtable_defs Let_def)
qed

lemma adapters_dxgprocess_adapter_stop [simp]:
  "adapters (dxgprocess_adapter_stop i w) = adapters w"
proof -
  have "adapters (fold dxgdevice_stop xs v) = adapters v" for xs v
    by (rule fold_frame) simp
  then show ?thesis
    by (simp add: dxgprocess_adapter_stop_def)
qed

lemma adapters_fold_dxgprocess_adapter_stop [simp]:
  "adapters (fold dxgprocess_adapter_stop is w) = adapters w"
  by (rule fold_frame) simp



text \<open>The events a function adds to the trace.\<close>

definition new_events :: "world \<Rightarrow> world \<Rightarrow> event list" where
  "new_events w w' = drop (length (trace w)) (trace w')"





text \<open>
  What the amended claim leaves out is a defect of the code. On a device that has been
  destroyed already, the exit path runs once more and releases a second reference on
  the adapter and on the device: \<^verbatim>\<open>device->adapter\<close> is never cleared, so the test
  that guards the release of the adapter does not tell a device that has given its
  reference back from one that holds it. Here another reference is held on device 2,
  so that the first call does not free it; after the second call the adapter, which
  the binding 8 of process 1 still uses, has no reference left and is freed.
\<close>

lemma second_destroy_releases_references:
  "device_object_state
     (devices (dxgdevice_destroy 2
        (upd_device 2 (\<lambda>y. y\<lparr>device_kref := 2\<rparr>) device_world)) 2) = DXGOBJECTSTATE_DESTROYED \<and>
   adapter_kref
     (adapters (dxgdevice_destroy 2
        (upd_device 2 (\<lambda>y. y\<lparr>device_kref := 2\<rparr>) device_world)) 3) = 1 \<and>
   device_kref
     (devices (dxgdevice_destroy 2
        (upd_device 2 (\<lambda>y. y\<lparr>device_kref := 2\<rparr>) device_world)) 2) = 1 \<and>
   adapter_kref
     (adapters (dxgdevice_destroy 2 (dxgdevice_destroy 2
        (upd_device 2 (\<lambda>y. y\<lparr>device_kref := 2\<rparr>) device_world))) 3) = 0 \<and>
   device_kref
     (devices (dxgdevice_destroy 2 (dxgdevice_destroy 2
        (upd_device 2 (\<lambda>y. y\<lparr>device_kref := 2\<rparr>) device_world))) 2) = 0 \<and>
   Vfree (Adapter 3) \<in> set (trace (dxgdevice_destroy 2 (dxgdevice_destroy 2
        (upd_device 2 (\<lambda>y. y\<lparr>device_kref := 2\<rparr>) device_world)))) \<and>
   pa_adapter (process_adapters (dxgdevice_destroy 2 (dxgdevice_destroy 2
        (upd_device 2 (\<lambda>y. y\<lparr>device_kref := 2\<rparr>) device_world))) 8) = 3"
  by code_simp

subsection \<open>Unwinding a batch allocation create\<close>

text \<open>
  Claim C1 describes what the function is written to do, and the function misses a
  case: when the batch creates a resource and it is the handle of the resource that
  cannot be registered, \<^verbatim>\<open>process_allocation_handles\<close> logs the failure and goes on
  to the allocations, whose registration overwrites \<^verbatim>\<open>ret\<close>. With one allocation
  whose handle is free, \<^verbatim>\<open>create_local_allocations\<close> returns 0: nothing is unwound,
  the handle of the allocation stays registered, the resource has no handle, and no
  destroy message is sent.
\<close>

theorem resource_registration_failure_not_unwound:
  "fst (create_local_allocations 1 2 resource_args [user_allocation] resource_result
          (Some 4) [Some 5] resource_world) = 0 \<and>
   trace (snd (create_local_allocations 1 2 resource_args [user_allocation] resource_result
          (Some 4) [Some 5] resource_world)) =
     [Copy_to_user User_resource, Copy_to_user (User_allocation 0),
      Down_write (Handle_table_lock 1),
      Hmgrtable_assign_handle 1 HMGRENTRY_TYPE_DXGRESOURCE 33,
      Printk ''failed to assign resource handle'',
      Hmgrtable_assign_handle 1 HMGRENTRY_TYPE_DXGALLOCATION 49,
      Up_write (Handle_table_lock 1), Copy_to_user User_global_share] \<and>
   handle_table (processes (snd (create_local_allocations 1 2 resource_args [user_allocation]
          resource_result (Some 4) [Some 5] resource_world)) 1) 49 =
     Some (HMGRENTRY_TYPE_DXGALLOCATION, 5) \<and>
   handle_table (processes (snd (create_local_allocations 1 2 resource_args [user_allocation]
          resource_result (Some 4) [Some 5] resource_world)) 1) 33 =
     Some (HMGRENTRY_TYPE_DXGRESOURCE, 9) \<and>
   \<not> resource_handle_valid (resources (snd (create_local_allocations 1 2 resource_args
          [user_allocation] resource_result (Some 4) [Some 5] resource_world)) 4) \<and>
   \<not> fault (snd (create_local_allocations 1 2 resource_args [user_allocation] resource_result
          (Some 4) [Some 5] resource_world))"
  by code_simp

subsection \<open>What the teardown of the children of a device leaves alone\<close>

text \<open>
  The events of the teardown of allocations, resources and contexts: anything but the
  lock of a device and the destroy-device message.
\<close>

definition child_event :: "event \<Rightarrow> bool" where
  "child_event e =
    (case e of
       Down_write l \<Rightarrow> (case l of Device_lock d \<Rightarrow> False | _ \<Rightarrow> True)
     | Up_write l \<Rightarrow> (case l of Device_lock d \<Rightarrow> False | _ \<Rightarrow> True)
     | Host_rpc c \<Rightarrow> (case c of DXGK_VMBCOMMAND_DESTROYDEVICE h \<Rightarrow> False | _ \<Rightarrow> True)
     | _ \<Rightarrow> True)"

text \<open>
  \<open>keeps l X Y w v\<close>: the world \<open>v\<close> comes from \<open>w\<close> by steps of the teardown. Such
  steps add events as above to the trace. They change neither an adapter nor the
  fields that say where an object belongs, and the list of the allocations of a
  resource can only lose members. The level \<open>l\<close> says what may happen to the devices:
  below 1 their reference counts and the lists of their allocations are as before,
  below 2 the lists of their resources, below 3 the lists of their contexts. The
  allocations outside \<open>X\<close> are linked as before, and so are the resources outside \<open>Y\<close>.
\<close>

definition events_added :: "world \<Rightarrow> world \<Rightarrow> bool" where
  "events_added w v \<longleftrightarrow> (\<exists>es. trace v = trace w @ es \<and> list_all child_event es)"

definition devices_kept :: "nat \<Rightarrow> world \<Rightarrow> world \<Rightarrow> bool" where
  "devices_kept l w v \<longleftrightarrow>
    (\<forall>d. device_adapter (devices v d) = device_adapter (devices w d) \<and>
         device_process (devices v d) = device_process (devices w d) \<and>
         (l < 1 \<longrightarrow> device_kref (devices v d) = device_kref (devices w d) \<and>
                   alloc_list_head (devices v d) = alloc_list_head (devices w d)) \<and>
         (l < 2 \<longrightarrow> resource_list_head (devices v d) = resource_list_head (devices w d)) \<and>
         (l < 3 \<longrightarrow> context_list_head (devices v d) = context_list_head (devices w d)))"

definition resources_kept :: "ptr set \<Rightarrow> world \<Rightarrow> world \<Rightarrow> bool" where
  "resources_kept Y w v \<longleftrightarrow>
    (\<forall>r. resource_device (resources v r) = resource_device (resources w r) \<and>
         set (resource_alloc_list_head (resources v r)) \<subseteq>
           set (resource_alloc_list_head (resources w r)) \<and>
         (r \<notin> Y \<longrightarrow> resource_list_entry (resources v r) = resource_list_entry (resources w r) \<and>
                     resource_destroyed (resources v r) = resource_destroyed (resources w r)))"

definition allocations_kept :: "ptr set \<Rightarrow> world \<Rightarrow> world \<Rightarrow> bool" where
  "allocations_kept X w v \<longleftrightarrow>
    (\<forall>x. owner (allocations v x) = owner (allocations w x) \<and>
         resource_owner (allocations v x) = resource_owner (allocations w x) \<and>
         (x \<notin> X \<longrightarrow> alloc_list_entry (allocations v x) = alloc_list_entry (allocations w x)))"

definition keeps :: "nat \<Rightarrow> ptr set \<Rightarrow> ptr set \<Rightarrow> world \<Rightarrow> world \<Rightarrow> bool" where
  "keeps l X Y w v \<longleftrightarrow>
    events_added w v \<and>
    adapters v = adapters w \<and>
    devices_kept l w v \<and>
    (\<forall>c. context_device (contexts v c) = context_device (contexts w c)) \<and>
    resources_kept Y w v \<and>
    allocations_kept X w v"

lemmas kept_defs = events_added_def devices_kept_def resources_kept_def allocations_kept_def

named_theorems keeps_rules

lemma keeps_refl: "keeps l X Y w w"
  by (simp add: keeps_def kept_defs)

lemma events_added_trans:
  assumes "events_added w u" and "events_added u v"
  shows "events_added w v"
proof -
  from assms obtain es fs where "trace u = trace w @ es" "list_all child_event es"
    "trace v = trace u @ fs" "list_all child_event fs"
    unfolding events_added_def by blast
  then have "trace v = trace w @ (es @ fs) \<and> list_all child_event (es @ fs)"
    by simp
  then show ?thesis
    unfolding events_added_def by blast
qed

lemma devices_kept_trans:
  "devices_kept l w u \<Longrightarrow> devices_kept l u v \<Longrightarrow> devices_kept l w v"
  unfolding devices_kept_def by simp

lemma resources_kept_trans:
  assumes "resources_kept Y w u" and "resources_kept Y u v"
  shows "resources_kept Y w v"
proof -
  have "set (resource_alloc_list_head (resources v r)) \<subseteq>
      set (resource_alloc_list_head (resources w r))" for r
    using assms unfolding resources_kept_def by blast
  with assms show ?thesis
    unfolding resources_kept_def by simp
qed

lemma allocations_kept_trans:
  "allocations_kept X w u \<Longrightarrow> allocations_kept X u v \<Longrightarrow> allocations_kept X w v"
  unfolding allocations_kept_def by simp

lemma keeps_trans:
  assumes "keeps l X Y w u" and "keeps l X Y u v"
  shows "keeps l X Y w v"
proof -
  from assms have "events_added w v"
    unfolding keeps_def by (blast intro: events_added_trans)
  moreover from assms have "devices_kept l w v"
    unfolding keeps_def by (blast intro: devices_kept_trans)
  moreover from assms have "resources_kept Y w v"
    unfolding keeps_def by (blast intro: resources_kept_trans)
  moreover from assms have "allocations_kept X w v"
    unfolding keeps_def by (blast intro: allocations_kept_trans)
  moreover from assms have "adapters v = adapters w"
    "context_device (contexts v c) = context_device (contexts w c)" for c
    unfolding keeps_def by simp_all
  ultimately show ?thesis
    unfolding keeps_def by simp
qed

lemma keeps_mono:
  assumes "keeps l X Y w v" and "l \<le> l'" and "X \<subseteq> X'" and "Y \<subseteq> Y'"
  shows "keeps l' X' Y' w v"
proof -
  from assms have "devices_kept l' w v"
    unfolding keeps_def devices_kept_def by simp
  moreover from assms have "resources_kept Y' w v"
    unfolding keeps_def resources_kept_def by (simp add: subset_iff) blast
  moreover from assms have "allocations_kept X' w v"
    unfolding keeps_def allocations_kept_def by (simp add: subset_iff) blast
  ultimately show ?thesis
    using assms(1) unfolding keeps_def by simp
qed

lemma keeps_emit [keeps_rules]:
  "keeps l X Y w v \<Longrightarrow> child_event e \<Longrightarrow> keeps l X Y w (emit e v)"
  by (auto simp add: keeps_def kept_defs)

lemma keeps_upd_process [keeps_rules]:
  "keeps l X Y w v \<Longrightarrow> keeps l X Y w (upd_process k f v)"
  by (simp add: keeps_def kept_defs)

lemma keeps_upd_shared_resource [keeps_rules]:
  "keeps l X Y w v \<Longrightarrow> keeps l X Y w (upd_shared_resource k f v)"
  by (simp add: keeps_def kept_defs)

lemma keeps_upd_device [keeps_rules]:
  assumes "keeps l X Y w v"
    and "\<And>y. device_adapter (f y) = device_adapter y \<and> device_process (f y) = device_process y \<and>
      (l < 1 \<longrightarrow> device_kref (f y) = device_kref y \<and> alloc_list_head (f y) = alloc_list_head y) \<and>
      (l < 2 \<longrightarrow> resource_list_head (f y) = resource_list_head y) \<and>
      (l < 3 \<longrightarrow> context_list_head (f y) = context_list_head y)"
  shows "keeps l X Y w (upd_device k f v)"
  using assms by (simp add: keeps_def kept_defs)

lemma keeps_upd_context [keeps_rules]:
  assumes "keeps l X Y w v" and "\<And>y. context_device (f y) = context_device y"
  shows "keeps l X Y w (upd_context k f v)"
  using assms by (simp add: keeps_def kept_defs)

lemma keeps_upd_resource [keeps_rules]:
  assumes "keeps l X Y w v"
    and "\<And>y. resource_device (f y) = resource_device y \<and>
      set (resource_alloc_list_head (f y)) \<subseteq> set (resource_alloc_list_head y) \<and>
      (k \<notin> Y \<longrightarrow> resource_list_entry (f y) = resource_list_entry y \<and>
                  resource_destroyed (f y) = resource_destroyed y)"
  shows "keeps l X Y w (upd_resource k f v)"
proof -
  from assms have "set (resource_alloc_list_head (f (resources v k))) \<subseteq>
      set (resource_alloc_list_head (resources w k))"
    unfolding keeps_def resources_kept_def by blast
  with assms show ?thesis
    by (simp add: keeps_def kept_defs)
qed

lemma keeps_upd_allocation [keeps_rules]:
  assumes "keeps l X Y w v"
    and "\<And>y. owner (f y) = owner y \<and> resource_owner (f y) = resource_owner y \<and>
      (k \<notin> X \<longrightarrow> alloc_list_entry (f y) = alloc_list_entry y)"
  shows "keeps l X Y w (upd_allocation k f v)"
  using assms by (simp add: keeps_def kept_defs)

lemma keeps_fault [keeps_rules]:
  "keeps l X Y w v \<Longrightarrow> keeps l X Y w (v\<lparr>fault := b\<rparr>)"
  by (simp add: keeps_def kept_defs)

lemma keeps_vzalloc [keeps_rules]:
  "keeps l X Y w v \<Longrightarrow> keeps l X Y w (snd (vzalloc v))"
  by (simp add: keeps_def kept_defs)

lemma keeps_host_answer [keeps_rules]:
  "keeps l X Y w v \<Longrightarrow> keeps l X Y w (snd (host_answer v))"
  by (simp add: keeps_def kept_defs)

lemma keeps_os_answer [keeps_rules]:
  "keeps l X Y w v \<Longrightarrow> keeps l X Y w (snd (os_answer v))"
  by (simp add: keeps_def kept_defs)

lemma keeps_if [keeps_rules]:
  "(c \<Longrightarrow> keeps l X Y w a) \<Longrightarrow> (\<not> c \<Longrightarrow> keeps l X Y w b) \<Longrightarrow>
   keeps l X Y w (if c then a else b)"
  by simp

lemma keeps_snd_if [keeps_rules]:
  "(c \<Longrightarrow> keeps l X Y w (snd a)) \<Longrightarrow> (\<not> c \<Longrightarrow> keeps l X Y w (snd b)) \<Longrightarrow>
   keeps l X Y w (snd (if c then a else b))"
  by simp

lemma keeps_snd_Pair [keeps_rules]:
  "keeps l X Y w b \<Longrightarrow> keeps l X Y w (snd (a, b))"
  by simp

lemma keeps_case_option [keeps_rules]:
  "(opt = None \<Longrightarrow> keeps l X Y w a) \<Longrightarrow> (\<And>y. opt = Some y \<Longrightarrow> keeps l X Y w (f y)) \<Longrightarrow>
   keeps l X Y w (case opt of None \<Rightarrow> a | Some y \<Rightarrow> f y)"
  by (cases opt) simp_all

lemma keeps_case_prod [keeps_rules]:
  "keeps l X Y w (f (fst p) (snd p)) \<Longrightarrow> keeps l X Y w (case p of (a, b) \<Rightarrow> f a b)"
  by (simp add: split_beta)

lemma keeps_snd_case_prod [keeps_rules]:
  "keeps l X Y w (snd (f (fst p) (snd p))) \<Longrightarrow>
   keeps l X Y w (snd (case p of (a, b) \<Rightarrow> f a b))"
  by (simp add: split_beta)

lemma keeps_Let [keeps_rules]:
  "keeps l X Y w s \<Longrightarrow> (\<And>v. keeps l X Y w v \<Longrightarrow> keeps l X Y w (f v)) \<Longrightarrow>
   keeps l X Y w (Let s f)"
  by simp

lemma keeps_Let_ptr [keeps_rules]:
  "keeps l X Y w (f s) \<Longrightarrow> keeps l X Y w (Let s f)" for s :: ptr
  by simp

lemma keeps_Let_bool [keeps_rules]:
  "keeps l X Y w (f s) \<Longrightarrow> keeps l X Y w (Let s f)" for s :: bool
  by simp

lemma keeps_Let_handle [keeps_rules]:
  "keeps l X Y w (f s) \<Longrightarrow> keeps l X Y w (Let s f)" for s :: d3dkmthandle
  by simp

lemma keeps_fold [keeps_rules]:
  assumes "keeps l X Y w v" and "\<And>x u. x \<in> set xs \<Longrightarrow> keeps l X Y w u \<Longrightarrow> keeps l X Y w (f x u)"
  shows "keeps l X Y w (fold f xs v)"
  using assms by (induction xs arbitrary: v) simp_all

lemma child_event_simps [simp]:
  "child_event (Down_write (Alloc_list_lock d))"
  "child_event (Up_write (Alloc_list_lock d))"
  "child_event (Down_write (Context_list_lock d))"
  "child_event (Up_write (Context_list_lock d))"
  "child_event (Down_write (Handle_table_lock p))"
  "child_event (Up_write (Handle_table_lock p))"
  "child_event (Down_write (Shared_resource_list_lock a))"
  "child_event (Up_write (Shared_resource_list_lock a))"
  "child_event (Hmgrtable_free_handle p t h)"
  "child_event (Host_rpc (DXGK_VMBCOMMAND_DESTROYALLOCATION dv r hs b))"
  "child_event (Vfree obj)"
  "child_event (Release_pages x)"
  "child_event (Vm_munmap x)"
  "child_event (Vmbus_teardown_gpadl g)"
  "child_event (Printk s)"
  "\<not> child_event (Down_write (Device_lock d))"
  "\<not> child_event (Up_write (Device_lock d))"
  "\<not> child_event (Host_rpc (DXGK_VMBCOMMAND_DESTROYDEVICE h))"
  by (simp_all add: child_event_def)

text \<open>The functions of the teardown, one by one.\<close>

lemma keeps_init_message [keeps_rules]:
  "keeps l X Y w v \<Longrightarrow> keeps l X Y w (snd (init_message v))"
  by (simp add: keeps_vzalloc)

lemma keeps_send_sync_msg [keeps_rules]:
  "keeps l X Y w v \<Longrightarrow> child_event (Host_rpc cmd) \<Longrightarrow> keeps l X Y w (snd (send_sync_msg cmd v))"
  by (simp add: keeps_emit keeps_host_answer)

lemma keeps_hmgrtable_lock [keeps_rules]:
  "keeps l X Y w v \<Longrightarrow> keeps l X Y w (hmgrtable_lock p v)"
  unfolding hmgrtable_lock_def
  by (intro keeps_rules; (assumption | simp))

lemma keeps_hmgrtable_unlock [keeps_rules]:
  "keeps l X Y w v \<Longrightarrow> keeps l X Y w (hmgrtable_unlock p v)"
  unfolding hmgrtable_unlock_def
  by (intro keeps_rules; (assumption | simp))

lemma keeps_hmgrtable_free_handle [keeps_rules]:
  "keeps l X Y w v \<Longrightarrow> keeps l X Y w (hmgrtable_free_handle p t h v)"
  unfolding hmgrtable_free_handle_def
  by (intro keeps_rules; (assumption | simp))

lemma keeps_hmgrtable_free_handle_safe [keeps_rules]:
  "keeps l X Y w v \<Longrightarrow> keeps l X Y w (hmgrtable_free_handle_safe p t h v)"
  unfolding hmgrtable_free_handle_safe_def
  by (intro keeps_rules; (assumption | simp))

lemma keeps_dxgprocess_ht_lock_exclusive_down [keeps_rules]:
  "keeps l X Y w v \<Longrightarrow> keeps l X Y w (dxgprocess_ht_lock_exclusive_down p v)"
  unfolding dxgprocess_ht_lock_exclusive_down_def
  by (intro keeps_rules; (assumption | simp))

lemma keeps_dxgprocess_ht_lock_exclusive_up [keeps_rules]:
  "keeps l X Y w v \<Longrightarrow> keeps l X Y w (dxgprocess_ht_lock_exclusive_up p v)"
  unfolding dxgprocess_ht_lock_exclusive_up_def
  by (intro keeps_rules; (assumption | simp))

lemma keeps_kref_put_device [keeps_rules]:
  "keeps l X Y w v \<Longrightarrow> 1 \<le> l \<Longrightarrow> keeps l X Y w (kref_put_device d v)"
  unfolding kref_put_device_def dxgdevice_release_def
  by (intro keeps_rules; (assumption | simp))

lemma keeps_kref_put_context [keeps_rules]:
  "keeps l X Y w v \<Longrightarrow> keeps l X Y w (kref_put_context c v)"
  unfolding kref_put_context_def dxgcontext_release_def
  by (intro keeps_rules; (assumption | simp))

lemma keeps_kref_get_resource [keeps_rules]:
  "keeps l X Y w v \<Longrightarrow> keeps l X Y w (kref_get_resource r v)"
  unfolding kref_get_resource_def
  by (intro keeps_rules; (assumption | simp))

lemma keeps_kref_put_resource [keeps_rules]:
  "keeps l X Y w v \<Longrightarrow> keeps l X Y w (kref_put_resource r v)"
  unfolding kref_put_resource_def dxgresource_release_def
  by (intro keeps_rules; (assumption | simp))

lemma keeps_kref_put_shared_resource [keeps_rules]:
  "keeps l X Y w v \<Longrightarrow> keeps l X Y w (kref_put_shared_resource s v)"
  unfolding kref_put_shared_resource_def dxgsharedresource_destroy_def
  by (intro keeps_rules; (assumption | simp))

lemma keeps_dxgvmb_send_destroy_allocation [keeps_rules]:
  "keeps l X Y w v \<Longrightarrow> keeps l X Y w (snd (dxgvmb_send_destroy_allocation dv r hs b v))"
  unfolding dxgvmb_send_destroy_allocation_def
  by (intro keeps_rules; (assumption | simp))

lemma keeps_dxg_unmap_iospace [keeps_rules]:
  "keeps l X Y w v \<Longrightarrow> keeps l X Y w (snd (dxg_unmap_iospace x v))"
  unfolding dxg_unmap_iospace_def
  by (intro keeps_rules; (assumption | simp))

lemma keeps_dxgallocation_stop [keeps_rules]:
  "keeps l X Y w v \<Longrightarrow> keeps l X Y w (dxgallocation_stop x v)"
  unfolding dxgallocation_stop_def
  by (intro keeps_rules; (assumption | simp))

lemma keeps_dxgallocation_free_handle [keeps_rules]:
  "keeps l X Y w v \<Longrightarrow> keeps l X Y w (dxgallocation_free_handle x v)"
  unfolding dxgallocation_free_handle_def
  by (intro keeps_rules; (assumption | simp))

lemma keeps_dxgdevice_remove_alloc [keeps_rules]:
  "keeps l X Y w v \<Longrightarrow> 1 \<le> l \<Longrightarrow> x \<in> X \<Longrightarrow> keeps l X Y w (dxgdevice_remove_alloc d x v)"
  unfolding dxgdevice_remove_alloc_def
  by (intro keeps_rules; (assumption | simp))

lemma keeps_dxgresource_remove_alloc [keeps_rules]:
  "keeps l X Y w v \<Longrightarrow> x \<in> X \<Longrightarrow> keeps l X Y w (dxgresource_remove_alloc r x v)"
  unfolding dxgresource_remove_alloc_def
  by (intro keeps_rules; (assumption | simp add: set_remove1_subset))

lemma keeps_dxgallocation_destroy [keeps_rules]:
  "keeps l X Y w v \<Longrightarrow> 1 \<le> l \<Longrightarrow> x \<in> X \<Longrightarrow> keeps l X Y w (dxgallocation_destroy x v)"
  unfolding dxgallocation_destroy_def
  by (intro keeps_rules; (assumption | simp))

lemma keeps_dxgdevice_remove_resource [keeps_rules]:
  "keeps l X Y w v \<Longrightarrow> 2 \<le> l \<Longrightarrow> r \<in> Y \<Longrightarrow> keeps l X Y w (dxgdevice_remove_resource d r v)"
  unfolding dxgdevice_remove_resource_def
  by (intro keeps_rules; (assumption | simp))

lemma keeps_dxgsharedresource_remove_resource [keeps_rules]:
  "keeps l X Y w v \<Longrightarrow> keeps l X Y w (dxgsharedresource_remove_resource s r v)"
  unfolding dxgsharedresource_remove_resource_def
  by (intro keeps_rules; (assumption | simp))

lemma keeps_dxgresource_free_handle [keeps_rules]:
  "keeps l X Y w v \<Longrightarrow> keeps l X Y w (dxgresource_free_handle r v)"
  unfolding dxgresource_free_handle_def
  by (intro keeps_rules; (assumption | simp))

lemma keeps_dxgresource_destroy [keeps_rules]:
  "keeps l X Y w v \<Longrightarrow> 2 \<le> l \<Longrightarrow> r \<in> Y \<Longrightarrow> X = UNIV \<Longrightarrow> keeps l X Y w (dxgresource_destroy r v)"
  unfolding dxgresource_destroy_def
  by (intro keeps_rules; (assumption | simp))

lemma keeps_dxgdevice_remove_context [keeps_rules]:
  "keeps l X Y w v \<Longrightarrow> 3 \<le> l \<Longrightarrow> keeps l X Y w (dxgdevice_remove_context d c v)"
  unfolding dxgdevice_remove_context_def
  by (intro keeps_rules; (assumption | simp))

lemma keeps_dxgcontext_destroy [keeps_rules]:
  "keeps l X Y w v \<Longrightarrow> 3 \<le> l \<Longrightarrow> keeps l X Y w (dxgcontext_destroy p c v)"
  unfolding dxgcontext_destroy_def
  by (intro keeps_rules; (assumption | simp))

lemma keeps_dxgdevice_acquire_alloc_list_lock [keeps_rules]:
  "keeps l X Y w v \<Longrightarrow> keeps l X Y w (dxgdevice_acquire_alloc_list_lock d v)"
  unfolding dxgdevice_acquire_alloc_list_lock_def
  by (intro keeps_rules; (assumption | simp))

lemma keeps_dxgdevice_release_alloc_list_lock [keeps_rules]:
  "keeps l X Y w v \<Longrightarrow> keeps l X Y w (dxgdevice_release_alloc_list_lock d v)"
  unfolding dxgdevice_release_alloc_list_lock_def
  by (intro keeps_rules; (assumption | simp))

lemma keeps_dxgdevice_acquire_context_list_lock [keeps_rules]:
  "keeps l X Y w v \<Longrightarrow> keeps l X Y w (dxgdevice_acquire_context_list_lock d v)"
  unfolding dxgdevice_acquire_context_list_lock_def
  by (intro keeps_rules; (assumption | simp))

lemma keeps_dxgdevice_release_context_list_lock [keeps_rules]:
  "keeps l X Y w v \<Longrightarrow> keeps l X Y w (dxgdevice_release_context_list_lock d v)"
  unfolding dxgdevice_release_context_list_lock_def
  by (intro keeps_rules; (assumption | simp))

lemma keeps_dxgdevice_stop [keeps_rules]:
  "keeps l X Y w v \<Longrightarrow> keeps l X Y w (dxgdevice_stop d v)"
  unfolding dxgdevice_stop_def
  by (intro keeps_rules; (assumption | simp))

lemma keeps_destroy_syncobjects [keeps_rules]:
  "keeps l X Y w v \<Longrightarrow> keeps l X Y w (destroy_syncobjects d ss v)"
proof (induction ss arbitrary: v)
  case Nil
  then show ?case
    by simp
next
  case (Cons s ss)
  show ?case
    unfolding destroy_syncobjects.simps
    by (rule Cons.IH) (intro keeps_rules; (rule Cons.prems | simp))
qed

lemma keeps_destroy_children:
  "keeps 3 UNIV UNIV w v \<Longrightarrow> keeps 3 UNIV UNIV w (destroy_children p d v)"
  unfolding destroy_children_def
  by (intro keeps_rules; (assumption | simp))

subsection \<open>The order of the steps when a device is destroyed\<close>

lemma trace_kref_put_adapter:
  "trace (kref_put_adapter a v) =
    trace v @ (if adapter_kref (adapters v a) - 1 = 0 then [Vfree (Adapter a)] else [])"
  by (simp add: kref_put_adapter_def dxgadapter_release_def Let_def)

lemma trace_kref_put_device:
  "trace (kref_put_device d v) =
    trace v @ (if device_kref (devices v d) - 1 = 0 then [Vfree (Device d)] else [])"
  by (simp add: kref_put_device_def dxgdevice_release_def Let_def)

lemma trace_dxgprocess_adapter_remove_device:
  "trace (dxgprocess_adapter_remove_device d v) =
    trace v @ [Mutex_lock (Device_list_mutex (device_adapter_info (devices v d))),
               Mutex_unlock (Device_list_mutex (device_adapter_info (devices v d)))]"
  by (simp add: dxgprocess_adapter_remove_device_def Let_def)

text \<open>The code behind the \<^verbatim>\<open>cleanup\<close> label sends nothing and gives the lock back.\<close>

lemma cleanup_events:
  "\<exists>post.
     trace (kref_put_device d (emit (Up_write (Device_lock d))
        (case device_adapter (devices v d) of
           Some a \<Rightarrow> kref_put_adapter a (dxgprocess_adapter_remove_device d v)
         | None \<Rightarrow> v))) = trace v @ post \<and>
     (\<forall>c. Host_rpc c \<notin> set post) \<and> Down_write (Device_lock d) \<notin> set post \<and>
     (\<forall>p t h. Hmgrtable_free_handle p t h \<notin> set post)"
  by (simp add: trace_kref_put_device trace_kref_put_adapter
      trace_dxgprocess_adapter_remove_device split: option.splits)

lemma trace_hmgrtable_free_handle:
  "trace (hmgrtable_free_handle p t h v) = trace v @ [Hmgrtable_free_handle p t h]"
  by (simp add: hmgrtable_free_handle_def Let_def split: option.splits)

lemma trace_dxgvmb_send_destroy_device:
  "trace (snd (dxgvmb_send_destroy_device a p h v)) =
    trace v @ (if fst (vzalloc v) then [Host_rpc (DXGK_VMBCOMMAND_DESTROYDEVICE h)] else [])"
  by (simp add: dxgvmb_send_destroy_device_def split_beta ENOMEM_def)

text \<open>
  The second part of the destroy: when it sends the destroy-device message, its events
  are these eight.
\<close>

lemma release_handles_events:
  "\<exists>rel.
     trace (release_handles p oa d v) = trace v @ rel \<and>
     (Host_rpc (DXGK_VMBCOMMAND_DESTROYDEVICE h) \<in> set rel \<longrightarrow>
        (\<exists>a. oa = Some a \<and>
           rel = [Down_write (Handle_table_lock p),
                  Hmgrtable_free_handle p HMGRENTRY_TYPE_DXGDEVICE h,
                  Up_write (Handle_table_lock p),
                  Up_write (Device_lock d),
                  Down_read (Core_lock a),
                  Host_rpc (DXGK_VMBCOMMAND_DESTROYDEVICE h),
                  Up_read (Core_lock a),
                  Down_write (Device_lock d)]))"
proof -
  define w1 where "w1 = hmgrtable_lock p v"
  define valid where "valid = device_handle_valid (devices w1 d)"
  define hv where "hv = (if valid then device_handle (devices w1 d) else 0)"
  define w3 where "w3 = hmgrtable_unlock p
    (if valid
     then upd_device d (\<lambda>y. y\<lparr>device_handle_valid := False\<rparr>)
            (hmgrtable_free_handle p HMGRENTRY_TYPE_DXGDEVICE (device_handle (devices w1 d)) w1)
     else w1)"
  define w4 where "w4 = emit (Up_write (Device_lock d)) w3"
  define w6 where "w6 =
    (case oa of
       None \<Rightarrow> w4\<lparr>fault := True\<rparr>
     | Some a \<Rightarrow>
         (case dxgadapter_acquire_lock_shared a w4 of
            (ret, w5) \<Rightarrow>
              if ret = 0
              then dxgadapter_release_lock_shared a
                     (snd (dxgvmb_send_destroy_device a p hv w5))
              else w5))"
  have unfold: "release_handles p oa d v = (if hv \<noteq> 0 then emit (Down_write (Device_lock d)) w6 else w3)"
    unfolding release_handles_def Let_def w6_def w4_def w3_def hv_def valid_def w1_def
    by (rule refl)
  have first: "trace w3 = trace v @ Down_write (Handle_table_lock p) #
      (if valid then [Hmgrtable_free_handle p HMGRENTRY_TYPE_DXGDEVICE hv] else []) @
      [Up_write (Handle_table_lock p)]"
    by (simp add: w3_def w1_def hv_def hmgrtable_lock_def hmgrtable_unlock_def
        trace_hmgrtable_free_handle)
  have "\<exists>mid. trace w6 = trace w4 @ mid \<and>
      (Host_rpc (DXGK_VMBCOMMAND_DESTROYDEVICE h) \<in> set mid \<longrightarrow>
        (\<exists>a. oa = Some a \<and> hv = h \<and>
           mid = [Down_read (Core_lock a), Host_rpc (DXGK_VMBCOMMAND_DESTROYDEVICE h),
                  Up_read (Core_lock a)]))"
  proof (cases oa)
    case None
    then show ?thesis
      by (simp add: w6_def)
  next
    case (Some a)
    then show ?thesis
      by (simp add: w6_def dxgadapter_acquire_lock_shared_def
          dxgadapter_release_lock_shared_def trace_dxgvmb_send_destroy_device Let_def
          ENODEV_def)
  qed
  then obtain mid where mid: "trace w6 = trace w4 @ mid"
    and sent: "Host_rpc (DXGK_VMBCOMMAND_DESTROYDEVICE h) \<in> set mid \<Longrightarrow>
      \<exists>a. oa = Some a \<and> hv = h \<and>
        mid = [Down_read (Core_lock a), Host_rpc (DXGK_VMBCOMMAND_DESTROYDEVICE h),
               Up_read (Core_lock a)]"
    by blast
  show ?thesis
  proof (cases "hv = 0")
    case True
    then show ?thesis
      using first by (auto simp add: unfold)
  next
    case False
    then have valid
      by (simp add: hv_def split: if_splits)
    let ?rel = "Down_write (Handle_table_lock p) #
      Hmgrtable_free_handle p HMGRENTRY_TYPE_DXGDEVICE hv #
      Up_write (Handle_table_lock p) # Up_write (Device_lock d) # mid @
      [Down_write (Device_lock d)]"
    have rel: "trace (release_handles p oa d v) = trace v @ ?rel"
      using False \<open>valid\<close> by (simp add: unfold mid w4_def first)
    have "\<exists>a. oa = Some a \<and> ?rel =
        [Down_write (Handle_table_lock p), Hmgrtable_free_handle p HMGRENTRY_TYPE_DXGDEVICE h,
         Up_write (Handle_table_lock p), Up_write (Device_lock d), Down_read (Core_lock a),
         Host_rpc (DXGK_VMBCOMMAND_DESTROYDEVICE h), Up_read (Core_lock a),
         Down_write (Device_lock d)]"
      if "Host_rpc (DXGK_VMBCOMMAND_DESTROYDEVICE h) \<in> set ?rel"
    proof -
      from that have "Host_rpc (DXGK_VMBCOMMAND_DESTROYDEVICE h) \<in> set mid"
        by simp
      from sent [OF this] show ?thesis
        by auto
    qed
    with rel show ?thesis
      by blast
  qed
qed

text \<open>
  Claim C4. Whenever \<^verbatim>\<open>dxgdevice_destroy\<close> sends the destroy-device message for a
  handle \<open>h\<close>, the device has an adapter \<open>a\<close> and the events of the call are: the
  device lock is taken; the children are torn down, with the lock held and without a
  destroy-device message; the handle \<open>h\<close> is freed from the handle table of the
  process, under the lock of the table; the device lock is released; the message is
  sent under the shared lock of the adapter; the device lock is taken again; and what
  follows sends nothing to the host and does not take the device lock once more.
\<close>

theorem device_handle_freed_before_host_is_told:
  assumes "Host_rpc (DXGK_VMBCOMMAND_DESTROYDEVICE h) \<in> set (new_events w (dxgdevice_destroy d w))"
  shows "\<exists>a es post.
     device_adapter (devices w d) = Some a \<and>
     new_events w (dxgdevice_destroy d w) =
       Down_write (Device_lock d) # es @
       [Down_write (Handle_table_lock (device_process (devices w d))),
        Hmgrtable_free_handle (device_process (devices w d)) HMGRENTRY_TYPE_DXGDEVICE h,
        Up_write (Handle_table_lock (device_process (devices w d))),
        Up_write (Device_lock d),
        Down_read (Core_lock a),
        Host_rpc (DXGK_VMBCOMMAND_DESTROYDEVICE h),
        Up_read (Core_lock a),
        Down_write (Device_lock d)] @ post \<and>
     Up_write (Device_lock d) \<notin> set es \<and> Down_write (Device_lock d) \<notin> set es \<and>
     Host_rpc (DXGK_VMBCOMMAND_DESTROYDEVICE h) \<notin> set es \<and>
     Hmgrtable_free_handle (device_process (devices w d)) HMGRENTRY_TYPE_DXGDEVICE h \<notin> set post \<and>
     (\<forall>c. Host_rpc c \<notin> set post) \<and> Down_write (Device_lock d) \<notin> set post"
proof -
  let ?p = "device_process (devices w d)"
  let ?oa = "device_adapter (devices w d)"
  let ?rpc = "Host_rpc (DXGK_VMBCOMMAND_DESTROYDEVICE h)"
  define w1 where "w1 = emit (Down_write (Device_lock d)) w"
  define w2 where "w2 =
    (if device_object_state (devices w1 d) \<noteq> DXGOBJECTSTATE_ACTIVE then w1
     else release_handles ?p ?oa d (destroy_children ?p d w1))"
  have destroy: "dxgdevice_destroy d w =
      kref_put_device d (emit (Up_write (Device_lock d))
        (case device_adapter (devices w2 d) of
           Some a \<Rightarrow> kref_put_adapter a (dxgprocess_adapter_remove_device d w2)
         | None \<Rightarrow> w2))"
    unfolding dxgdevice_destroy_def Let_def w2_def w1_def by (rule refl)
  obtain post where post: "trace (dxgdevice_destroy d w) = trace w2 @ post"
    and quiet: "\<And>c. Host_rpc c \<notin> set post" "Down_write (Device_lock d) \<notin> set post"
      "Hmgrtable_free_handle ?p HMGRENTRY_TYPE_DXGDEVICE h \<notin> set post"
    unfolding destroy using cleanup_events [of d w2] by blast
  have w1: "trace w1 = trace w @ [Down_write (Device_lock d)]"
    by (simp add: w1_def)
  show ?thesis
  proof (cases "device_object_state (devices w1 d) \<noteq> DXGOBJECTSTATE_ACTIVE")
    case True
    then have "w2 = w1"
      by (simp add: w2_def)
    with post w1 have "new_events w (dxgdevice_destroy d w) = Down_write (Device_lock d) # post"
      by (simp add: new_events_def)
    with assms quiet(1) show ?thesis
      by simp
  next
    case False
    then have w2: "w2 = release_handles ?p ?oa d (destroy_children ?p d w1)"
      by (simp add: w2_def)
    have "keeps 3 UNIV UNIV w1 (destroy_children ?p d w1)"
      by (rule keeps_destroy_children) (rule keeps_refl)
    then obtain es where es: "trace (destroy_children ?p d w1) = trace w1 @ es"
      and children: "list_all child_event es"
      unfolding keeps_def events_added_def by blast
    from children have no_lock: "Up_write (Device_lock d) \<notin> set es"
        "Down_write (Device_lock d) \<notin> set es" "?rpc \<notin> set es"
      by (auto simp add: list_all_iff)
    obtain rel where rel: "trace w2 = trace (destroy_children ?p d w1) @ rel"
      and sent: "?rpc \<in> set rel \<Longrightarrow> \<exists>a. ?oa = Some a \<and>
        rel = [Down_write (Handle_table_lock ?p),
               Hmgrtable_free_handle ?p HMGRENTRY_TYPE_DXGDEVICE h,
               Up_write (Handle_table_lock ?p), Up_write (Device_lock d),
               Down_read (Core_lock a), ?rpc, Up_read (Core_lock a),
               Down_write (Device_lock d)]"
      unfolding w2 using release_handles_events [of ?p ?oa d "destroy_children ?p d w1" h]
      by blast
    have events: "new_events w (dxgdevice_destroy d w) =
        Down_write (Device_lock d) # es @ rel @ post"
      by (simp add: new_events_def post rel es w1)
    with assms no_lock(3) quiet(1) have "?rpc \<in> set rel"
      by auto
    from sent [OF this] obtain a where a: "?oa = Some a"
      and rel_eq: "rel = [Down_write (Handle_table_lock ?p),
               Hmgrtable_free_handle ?p HMGRENTRY_TYPE_DXGDEVICE h,
               Up_write (Handle_table_lock ?p), Up_write (Device_lock d),
               Down_read (Core_lock a), ?rpc, Up_read (Core_lock a),
               Down_write (Device_lock d)]"
      by blast
    show ?thesis
      apply (rule exI [of _ a])
      apply (rule exI [of _ es])
      apply (rule exI [of _ post])
      using a events no_lock quiet unfolding rel_eq
      apply simp
      done
  qed
qed

theorem device_handle_freed_before_host_is_told_witness:
  "Host_rpc (DXGK_VMBCOMMAND_DESTROYDEVICE 16) \<in>
     set (new_events context_world (dxgdevice_destroy 2 context_world)) \<and>
   (\<exists>a es post.
     device_adapter (devices context_world 2) = Some a \<and>
     new_events context_world (dxgdevice_destroy 2 context_world) =
       Down_write (Device_lock 2) # es @
       [Down_write (Handle_table_lock (device_process (devices context_world 2))),
        Hmgrtable_free_handle (device_process (devices context_world 2))
          HMGRENTRY_TYPE_DXGDEVICE 16,
        Up_write (Handle_table_lock (device_process (devices context_world 2))),
        Up_write (Device_lock 2),
        Down_read (Core_lock a),
        Host_rpc (DXGK_VMBCOMMAND_DESTROYDEVICE 16),
        Up_read (Core_lock a),
        Down_write (Device_lock 2)] @ post \<and>
     Up_write (Device_lock 2) \<notin> set es \<and> Down_write (Device_lock 2) \<notin> set es \<and>
     Host_rpc (DXGK_VMBCOMMAND_DESTROYDEVICE 16) \<notin> set es \<and>
     Hmgrtable_free_handle (device_process (devices context_world 2))
       HMGRENTRY_TYPE_DXGDEVICE 16 \<notin> set post \<and>
     (\<forall>c. Host_rpc c \<notin> set post) \<and> Down_write (Device_lock 2) \<notin> set post)"
proof -
  have sent: "Host_rpc (DXGK_VMBCOMMAND_DESTROYDEVICE 16) \<in>
      set (new_events context_world (dxgdevice_destroy 2 context_world))"
    by code_simp
  from sent device_handle_freed_before_host_is_told [OF sent] show ?thesis
    by (rule conjI)
qed

subsection \<open>The references an object holds on its parent\<close>

lemma keepsD:
  assumes "keeps l X Y w v"
  shows "adapters v = adapters w"
    and "device_adapter (devices v d) = device_adapter (devices w d)"
    and "device_process (devices v d) = device_process (devices w d)"
    and "l < 1 \<Longrightarrow> device_kref (devices v d) = device_kref (devices w d)"
    and "l < 1 \<Longrightarrow> alloc_list_head (devices v d) = alloc_list_head (devices w d)"
    and "l < 2 \<Longrightarrow> resource_list_head (devices v d) = resource_list_head (devices w d)"
    and "l < 3 \<Longrightarrow> context_list_head (devices v d) = context_list_head (devices w d)"
    and "context_device (contexts v c) = context_device (contexts w c)"
    and "resource_device (resources v r) = resource_device (resources w r)"
    and "set (resource_alloc_list_head (resources v r)) \<subseteq>
           set (resource_alloc_list_head (resources w r))"
    and "r \<notin> Y \<Longrightarrow> resource_list_entry (resources v r) = resource_list_entry (resources w r)"
    and "r \<notin> Y \<Longrightarrow> resource_destroyed (resources v r) = resource_destroyed (resources w r)"
    and "owner (allocations v x) = owner (allocations w x)"
    and "resource_owner (allocations v x) = resource_owner (allocations w x)"
    and "x \<notin> X \<Longrightarrow> alloc_list_entry (allocations v x) = alloc_list_entry (allocations w x)"
  using assms unfolding keeps_def kept_defs by simp_all

text \<open>
  An allocation that belongs to a device releases one reference on the device when it
  is destroyed, if it is on the list of the device.
\<close>

lemma dxgallocation_destroy_device_owned:
  assumes "owner (allocations v x) = Some d" and "\<not> resource_owner (allocations v x)"
    and "alloc_list_entry (allocations v x)"
  shows "device_kref (devices (dxgallocation_destroy x v) d') =
    device_kref (devices v d') - (if d' = d then 1 else 0)"
proof -
  define tail where "tail = (\<lambda>w2.
    let w3 = dxgallocation_free_handle x w2;
        w4 = (if alloc_handle (allocations w3 x) \<noteq> 0 \<and> \<not> resource_owner (allocations w3 x) then
                (case owner (allocations w3 x) of
                   Some d \<Rightarrow>
                     snd (dxgvmb_send_destroy_allocation (device_handle (devices w3 d)) 0
                            [alloc_handle (allocations w3 x)] False w3)
                 | None \<Rightarrow> w3\<lparr>fault := True\<rparr>)
              else w3);
        w5 = (if gpadl_handle (allocations w4 x) \<noteq> 0
              then upd_allocation x (\<lambda>y. y\<lparr>gpadl_handle := 0\<rparr>)
                     (emit (Vmbus_teardown_gpadl (gpadl_handle (allocations w4 x))) w4)
              else w4);
        w6 = (if alloc_priv_drv_data (allocations w5 x)
              then emit (Vfree (Allocation_priv_drv_data x)) w5 else w5);
        w7 = (if cpu_address_mapped (allocations w6 x)
              then emit (Printk ''Alloc IO space is mapped'') w6 else w6)
    in emit (Vfree (Allocation x)) w7)"
  define v1 where "v1 = dxgallocation_stop x v"
  have stop: "keeps 0 {} {} v v1"
    unfolding v1_def by (rule keeps_dxgallocation_stop) (rule keeps_refl)
  have v1: "owner (allocations v1 x) = Some d" "\<not> resource_owner (allocations v1 x)"
    "alloc_list_entry (allocations v1 x)"
    using assms keepsD(13-15) [OF stop, of x] by simp_all
  have "dxgallocation_destroy x v =
      tail (if resource_owner (allocations v1 x) then
              (case owner (allocations v1 x) of
                 Some r \<Rightarrow> dxgresource_remove_alloc r x v1
               | None \<Rightarrow> upd_allocation x (\<lambda>y. y\<lparr>alloc_list_entry := False\<rparr>) v1)
            else
              (case owner (allocations v1 x) of
                 Some d \<Rightarrow> dxgdevice_remove_alloc d x v1
               | None \<Rightarrow> v1))"
    unfolding dxgallocation_destroy_def tail_def v1_def Let_def by (rule refl)
  then have unfold: "dxgallocation_destroy x v = tail (dxgdevice_remove_alloc d x v1)"
    by (simp add: v1)
  have tail: "keeps 0 {} {} u (tail u)" for u
    unfolding tail_def by (intro keeps_rules; (rule keeps_refl | assumption | simp))
  have "device_kref (devices (dxgallocation_destroy x v) d') =
      device_kref (devices (dxgdevice_remove_alloc d x v1) d')"
    unfolding unfold by (rule keepsD(4) [OF tail]) simp
  also have "\<dots> = device_kref (devices v1 d') - (if d' = d then 1 else 0)"
    using v1(3)
    by (simp add: dxgdevice_remove_alloc_def kref_put_device_def dxgdevice_release_def Let_def)
  also have "device_kref (devices v1 d') = device_kref (devices v d')"
    by (rule keepsD(4) [OF stop]) simp
  finally show ?thesis .
qed

lemma fold_dxgallocation_destroy_device_owned:
  assumes "distinct xs"
    and "\<forall>x\<in>set xs. owner (allocations v x) = Some d \<and> \<not> resource_owner (allocations v x) \<and>
      alloc_list_entry (allocations v x)"
  shows "keeps 1 (set xs) {} v (fold dxgallocation_destroy xs v) \<and>
    (\<forall>d'. device_kref (devices (fold dxgallocation_destroy xs v) d') =
      device_kref (devices v d') - (if d' = d then int (length xs) else 0))"
  using assms
proof (induction xs arbitrary: v)
  case Nil
  show ?case
    by (simp add: keeps_refl)
next
  case (Cons x xs)
  let ?v = "dxgallocation_destroy x v"
  have step: "keeps 1 {x} {} v ?v"
    by (rule keeps_dxgallocation_destroy) (simp_all add: keeps_refl)
  from Cons.prems have x: "owner (allocations v x) = Some d" "\<not> resource_owner (allocations v x)"
    "alloc_list_entry (allocations v x)"
    by simp_all
  have count: "device_kref (devices ?v d') = device_kref (devices v d') - (if d' = d then 1 else 0)"
    for d'
    by (rule dxgallocation_destroy_device_owned [OF x])
  have rest: "\<forall>y\<in>set xs. owner (allocations ?v y) = Some d \<and> \<not> resource_owner (allocations ?v y) \<and>
      alloc_list_entry (allocations ?v y)"
  proof
    fix y
    assume y: "y \<in> set xs"
    with Cons.prems(1) have "y \<notin> {x}"
      by auto
    from keepsD(13,14) [OF step, of y] keepsD(15) [OF step this] Cons.prems(2) y
    show "owner (allocations ?v y) = Some d \<and> \<not> resource_owner (allocations ?v y) \<and>
      alloc_list_entry (allocations ?v y)"
      by simp
  qed
  from Cons.prems(1) have "distinct xs"
    by simp
  from Cons.IH [OF this rest]
  have ih: "keeps 1 (set xs) {} ?v (fold dxgallocation_destroy xs ?v)"
    and kref: "\<And>d'. device_kref (devices (fold dxgallocation_destroy xs ?v) d') =
      device_kref (devices ?v d') - (if d' = d then int (length xs) else 0)"
    by simp_all
  have "keeps 1 (set (x # xs)) {} v (fold dxgallocation_destroy xs ?v)"
    by (rule keeps_trans [OF keeps_mono [OF step] keeps_mono [OF ih]]) auto
  then show ?case
    by (simp add: kref count)
qed

text \<open>
  An allocation that belongs to a resource leaves the reference counts and the lists
  of the devices alone when it is destroyed.
\<close>

lemma keeps_dxgallocation_destroy_resource_owned:
  "keeps 0 X Y w v \<Longrightarrow> x \<in> X \<Longrightarrow> resource_owner (allocations w x) \<Longrightarrow>
   keeps 0 X Y w (dxgallocation_destroy x v)"
  unfolding dxgallocation_destroy_def
  by (intro keeps_rules; (assumption | simp add: keeps_def kept_defs))

text \<open>
  A resource on the list of a device releases one reference on the device when it is
  destroyed, if its allocations belong to resources.
\<close>

lemma dxgresource_destroy_listed:
  assumes "resource_device (resources v r) = d" and "resource_list_entry (resources v r)"
    and "\<not> resource_destroyed (resources v r)"
    and "\<forall>x\<in>set (resource_alloc_list_head (resources v r)). resource_owner (allocations v x)"
  shows "device_kref (devices (dxgresource_destroy r v) d') =
    device_kref (devices v d') - (if d' = d then 1 else 0)"
proof -
  define tail where "tail = (\<lambda>w4. kref_put_resource r
    (case shared_owner (resources w4 r) of
       Some s \<Rightarrow>
         upd_resource r (\<lambda>y. y\<lparr>shared_owner := None\<rparr>)
           (dxgsharedresource_remove_resource s r w4)
     | None \<Rightarrow> w4))"
  define w0 where "w0 = upd_resource r (\<lambda>y. y\<lparr>resource_destroyed := True\<rparr>) v"
  define w1 where "w1 = dxgresource_free_handle r w0"
  define w2 where "w2 =
    (if resource_handle (resources w1 r) \<noteq> 0
     then upd_resource r (\<lambda>y. y\<lparr>resource_handle := 0\<rparr>)
            (snd (dxgvmb_send_destroy_allocation
               (device_handle (devices w1 (resource_device (resources w0 r))))
               (resource_handle (resources w1 r)) [] False w1))
     else w1)"
  define w3 where "w3 = fold dxgallocation_destroy (resource_alloc_list_head (resources w2 r)) w2"
  have "dxgresource_destroy r v = kref_put_resource r
      (if \<not> resource_destroyed (resources v r)
       then case shared_owner
                   (resources (dxgdevice_remove_resource (resource_device (resources w0 r)) r w3) r) of
              Some s \<Rightarrow>
                upd_resource r (\<lambda>y. y\<lparr>shared_owner := None\<rparr>)
                  (dxgsharedresource_remove_resource s r
                     (dxgdevice_remove_resource (resource_device (resources w0 r)) r w3))
            | None \<Rightarrow> dxgdevice_remove_resource (resource_device (resources w0 r)) r w3
       else w0)"
    unfolding dxgresource_destroy_def Let_def w3_def w2_def w1_def w0_def by (rule refl)
  moreover have "resource_device (resources w0 r) = d"
    using assms(1) by (simp add: w0_def)
  ultimately have unfold: "dxgresource_destroy r v = tail (dxgdevice_remove_resource d r w3)"
    using assms(3) by (simp add: tail_def cong: option.case_cong)
  have tail: "keeps 0 UNIV {} u (tail u)" for u
    unfolding tail_def by (intro keeps_rules; (rule keeps_refl | assumption | simp))
  have 0: "keeps 0 UNIV {r} v w0"
    unfolding w0_def by (intro keeps_rules; (rule keeps_refl | simp))
  have 1: "keeps 0 UNIV {} w0 w1"
    unfolding w1_def by (intro keeps_rules; (rule keeps_refl | simp))
  have 2: "keeps 0 UNIV {} w1 w2"
    unfolding w2_def by (intro keeps_rules; (rule keeps_refl | simp))
  have 02: "keeps 0 UNIV {} w0 w2"
    by (rule keeps_trans [OF 1 2])
  have v2: "keeps 0 UNIV {r} v w2"
    by (rule keeps_trans [OF 0 keeps_mono [OF 02]]) simp_all
  have owned: "resource_owner (allocations w2 x)"
    if "x \<in> set (resource_alloc_list_head (resources w2 r))" for x
  proof -
    from that keepsD(10) [OF v2, of r] have "x \<in> set (resource_alloc_list_head (resources v r))"
      by blast
    with assms(4) keepsD(14) [OF v2, of x] show ?thesis
      by simp
  qed
  have 3: "keeps 0 UNIV {} w2 w3"
    unfolding w3_def
    by (rule keeps_fold [OF keeps_refl])
      (rule keeps_dxgallocation_destroy_resource_owned, assumption, simp, rule owned)
  have 03: "keeps 0 UNIV {} w0 w3"
    by (rule keeps_trans [OF 02 3])
  have entry: "resource_list_entry (resources w3 r)"
    using keepsD(11) [OF 03, of r] assms(2) by (simp add: w0_def)
  have "device_kref (devices (dxgresource_destroy r v) d') =
      device_kref (devices (dxgdevice_remove_resource d r w3) d')"
    unfolding unfold by (rule keepsD(4) [OF tail]) simp
  also have "\<dots> = device_kref (devices w3 d') - (if d' = d then 1 else 0)"
    using entry
    by (simp add: dxgdevice_remove_resource_def kref_put_device_def dxgdevice_release_def Let_def)
  also have "device_kref (devices w3 d') = device_kref (devices w0 d')"
    by (rule keepsD(4) [OF 03]) simp
  also have "\<dots> = device_kref (devices v d')"
    by (simp add: w0_def)
  finally show ?thesis .
qed

lemma fold_dxgresource_destroy_listed:
  assumes "distinct rs"
    and "\<forall>r\<in>set rs. resource_device (resources v r) = d \<and> resource_list_entry (resources v r) \<and>
      \<not> resource_destroyed (resources v r) \<and>
      (\<forall>x\<in>set (resource_alloc_list_head (resources v r)). resource_owner (allocations v x))"
  shows "keeps 2 UNIV (set rs) v (fold dxgresource_destroy rs v) \<and>
    (\<forall>d'. device_kref (devices (fold dxgresource_destroy rs v) d') =
      device_kref (devices v d') - (if d' = d then int (length rs) else 0))"
  using assms
proof (induction rs arbitrary: v)
  case Nil
  show ?case
    by (simp add: keeps_refl)
next
  case (Cons r rs)
  let ?v = "dxgresource_destroy r v"
  have step: "keeps 2 UNIV {r} v ?v"
    by (rule keeps_dxgresource_destroy) (simp_all add: keeps_refl)
  from Cons.prems have r: "resource_device (resources v r) = d" "resource_list_entry (resources v r)"
    "\<not> resource_destroyed (resources v r)"
    "\<forall>x\<in>set (resource_alloc_list_head (resources v r)). resource_owner (allocations v x)"
    by simp_all
  have count: "device_kref (devices ?v d') = device_kref (devices v d') - (if d' = d then 1 else 0)"
    for d'
    by (rule dxgresource_destroy_listed [OF r])
  have rest: "\<forall>q\<in>set rs. resource_device (resources ?v q) = d \<and>
      resource_list_entry (resources ?v q) \<and> \<not> resource_destroyed (resources ?v q) \<and>
      (\<forall>x\<in>set (resource_alloc_list_head (resources ?v q)). resource_owner (allocations ?v x))"
  proof
    fix q
    assume q: "q \<in> set rs"
    with Cons.prems(1) have other: "q \<notin> {r}"
      by auto
    from q Cons.prems(2) have before: "resource_device (resources v q) = d"
      "resource_list_entry (resources v q)" "\<not> resource_destroyed (resources v q)"
      "\<forall>x\<in>set (resource_alloc_list_head (resources v q)). resource_owner (allocations v x)"
      by simp_all
    have "resource_owner (allocations ?v x)"
      if "x \<in> set (resource_alloc_list_head (resources ?v q))" for x
    proof -
      from that keepsD(10) [OF step, of q]
      have "x \<in> set (resource_alloc_list_head (resources v q))"
        by blast
      with before(4) keepsD(14) [OF step, of x] show ?thesis
        by simp
    qed
    with before(1-3) keepsD(9) [OF step, of q] keepsD(11,12) [OF step other]
    show "resource_device (resources ?v q) = d \<and>
      resource_list_entry (resources ?v q) \<and> \<not> resource_destroyed (resources ?v q) \<and>
      (\<forall>x\<in>set (resource_alloc_list_head (resources ?v q)). resource_owner (allocations ?v x))"
      by simp
  qed
  from Cons.prems(1) have "distinct rs"
    by simp
  from Cons.IH [OF this rest]
  have ih: "keeps 2 UNIV (set rs) ?v (fold dxgresource_destroy rs ?v)"
    and kref: "\<And>d'. device_kref (devices (fold dxgresource_destroy rs ?v) d') =
      device_kref (devices ?v d') - (if d' = d then int (length rs) else 0)"
    by simp_all
  have "keeps 2 UNIV (set (r # rs)) v (fold dxgresource_destroy rs ?v)"
    by (rule keeps_trans [OF keeps_mono [OF step] keeps_mono [OF ih]]) auto
  then show ?case
    by (simp add: kref count)
qed

text \<open>A context releases one reference on its device when it is destroyed.\<close>

lemma dxgcontext_destroy_releases:
  assumes "context_device (contexts v c) = Some d"
  shows "device_kref (devices (dxgcontext_destroy p c v) d') =
    device_kref (devices v d') - (if d' = d then 1 else 0)"
proof -
  define w1 where "w1 = upd_context c (\<lambda>y. y\<lparr>context_object_state := DXGOBJECTSTATE_DESTROYED\<rparr>) v"
  define w2 where "w2 =
    (if context_handle (contexts w1 c) \<noteq> 0
     then hmgrtable_free_handle_safe p HMGRENTRY_TYPE_DXGCONTEXT (context_handle (contexts w1 c)) w1
     else w1)"
  have "dxgcontext_destroy p c v = kref_put_context c
      (case context_device (contexts w1 c) of
         Some d \<Rightarrow> kref_put_device d (dxgdevice_remove_context d c w2)
       | None \<Rightarrow> w1)"
    unfolding dxgcontext_destroy_def Let_def w2_def w1_def by (rule refl)
  moreover have "context_device (contexts w1 c) = Some d"
    using assms by (simp add: w1_def)
  ultimately have unfold: "dxgcontext_destroy p c v =
      kref_put_context c (kref_put_device d (dxgdevice_remove_context d c w2))"
    by simp
  have 2: "keeps 0 {} {} w1 w2"
    unfolding w2_def by (intro keeps_rules; (rule keeps_refl | simp))
  have "device_kref (devices (dxgcontext_destroy p c v) d') =
      device_kref (devices w2 d') - (if d' = d then 1 else 0)"
    unfolding unfold
    by (simp add: kref_put_context_def dxgcontext_release_def kref_put_device_def
        dxgdevice_release_def dxgdevice_remove_context_def Let_def)
  also have "device_kref (devices w2 d') = device_kref (devices w1 d')"
    by (rule keepsD(4) [OF 2]) simp
  also have "\<dots> = device_kref (devices v d')"
    by (simp add: w1_def)
  finally show ?thesis .
qed

lemma fold_dxgcontext_destroy_releases:
  assumes "\<forall>c\<in>set cs. context_device (contexts v c) = Some d"
  shows "device_kref (devices (fold (dxgcontext_destroy p) cs v) d') =
    device_kref (devices v d') - (if d' = d then int (length cs) else 0)"
  using assms
proof (induction cs arbitrary: v)
  case Nil
  show ?case
    by simp
next
  case (Cons c cs)
  let ?v = "dxgcontext_destroy p c v"
  have step: "keeps 3 {} {} v ?v"
    by (rule keeps_dxgcontext_destroy) (simp_all add: keeps_refl)
  from Cons.prems have "context_device (contexts v c) = Some d"
    by simp
  then have count: "device_kref (devices ?v d') =
      device_kref (devices v d') - (if d' = d then 1 else 0)"
    by (rule dxgcontext_destroy_releases)
  have "\<forall>q\<in>set cs. context_device (contexts ?v q) = Some d"
    using Cons.prems keepsD(8) [OF step] by simp
  from Cons.IH [OF this] show ?case
    by (simp add: count)
qed

text \<open>
  The children of a device as the functions that add them leave them: every context
  on the list of the device points to the device; every allocation on its list
  belongs to the device and is linked; every resource on its list belongs to the
  device, is linked and not destroyed, and the allocations of the resource are marked
  as belonging to a resource.
\<close>

definition device_children_linked :: "world \<Rightarrow> ptr \<Rightarrow> bool" where
  "device_children_linked w d \<longleftrightarrow>
    (\<forall>c\<in>set (context_list_head (devices w d)). context_device (contexts w c) = Some d) \<and>
    distinct (alloc_list_head (devices w d)) \<and>
    (\<forall>x\<in>set (alloc_list_head (devices w d)).
       owner (allocations w x) = Some d \<and> \<not> resource_owner (allocations w x) \<and>
       alloc_list_entry (allocations w x)) \<and>
    distinct (resource_list_head (devices w d)) \<and>
    (\<forall>r\<in>set (resource_list_head (devices w d)).
       resource_device (resources w r) = d \<and> resource_list_entry (resources w r) \<and>
       \<not> resource_destroyed (resources w r) \<and>
       (\<forall>x\<in>set (resource_alloc_list_head (resources w r)). resource_owner (allocations w x)))"

lemma destroy_children_releases:
  assumes "device_children_linked v d"
  shows "device_kref (devices (destroy_children p d v) d) =
    device_kref (devices v d) - int (length (alloc_list_head (devices v d))) -
    int (length (resource_list_head (devices v d))) -
    int (length (context_list_head (devices v d)))"
proof -
  define w3 where "w3 = dxgdevice_acquire_alloc_list_lock d (dxgdevice_stop d
    (upd_device d (\<lambda>y. y\<lparr>device_object_state := DXGOBJECTSTATE_DESTROYED\<rparr>) v))"
  define w4 where "w4 = destroy_syncobjects d (syncobj_list_head (devices w3 d)) w3"
  define w5 where "w5 = fold dxgallocation_destroy (alloc_list_head (devices w4 d)) w4"
  define w6 where "w6 = fold dxgresource_destroy (resource_list_head (devices w5 d)) w5"
  define w8 where "w8 = dxgdevice_acquire_context_list_lock d
    (dxgdevice_release_alloc_list_lock d w6)"
  define w9 where "w9 = fold (dxgcontext_destroy p) (context_list_head (devices w8 d)) w8"
  have unfold: "destroy_children p d v = dxgdevice_release_context_list_lock d w9"
    unfolding destroy_children_def Let_def w9_def w8_def w6_def w5_def w4_def w3_def
    by (rule refl)
  let ?xs = "alloc_list_head (devices v d)"
  let ?rs = "resource_list_head (devices v d)"
  let ?cs = "context_list_head (devices v d)"
  from assms have linked:
    "\<forall>c\<in>set ?cs. context_device (contexts v c) = Some d"
    "distinct ?xs"
    "\<forall>x\<in>set ?xs. owner (allocations v x) = Some d \<and> \<not> resource_owner (allocations v x) \<and>
       alloc_list_entry (allocations v x)"
    "distinct ?rs"
    "\<forall>r\<in>set ?rs. resource_device (resources v r) = d \<and> resource_list_entry (resources v r) \<and>
       \<not> resource_destroyed (resources v r) \<and>
       (\<forall>x\<in>set (resource_alloc_list_head (resources v r)). resource_owner (allocations v x))"
    unfolding device_children_linked_def by simp_all
  have 4: "keeps 0 {} {} v w4"
    unfolding w4_def w3_def by (intro keeps_rules; (rule keeps_refl | simp))
  have xs: "alloc_list_head (devices w4 d) = ?xs"
    by (rule keepsD(5) [OF 4]) simp
  have "\<forall>x\<in>set ?xs. owner (allocations w4 x) = Some d \<and> \<not> resource_owner (allocations w4 x) \<and>
      alloc_list_entry (allocations w4 x)"
    using linked(3) keepsD(13,14) [OF 4] keepsD(15) [OF 4] by simp
  from fold_dxgallocation_destroy_device_owned [OF linked(2) this]
  have 5: "keeps 1 (set ?xs) {} w4 w5"
    and k5: "device_kref (devices w5 d) = device_kref (devices w4 d) - int (length ?xs)"
    unfolding w5_def xs by simp_all
  have 45: "keeps 1 (set ?xs) {} v w5"
    by (rule keeps_trans [OF keeps_mono [OF 4] 5]) simp_all
  have rs: "resource_list_head (devices w5 d) = ?rs"
    by (rule keepsD(6) [OF 45]) simp
  have "\<forall>r\<in>set ?rs. resource_device (resources w5 r) = d \<and> resource_list_entry (resources w5 r) \<and>
      \<not> resource_destroyed (resources w5 r) \<and>
      (\<forall>x\<in>set (resource_alloc_list_head (resources w5 r)). resource_owner (allocations w5 x))"
  proof
    fix r
    assume r: "r \<in> set ?rs"
    have "resource_owner (allocations w5 x)"
      if "x \<in> set (resource_alloc_list_head (resources w5 r))" for x
    proof -
      from that keepsD(10) [OF 45, of r]
      have "x \<in> set (resource_alloc_list_head (resources v r))"
        by blast
      with linked(5) r keepsD(14) [OF 45, of x] show ?thesis
        by simp
    qed
    with linked(5) r keepsD(9) [OF 45, of r] keepsD(11,12) [OF 45, of r]
    show "resource_device (resources w5 r) = d \<and> resource_list_entry (resources w5 r) \<and>
      \<not> resource_destroyed (resources w5 r) \<and>
      (\<forall>x\<in>set (resource_alloc_list_head (resources w5 r)). resource_owner (allocations w5 x))"
      by simp
  qed
  from fold_dxgresource_destroy_listed [OF linked(4) this]
  have 6: "keeps 2 UNIV (set ?rs) w5 w6"
    and k6: "device_kref (devices w6 d) = device_kref (devices w5 d) - int (length ?rs)"
    unfolding w6_def rs by simp_all
  have 8: "keeps 0 UNIV (set ?rs) w6 w8"
    unfolding w8_def by (intro keeps_rules; (rule keeps_refl | simp))
  have 68: "keeps 2 UNIV (set ?rs) w5 w8"
    by (rule keeps_trans [OF 6 keeps_mono [OF 8]]) simp_all
  have 58: "keeps 2 UNIV (set ?rs) v w8"
    by (rule keeps_trans [OF keeps_mono [OF 45] 68]) simp_all
  have cs: "context_list_head (devices w8 d) = ?cs"
    by (rule keepsD(7) [OF 58]) simp
  have "\<forall>c\<in>set ?cs. context_device (contexts w8 c) = Some d"
    using linked(1) keepsD(8) [OF 58] by simp
  from fold_dxgcontext_destroy_releases [OF this, of p d]
  have k9: "device_kref (devices w9 d) = device_kref (devices w8 d) - int (length ?cs)"
    unfolding w9_def cs by simp
  have k8: "device_kref (devices w8 d) = device_kref (devices w6 d)"
    by (rule keepsD(4) [OF 8]) simp
  have k4: "device_kref (devices w4 d) = device_kref (devices v d)"
    by (rule keepsD(4) [OF 4]) simp
  show ?thesis
    unfolding unfold
    by (simp add: dxgdevice_release_context_list_lock_def k9 k8 k6 k5 k4)
qed

text \<open>
  The second part of the destroy changes neither an adapter nor a reference count of a
  device.
\<close>

lemma release_handles_frame:
  "adapters (release_handles p oa d v) = adapters v"
  "device_kref (devices (release_handles p oa d v) d') = device_kref (devices v d')"
  "device_adapter (devices (release_handles p oa d v) d') = device_adapter (devices v d')"
  by (simp_all add: release_handles_def hmgrtable_lock_def hmgrtable_unlock_def
      hmgrtable_free_handle_def dxgadapter_acquire_lock_shared_def
      dxgadapter_release_lock_shared_def dxgvmb_send_destroy_device_def Let_def split_beta
      split: option.splits)

lemma dxgdevice_destroy_releases:
  assumes "device_object_state (devices w d) = DXGOBJECTSTATE_ACTIVE"
    and "device_adapter (devices w d) = Some a"
    and "device_children_linked w d"
  shows "adapter_kref (adapters (dxgdevice_destroy d w) b) =
      adapter_kref (adapters w b) - (if b = a then 1 else 0)"
    and "device_kref (devices (dxgdevice_destroy d w) d) =
      device_kref (devices w d) - int (length (alloc_list_head (devices w d))) -
      int (length (resource_list_head (devices w d))) -
      int (length (context_list_head (devices w d))) - 1"
proof -
  let ?p = "device_process (devices w d)"
  define w1 where "w1 = emit (Down_write (Device_lock d)) w"
  define wc where "wc = destroy_children ?p d w1"
  define w2 where "w2 = release_handles ?p (device_adapter (devices w d)) d wc"
  have "dxgdevice_destroy d w =
      kref_put_device d (emit (Up_write (Device_lock d))
        (case device_adapter (devices w2 d) of
           Some a \<Rightarrow> kref_put_adapter a (dxgprocess_adapter_remove_device d w2)
         | None \<Rightarrow> w2))"
    unfolding dxgdevice_destroy_def Let_def w2_def wc_def w1_def
    using assms(1) by (simp cong: option.case_cong)
  moreover have children: "keeps 3 UNIV UNIV w1 wc"
    unfolding wc_def by (rule keeps_destroy_children) (rule keeps_refl)
  have "device_adapter (devices w2 d) = Some a"
    using assms(2) keepsD(2) [OF children, of d]
    by (simp add: w2_def release_handles_frame w1_def)
  ultimately have unfold: "dxgdevice_destroy d w =
      kref_put_device d (emit (Up_write (Device_lock d))
        (kref_put_adapter a (dxgprocess_adapter_remove_device d w2)))"
    by simp
  have adapters: "adapters w2 = adapters w"
    using keepsD(1) [OF children] by (simp add: w2_def release_handles_frame w1_def)
  show "adapter_kref (adapters (dxgdevice_destroy d w) b) =
      adapter_kref (adapters w b) - (if b = a then 1 else 0)"
    unfolding unfold
    by (simp add: kref_put_device_def dxgdevice_release_def kref_put_adapter_def
        dxgadapter_release_def dxgprocess_adapter_remove_device_def Let_def adapters)
  have "device_children_linked w1 d"
    using assms(3) by (simp add: device_children_linked_def w1_def)
  from destroy_children_releases [OF this, of ?p]
  have "device_kref (devices w2 d) =
      device_kref (devices w d) - int (length (alloc_list_head (devices w d))) -
      int (length (resource_list_head (devices w d))) -
      int (length (context_list_head (devices w d)))"
    by (simp add: w2_def release_handles_frame wc_def w1_def)
  then show "device_kref (devices (dxgdevice_destroy d w) d) =
      device_kref (devices w d) - int (length (alloc_list_head (devices w d))) -
      int (length (resource_list_head (devices w d))) -
      int (length (context_list_head (devices w d))) - 1"
    unfolding unfold
    by (simp add: kref_put_device_def dxgdevice_release_def kref_put_adapter_def
        dxgadapter_release_def dxgprocess_adapter_remove_device_def Let_def)
qed

text \<open>Creating a device and creating a context.\<close>

lemma dxgdevice_create_takes:
  assumes "fst (dxgdevice_create a p d w) = Some e"
  shows "e = d"
    and "device_adapter (devices (snd (dxgdevice_create a p d w)) d) = Some a"
    and "device_kref (devices (snd (dxgdevice_create a p d w)) d) = 1"
    and "adapter_kref (adapters (snd (dxgdevice_create a p d w)) b) =
      adapter_kref (adapters w b) + (if b = a then 1 else 0)"
  using assms
  by (simp_all add: dxgdevice_create_def dxgprocess_adapter_add_device_def kref_get_adapter_def
      Let_def split_beta EINVAL_def split: if_splits option.splits)

lemma dxgcontext_create_takes:
  assumes "fst (dxgcontext_create d c w) = Some e"
  shows "e = c"
    and "context_device (contexts (snd (dxgcontext_create d c w)) c) = Some d"
    and "c \<in> set (context_list_head (devices (snd (dxgcontext_create d c w)) d))"
    and "device_kref (devices (snd (dxgcontext_create d c w)) d') =
      device_kref (devices w d') + (if d' = d then 1 else 0)"
  using assms
  by (simp_all add: dxgcontext_create_def dxgdevice_add_context_def kref_get_device_def
      Let_def split_beta split: if_splits)

text \<open>
  Claim C6. A device that \<^verbatim>\<open>dxgdevice_create\<close> returns points to its adapter and has
  taken one reference on it, and no other reference count of an adapter has changed. A
  context that \<^verbatim>\<open>dxgcontext_create\<close> returns points to its device and has taken one
  reference on it, and no other reference count of a device has changed. Destroying an
  active device, whose children are linked to it as the functions that add them leave
  them, releases one reference on the adapter of the device and on no other adapter;
  on the device it releases one reference for each context, for each allocation and
  for each resource on its lists, and the one that the caller gives up.
\<close>

theorem one_reference_on_the_parent:
  "(fst (dxgdevice_create a p d w) = Some d \<longrightarrow>
      device_adapter (devices (snd (dxgdevice_create a p d w)) d) = Some a \<and>
      (\<forall>b. adapter_kref (adapters (snd (dxgdevice_create a p d w)) b) =
         adapter_kref (adapters w b) + (if b = a then 1 else 0))) \<and>
   (fst (dxgcontext_create d c w) = Some c \<longrightarrow>
      context_device (contexts (snd (dxgcontext_create d c w)) c) = Some d \<and>
      c \<in> set (context_list_head (devices (snd (dxgcontext_create d c w)) d)) \<and>
      (\<forall>e. device_kref (devices (snd (dxgcontext_create d c w)) e) =
         device_kref (devices w e) + (if e = d then 1 else 0))) \<and>
   (device_object_state (devices w d) = DXGOBJECTSTATE_ACTIVE \<and>
    device_adapter (devices w d) = Some a \<and> device_children_linked w d \<longrightarrow>
      (\<forall>b. adapter_kref (adapters (dxgdevice_destroy d w) b) =
         adapter_kref (adapters w b) - (if b = a then 1 else 0)) \<and>
      device_kref (devices (dxgdevice_destroy d w) d) =
        device_kref (devices w d) - int (length (context_list_head (devices w d))) -
        int (length (alloc_list_head (devices w d))) -
        int (length (resource_list_head (devices w d))) - 1)"
proof (intro conjI impI allI)
  assume "fst (dxgdevice_create a p d w) = Some d"
  then show "device_adapter (devices (snd (dxgdevice_create a p d w)) d) = Some a"
    and "adapter_kref (adapters (snd (dxgdevice_create a p d w)) b) =
      adapter_kref (adapters w b) + (if b = a then 1 else 0)" for b
    by (rule dxgdevice_create_takes)+
next
  assume "fst (dxgcontext_create d c w) = Some c"
  then show "context_device (contexts (snd (dxgcontext_create d c w)) c) = Some d"
    and "c \<in> set (context_list_head (devices (snd (dxgcontext_create d c w)) d))"
    and "device_kref (devices (snd (dxgcontext_create d c w)) e) =
      device_kref (devices w e) + (if e = d then 1 else 0)" for e
    by (rule dxgcontext_create_takes)+
next
  assume "device_object_state (devices w d) = DXGOBJECTSTATE_ACTIVE \<and>
    device_adapter (devices w d) = Some a \<and> device_children_linked w d"
  then have active: "device_object_state (devices w d) = DXGOBJECTSTATE_ACTIVE"
    and adapter: "device_adapter (devices w d) = Some a"
    and linked: "device_children_linked w d"
    by simp_all
  show "adapter_kref (adapters (dxgdevice_destroy d w) b) =
      adapter_kref (adapters w b) - (if b = a then 1 else 0)" for b
    by (rule dxgdevice_destroy_releases(1) [OF active adapter linked])
  show "device_kref (devices (dxgdevice_destroy d w) d) =
      device_kref (devices w d) - int (length (context_list_head (devices w d))) -
      int (length (alloc_list_head (devices w d))) -
      int (length (resource_list_head (devices w d))) - 1"
    using dxgdevice_destroy_releases(2) [OF active adapter linked] by simp
qed

theorem one_reference_on_the_parent_witness:
  "fst (dxgdevice_create 3 1 10 device_world) = Some 10 \<and>
   adapter_kref (adapters device_world 3) = 2 \<and>
   adapter_kref (adapters (snd (dxgdevice_create 3 1 10 device_world)) 3) = 3 \<and>
   fst (dxgcontext_create 2 6 device_world) = Some 6 \<and>
   device_kref (devices device_world 2) = 1 \<and>
   device_kref (devices (snd (dxgcontext_create 2 6 device_world)) 2) = 2 \<and>
   device_object_state (devices linked_world 2) = DXGOBJECTSTATE_ACTIVE \<and>
   device_adapter (devices linked_world 2) = Some 3 \<and>
   device_children_linked linked_world 2 \<and>
   adapter_kref (adapters linked_world 3) = 2 \<and>
   device_kref (devices linked_world 2) = 5 \<and>
   adapter_kref (adapters (dxgdevice_destroy 2 linked_world) 3) = 1 \<and>
   device_kref (devices (dxgdevice_destroy 2 linked_world) 2) = 0"
proof -
  have made: "fst (dxgdevice_create 3 1 10 device_world) = Some 10"
    and a0: "adapter_kref (adapters device_world 3) = 2"
    and made_context: "fst (dxgcontext_create 2 6 device_world) = Some 6"
    and d0: "device_kref (devices device_world 2) = 1"
    by code_simp+
  have active: "device_object_state (devices linked_world 2) = DXGOBJECTSTATE_ACTIVE"
    and adapter: "device_adapter (devices linked_world 2) = Some 3"
    and linked: "device_children_linked linked_world 2"
    and a1: "adapter_kref (adapters linked_world 3) = 2"
    and d1: "device_kref (devices linked_world 2) = 5"
    and lists: "context_list_head (devices linked_world 2) = [6, 7]"
      "alloc_list_head (devices linked_world 2) = [5]"
      "resource_list_head (devices linked_world 2) = [4]"
    by code_simp+
  note create = one_reference_on_the_parent
    [of 3 1 10 device_world, THEN conjunct1, THEN mp, OF made]
  note create_context = one_reference_on_the_parent
    [of 3 1 2 device_world 6, THEN conjunct2, THEN conjunct1, THEN mp, OF made_context]
  note destroy = one_reference_on_the_parent
    [of 3 1 2 linked_world, THEN conjunct2, THEN conjunct2, THEN mp,
     OF conjI [OF active conjI [OF adapter linked]]]
  from create have 1: "adapter_kref (adapters (snd (dxgdevice_create 3 1 10 device_world)) 3) = 3"
    by (simp add: a0)
  from create_context
  have 2: "device_kref (devices (snd (dxgcontext_create 2 6 device_world)) 2) = 2"
    by (simp add: d0)
  from destroy have 3: "adapter_kref (adapters (dxgdevice_destroy 2 linked_world) 3) = 1"
    by (simp add: a1)
  from destroy have 4: "device_kref (devices (dxgdevice_destroy 2 linked_world) 2) = 0"
    by (simp add: d1 lists)
  from made a0 1 made_context d0 2 active adapter linked a1 d1 3 4 show ?thesis
    by (intro conjI)
qed

text \<open>
  When \<^verbatim>\<open>dxgdevice_create\<close> cannot put the new device on the list of the process (here
  process 1 has no binding to adapter 4), it frees the device and returns \<^verbatim>\<open>NULL\<close>;
  the reference that the device had taken on the adapter stays taken.
\<close>

lemma dxgdevice_create_failure_keeps_reference:
  "fst (dxgdevice_create 4 1 10 device_world) = None \<and>
   adapter_kref (adapters device_world 4) = 1 \<and>
   adapter_kref (adapters (snd (dxgdevice_create 4 1 10 device_world)) 4) = 2 \<and>
   Vfree (Device 10) \<in> set (trace (snd (dxgdevice_create 4 1 10 device_world)))"
  by code_simp

end
